(* ===== verification/Prelude.thy ===== *)
theory Prelude
  imports Main "HOL-Library.Word" "HOL-Library.Monad_Syntax"
begin

unbundle bit_operations_syntax

text \<open>
  Types and facts shared by every component of the firmware model.

  The firmware is compiled for RV32 with the ilp32 ABI (\<open>fw/hello-world/Makefile\<close>), so
  \<open>int\<close>, \<open>long\<close>, \<open>size_t\<close>, pointers and \<open>uint32_t\<close> are all 32 bits wide and
  plain \<open>char\<close> is unsigned. Signed values are the same words read through \<open>sint\<close>.
  An option result \<open>None\<close> always means that the C program gives the call no result: an
  endless loop, or undefined behaviour (a shift count out of range, a division by zero, a signed
  overflow, a \<open>va_arg\<close> of the wrong type). Error codes that the code does return
  (\<open>-1\<close>, a null pointer) are ordinary result values.
\<close>

section \<open>Machine integers\<close>

type_synonym u8 = "8 word"
type_synonym u32 = "32 word"
type_synonym u64 = "64 word"

named_theorems reg_simps
  \<open>values of the address constants and register field macros\<close>
named_theorems obs_simps
  \<open>how the observations of an event sequence distribute\<close>

abbreviation c_str :: "string \<Rightarrow> u8 list" where
  "c_str cs \<equiv> map of_char cs"

definition minus_one :: u32 where
  "minus_one = - 1"

text \<open>A C shift of a 32-bit operand is defined only for counts below 32.\<close>

definition c_shr :: "u32 \<Rightarrow> u32 \<Rightarrow> u32 option" where
  "c_shr x n = (if n < 32 then Some (drop_bit (unat n) x) else None)"

definition c_shl :: "u32 \<Rightarrow> u32 \<Rightarrow> u32 option" where
  "c_shl x n = (if n < 32 then Some (push_bit (unat n) x) else None)"

lemma c_shr_None_iff: "c_shr x n = None \<longleftrightarrow> 32 \<le> n"
  by (auto simp: c_shr_def)

lemma c_shl_None_iff: "c_shl x n = None \<longleftrightarrow> 32 \<le> n"
  by (auto simp: c_shl_def)

section \<open>Words and their bytes\<close>

text \<open>Byte \<open>i\<close> of a word in little-endian order, and a word from its four bytes.\<close>

definition byte_of :: "nat \<Rightarrow> u32 \<Rightarrow> u8" where
  "byte_of i w = ucast (drop_bit (8 * i) w)"

definition word_of :: "u8 \<Rightarrow> u8 \<Rightarrow> u8 \<Rightarrow> u8 \<Rightarrow> u32" where
  "word_of b0 b1 b2 b3 =
     ucast b0 OR push_bit 8 (ucast b1) OR push_bit 16 (ucast b2) OR push_bit 24 (ucast b3)"

lemma bit_word_of: "bit (word_of a b c d) n \<longleftrightarrow>
    n < 8 \<and> bit a n \<or> 8 \<le> n \<and> n < 16 \<and> bit b (n - 8)
    \<or> 16 \<le> n \<and> n < 24 \<and> bit c (n - 16) \<or> 24 \<le> n \<and> n < 32 \<and> bit d (n - 24)"
  unfolding word_of_def
  by (auto simp: bit_or_iff bit_push_bit_iff bit_ucast_iff dest: bit_imp_le_length)

lemma bit_byte_of: "bit (byte_of i w) n \<longleftrightarrow> n < 8 \<and> bit w (8 * i + n)"
  by (auto simp: byte_of_def bit_ucast_iff bit_drop_bit_eq)

lemma word_of_byte_of [simp]:
  "word_of (byte_of 0 w) (byte_of (Suc 0) w) (byte_of 2 w) (byte_of 3 w) = w"
proof (rule bit_word_eqI)
  fix n assume "n < LENGTH(32)"
  then have "n < 8 \<or> 8 \<le> n \<and> n < 16 \<or> 16 \<le> n \<and> n < 24 \<or> 24 \<le> n \<and> n < 32" by auto
  then show "bit (word_of (byte_of 0 w) (byte_of (Suc 0) w) (byte_of 2 w) (byte_of 3 w)) n = bit w n"
    by (elim disjE) (auto simp: bit_word_of bit_byte_of)
qed

lemma word_of_zero [simp]: "word_of 0 0 0 0 = 0"
  by (simp add: word_of_def)

lemma word_of_eq_0_iff: "word_of a b c d = 0 \<longleftrightarrow> a = 0 \<and> b = 0 \<and> c = 0 \<and> d = 0"
proof
  assume z: "word_of a b c d = 0"
  have "\<not> bit (word_of a b c d) n" for n using z by simp
  note none = this[unfolded bit_word_of]
  have "\<not> bit a n \<and> \<not> bit b n \<and> \<not> bit c n \<and> \<not> bit d n" if "n < 8" for n
    using none[of n] none[of "n + 8"] none[of "n + 16"] none[of "n + 24"] that by auto
  then show "a = 0 \<and> b = 0 \<and> c = 0 \<and> d = 0"
    by (auto intro!: bit_word_eqI)
qed simp

text \<open>Truncation to a byte is a ring homomorphism.\<close>

lemma ucast_plus_u8: "ucast (x + y :: u32) = (ucast x + ucast y :: u8)"
proof -
  have "(a + b) mod 4294967296 mod 256 = (a mod 4294967296 + b mod 4294967296) mod 256" for a b :: int
  proof -
    have "(a + b) mod 4294967296 mod 256 = (a + b) mod 256" by (rule mod_mod_cancel) simp
    also have "\<dots> = (a mod 256 + b mod 256) mod 256" by (simp add: mod_add_eq)
    also have "\<dots> = (a mod 4294967296 mod 256 + b mod 4294967296 mod 256) mod 256"
      by (simp add: mod_mod_cancel)
    also have "\<dots> = (a mod 4294967296 + b mod 4294967296) mod 256" by (simp add: mod_add_eq)
    finally show ?thesis .
  qed
  then show ?thesis by transfer (simp add: take_bit_eq_mod)
qed

text \<open>The low four bits of a word, and how they split off.\<close>

lemma bit_15_u32: "bit (0xF :: u32) n \<longleftrightarrow> n < 4"
proof -
  have "(0xF :: u32) = mask 4" by (simp add: mask_eq_exp_minus_1)
  then show ?thesis by (simp only: bit_mask_iff) auto
qed

lemma nibble_ucast [simp]: "ucast (ucast (take_bit 4 (x :: u32)) :: u8) = take_bit 4 x"
  by (rule bit_word_eqI) (auto simp: bit_ucast_iff bit_take_bit_iff)

lemma nibble_less_16: "ucast (take_bit 4 (x :: u32)) < (16 :: u8)"
proof -
  have "ucast (take_bit 4 x) = take_bit 4 (ucast x :: u8)"
    by (rule bit_word_eqI) (auto simp: bit_ucast_iff bit_take_bit_iff)
  also have "\<dots> < 16" by (simp add: take_bit_eq_mod word_mod_less_divisor)
  finally show ?thesis .
qed

lemma drop_bit_nibble: "drop_bit (4 + n) (x :: u32) * 16 + take_bit 4 (drop_bit n x) = drop_bit n x"
proof -
  have "drop_bit (4 + n) x = drop_bit 4 (drop_bit n x)"
    by (simp add: drop_bit_drop_bit)
  also have "\<dots> = drop_bit n x div 16" by (simp only: drop_bit_eq_div) simp
  finally show ?thesis
    using div_mult_mod_eq[of "drop_bit n x" 16] by (simp add: take_bit_eq_mod)
qed

section \<open>Words as offsets and bounds\<close>

lemma word_less_add_one_unat:
  fixes p q :: "'a::len word"
  assumes "p < q"
  shows "unat (p + 1) = Suc (unat p)"
proof -
  have "Suc (unat p) \<le> unat q" using assms by (simp add: word_less_nat_alt Suc_leI)
  also have "\<dots> < 2 ^ LENGTH('a)" by (rule unsigned_less)
  finally have "unat p + 1 < 2 ^ LENGTH('a)" by simp
  then show ?thesis by (simp add: unat_word_ariths)
qed

lemma unat_plus_no_wrap:
  fixes p q :: "'a::len word"
  assumes "unat p + unat q < 2 ^ LENGTH('a)"
  shows "unat (p + q) = unat p + unat q"
  using assms by (metis unat_add_lem)

lemma word_plus_of_nat_eq_iff:
  fixes p :: "'a::len word"
  assumes "i < 2 ^ LENGTH('a)" "j < 2 ^ LENGTH('a)"
  shows "p + of_nat i = p + of_nat j \<longleftrightarrow> i = j"
proof
  assume "p + of_nat i = p + of_nat j"
  then have "unat (of_nat i :: 'a word) = unat (of_nat j :: 'a word)" by simp
  with assms show "i = j" by (simp add: unat_of_nat)
qed simp

lemma word_less_of_nat_cases:
  fixes d :: "'a::len word"
  assumes "unat d < n"
  shows "d \<in> of_nat ` {..<n}"
proof -
  have "d = of_nat (unat d)" by simp
  with assms show ?thesis by blast
qed

section \<open>Signed values\<close>

lemma sint_u32: "sint (v :: u32) = (if uint v < 2 ^ 31 then uint v else uint v - 2 ^ 32)"
proof -
  have b: "- (2 ^ 31) \<le> sint v" "sint v < 2 ^ 31"
    using sint_greater_eq[of v] sint_less[of v] by simp_all
  have u: "uint v = sint v mod 2 ^ 32"
    using uint_sint[of v] by (simp add: take_bit_eq_mod)
  show ?thesis
  proof (cases "0 \<le> sint v")
    case True
    with b u have "uint v = sint v" by simp
    with b show ?thesis by simp
  next
    case False
    have "sint v mod 2 ^ 32 = (sint v + 2 ^ 32) mod 2 ^ 32" by simp
    also have "\<dots> = sint v + 2 ^ 32" using False b by (intro mod_pos_pos_trivial) auto
    finally have "uint v = sint v + 2 ^ 32" using u by simp
    with b False show ?thesis by simp
  qed
qed

lemma unat_u32_less: "unat (v :: u32) < 4294967296"
  using unsigned_less[of v] by simp

lemma uint_u32_less: "uint (v :: u32) < 2 ^ 32"
  using unsigned_less[of v] by simp

lemma sint_nonneg_u32: "0 \<le> sint (v :: u32) \<Longrightarrow> uint v = sint v"
  using uint_u32_less[of v] by (simp add: sint_u32 split: if_splits)

lemma sint_neg_u32: "sint (v :: u32) < 0 \<Longrightarrow> uint (- v) = - sint v"
proof -
  assume neg: "sint v < 0"
  have "- (2 ^ 31) \<le> sint v" using sint_greater_eq[of v] by simp
  moreover have "uint (- v) = (- uint v) mod 2 ^ 32"
    by (simp add: uint_word_ariths)
  moreover have "uint v = sint v + 2 ^ 32" using neg by (simp add: sint_u32 split: if_splits)
  ultimately have "uint (- v) = (- sint v - 2 ^ 32) mod 2 ^ 32" by simp
  also have "\<dots> = (- sint v) mod 2 ^ 32" by simp
  also have "\<dots> = - sint v" using neg \<open>- (2 ^ 31) \<le> sint v\<close> by (intro mod_pos_pos_trivial) auto
  finally show ?thesis .
qed
section \<open>Option binds\<close>

lemma bind_eq_SomeE:
  assumes "Option.bind m f = Some r"
  obtains x where "m = Some x" "f x = Some r"
  using assms by (cases m) auto

lemma bind_Some_iff: "Option.bind m f = Some r \<longleftrightarrow> (\<exists>x. m = Some x \<and> f x = Some r)"
  by (cases m) auto

lemma bind_None_iff: "Option.bind m f = None \<longleftrightarrow> (\<forall>x. m = Some x \<longrightarrow> f x = None)"
  by (cases m) auto

lemma replicate_numeral [simp]: "replicate (numeral k) x = x # replicate (pred_numeral k) x"
  by (simp add: numeral_eq_Suc)

section \<open>Iterated effects\<close>

text \<open>Run a fallible state transformer over a list, left to right.\<close>

fun run_all :: "('a \<Rightarrow> 's \<Rightarrow> 's option) \<Rightarrow> 'a list \<Rightarrow> 's \<Rightarrow> 's option" where
  "run_all f [] s = Some s"
| "run_all f (x # xs) s = do { s \<leftarrow> f x s; run_all f xs s }"

lemma run_all_append:
  "run_all f (xs @ ys) s = do { s \<leftarrow> run_all f xs s; run_all f ys s }"
  by (induction xs arbitrary: s) (auto split: Option.bind_splits)

lemma run_all_inv:
  assumes step: "\<And>x s. P s \<Longrightarrow> \<exists>t. f x s = Some t \<and> P t" and "P s"
  shows "\<exists>t. run_all f xs s = Some t \<and> P t"
  using \<open>P s\<close>
proof (induction xs arbitrary: s)
  case (Cons x xs)
  from step[OF Cons.prems, of x] obtain t where "f x s = Some t" "P t" by blast
  with Cons.IH[of t] show ?case by auto
qed simp

end
