(* ===== verification/Bus.thy ===== *)
theory Bus
  imports Prelude
begin

unbundle bit_operations_syntax

text \<open>
  The hardware interface of the firmware: volatile loads and stores
  (\<open>_REG32\<close> of \<open>platform.h\<close>, byte pointers of the interrupt drivers) and CSR
  instructions (\<open>read_csr\<close>, \<open>write_csr\<close> of \<open>encoding.h\<close>).

  What the hardware answers is not code of the repository: it is the parameter \<open>env\<close>, which
  gives the value of a load from the whole history of accesses made so far, so that a register
  that changes by itself, a FIFO or a timer are all instances. The state of the firmware is that
  history together with the two static variables the modelled C files keep.
\<close>

section \<open>Accesses, histories and the machine\<close>

datatype csr = Mhartid | Misa | Mstatus | Mtvec | Mtvt | Mcycle | Mcycleh | Fcsr

datatype access = LdW u32 | LdB u32 | LdCsr csr

datatype event =
    RdW u32 u32 | WrW u32 u32
  | RdB u32 u8 | WrB u32 u8
  | RdCsr csr u32 | WrCsr csr u32

type_synonym env = "event list \<Rightarrow> access \<Rightarrow> u32"

record machine =
  hist :: "event list"
  curbrk :: u32
  cpu_freq :: u32

definition logged :: "event list \<Rightarrow> machine \<Rightarrow> machine" where
  "logged es s = s\<lparr>hist := hist s @ es\<rparr>"

lemma hist_logged [simp]: "hist (logged es s) = hist s @ es"
  and curbrk_logged [simp]: "curbrk (logged es s) = curbrk s"
  and cpu_freq_logged [simp]: "cpu_freq (logged es s) = cpu_freq s"
  by (simp_all add: logged_def)

lemma logged_Nil [simp]: "logged [] s = s"
  and logged_logged [simp]: "logged fs (logged es s) = logged (es @ fs) s"
  by (simp_all add: logged_def)

lemma logged_inject [simp]: "logged es s = logged fs s \<longleftrightarrow> es = fs"
  by (metis hist_logged same_append_eq)

text \<open>A machine that has made no access yet; the firmware image has its break at \<open>0x80001000\<close>.\<close>

definition sample_machine :: machine where
  "sample_machine = \<lparr>hist = [], curbrk = 0x80001000, cpu_freq = 0\<rparr>"

section \<open>Loads, stores and CSR accesses\<close>

definition ld32 :: "env \<Rightarrow> u32 \<Rightarrow> machine \<Rightarrow> u32 \<times> machine" where
  "ld32 E a s = (E (hist s) (LdW a), logged [RdW a (E (hist s) (LdW a))] s)"

definition st32 :: "u32 \<Rightarrow> u32 \<Rightarrow> machine \<Rightarrow> machine" where
  "st32 a v s = logged [WrW a v] s"

definition ld8 :: "env \<Rightarrow> u32 \<Rightarrow> machine \<Rightarrow> u8 \<times> machine" where
  "ld8 E a s = (ucast (E (hist s) (LdB a)), logged [RdB a (ucast (E (hist s) (LdB a)))] s)"

definition st8 :: "u32 \<Rightarrow> u8 \<Rightarrow> machine \<Rightarrow> machine" where
  "st8 a v s = logged [WrB a v] s"

definition read_csr :: "env \<Rightarrow> csr \<Rightarrow> machine \<Rightarrow> u32 \<times> machine" where
  "read_csr E c s = (E (hist s) (LdCsr c), logged [RdCsr c (E (hist s) (LdCsr c))] s)"

definition write_csr :: "csr \<Rightarrow> u32 \<Rightarrow> machine \<Rightarrow> machine" where
  "write_csr c v s = logged [WrCsr c v] s"

text \<open>\<open>REG |= m\<close> and \<open>REG &= m\<close>: a load and a store of the same register.\<close>

definition reg_or :: "env \<Rightarrow> u32 \<Rightarrow> u32 \<Rightarrow> machine \<Rightarrow> machine" where
  "reg_or E a m s = (let (v, s) = ld32 E a s in st32 a (v OR m) s)"

definition reg_and :: "env \<Rightarrow> u32 \<Rightarrow> u32 \<Rightarrow> machine \<Rightarrow> machine" where
  "reg_and E a m s = (let (v, s) = ld32 E a s in st32 a (v AND m) s)"

lemmas bus_defs = ld32_def st32_def ld8_def st8_def read_csr_def write_csr_def
  reg_or_def reg_and_def

section \<open>Polling loops\<close>

text \<open>
  \<open>while (busy(REG)) ;\<close> returns the first value that is not busy; the caller may use it
  (\<open>do x = REG; while (busy(x))\<close>). A device that stays busy is the result \<open>None\<close>.
\<close>

partial_function (option) poll :: "env \<Rightarrow> (u32 \<Rightarrow> bool) \<Rightarrow> u32 \<Rightarrow> machine \<Rightarrow> (u32 \<times> machine) option" where
  "poll E busy a s = (let (v, s1) = ld32 E a s in if busy v then poll E busy a s1 else Some (v, s1))"

declare poll.simps [code]

text \<open>The polls that end a loop started at history \<open>h\<close>, and the value that ended it.\<close>

inductive polls :: "env \<Rightarrow> (u32 \<Rightarrow> bool) \<Rightarrow> u32 \<Rightarrow> event list \<Rightarrow> event list \<Rightarrow> u32 \<Rightarrow> bool"
  for E busy a where
  ready: "\<not> busy (E h (LdW a)) \<Longrightarrow> polls E busy a h [RdW a (E h (LdW a))] (E h (LdW a))"
| again: "busy (E h (LdW a)) \<Longrightarrow> polls E busy a (h @ [RdW a (E h (LdW a))]) es v
    \<Longrightarrow> polls E busy a h (RdW a (E h (LdW a)) # es) v"

inductive_cases polls_NilE [elim!]: "polls E busy a h [] v"
inductive_simps polls_Cons: "polls E busy a h (e # es) v"

lemma polls_not_busy: "polls E busy a h es v \<Longrightarrow> \<not> busy v"
  by (induction rule: polls.induct) auto

lemma polls_reads: "polls E busy a h es v \<Longrightarrow> \<exists>vs. es = map (RdW a) vs @ [RdW a v] \<and> (\<forall>x\<in>set vs. busy x)"
proof (induction rule: polls.induct)
  case (ready h)
  then show ?case by simp
next
  case (again h es v)
  then obtain vs where "es = map (RdW a) vs @ [RdW a v]" "\<forall>x\<in>set vs. busy x" by blast
  with again.hyps show ?case
    by (intro exI[of _ "E h (LdW a) # vs"]) auto
qed

lemma polls_poll: "polls E busy a h es v \<Longrightarrow> hist s = h \<Longrightarrow> poll E busy a s = Some (v, logged es s)"
proof (induction arbitrary: s rule: polls.induct)
  case (ready h)
  then show ?case by (subst poll.simps) (simp add: ld32_def)
next
  case (again h es v)
  then show ?case by (subst poll.simps) (simp add: ld32_def)
qed

lemma poll_polls:
  assumes "poll E busy a s = Some r"
  shows "\<exists>es. polls E busy a (hist s) es (fst r) \<and> snd r = logged es s"
proof (rule poll.raw_induct[where P = "\<lambda>E busy a s r. \<exists>es. polls E busy a (hist s) es (fst r) \<and> snd r = logged es s", OF _ assms])
  fix f and E :: env and busy a s r
  assume IH: "\<And>E busy a s r. f E busy a s = Some r
      \<Longrightarrow> \<exists>es. polls E busy a (hist s) es (fst r) \<and> snd r = logged es s"
    and eq: "(let (v, s1) = ld32 E a s in if busy v then f E busy a s1 else Some (v, s1)) = Some r"
  let ?v = "E (hist s) (LdW a)"
  show "\<exists>es. polls E busy a (hist s) es (fst r) \<and> snd r = logged es s"
  proof (cases "busy ?v")
    case True
    with eq have "f E busy a (logged [RdW a ?v] s) = Some r" by (simp add: ld32_def)
    from IH[OF this] obtain es where "polls E busy a (hist s @ [RdW a ?v]) es (fst r)"
      "snd r = logged (RdW a ?v # es) s" by auto
    with True show ?thesis by (blast intro: polls.again)
  next
    case False
    with eq show ?thesis by (auto simp: ld32_def intro: polls.ready)
  qed
qed

lemma poll_Some_iff:
  "poll E busy a s = Some (v, t) \<longleftrightarrow> (\<exists>es. polls E busy a (hist s) es v \<and> t = logged es s)"
  using poll_polls[of E busy a s "(v, t)"] polls_poll[of E busy a "hist s" _ v s] by auto

text \<open>A device whose register always stops being busy: what a polling loop relies on.\<close>

definition responsive :: "env \<Rightarrow> (u32 \<Rightarrow> bool) \<Rightarrow> u32 \<Rightarrow> bool" where
  "responsive E busy a \<longleftrightarrow> (\<forall>h. \<exists>es v. polls E busy a h es v)"

lemma responsive_poll:
  assumes "responsive E busy a"
  obtains es v where "polls E busy a (hist s) es v" "poll E busy a s = Some (v, logged es s)"
  using assms unfolding responsive_def by (meson polls_poll)

text \<open>A register that answers at once is responsive.\<close>

lemma responsiveI: "(\<And>h. \<not> busy (E h (LdW a))) \<Longrightarrow> responsive E busy a"
  unfolding responsive_def by (blast intro: polls.ready)

text \<open>So is one that is busy for one poll only.\<close>

lemma responsive_onceI:
  assumes "\<And>h. busy (E h (LdW a)) \<Longrightarrow> \<not> busy (E (h @ [RdW a (E h (LdW a))]) (LdW a))"
  shows "responsive E busy a"
  unfolding responsive_def
proof
  fix h
  show "\<exists>es v. polls E busy a h es v"
  proof (cases "busy (E h (LdW a))")
    case True
    with assms show ?thesis by (blast intro: polls.again polls.ready)
  next
    case False
    then show ?thesis by (blast intro: polls.ready)
  qed
qed

section \<open>Observations\<close>

text \<open>The stores of an event sequence, and those of one register.\<close>

fun is_store :: "event \<Rightarrow> bool" where
  "is_store (WrW a v) = True"
| "is_store (WrB a v) = True"
| "is_store (WrCsr c v) = True"
| "is_store _ = False"

definition stores :: "event list \<Rightarrow> event list" where
  "stores es = filter is_store es"

fun word_writes :: "u32 \<Rightarrow> event list \<Rightarrow> u32 list" where
  "word_writes a [] = []"
| "word_writes a (WrW b v # es) = (if a = b then v # word_writes a es else word_writes a es)"
| "word_writes a (_ # es) = word_writes a es"

lemma stores_simps [simp, obs_simps]:
  "stores [] = []"
  "stores (e # es) = (if is_store e then e # stores es else stores es)"
  "stores (es @ fs) = stores es @ stores fs"
  by (simp_all add: stores_def)

lemma word_writes_append [simp, obs_simps]: "word_writes a (es @ fs) = word_writes a es @ word_writes a fs"
proof (induction es)
  case (Cons e es)
  then show ?case by (cases e) auto
qed simp

lemma word_writes_stores: "word_writes a es = word_writes a (stores es)"
proof (induction es)
  case (Cons e es)
  then show ?case by (cases e) auto
qed simp

lemma word_writes_no_stores: "stores es = [] \<Longrightarrow> word_writes a es = []"
  using word_writes_stores[of a es] by simp

lemma stores_loads [simp]: "stores (map (RdW a) vs) = []"
  by (induction vs) auto

lemma polls_no_stores [simp, obs_simps]: "polls E busy a h es v \<Longrightarrow> stores es = []"
  by (drule polls_reads) (auto simp: stores_def)

section \<open>Plain registers and memory\<close>

text \<open>
  The bytes a history of stores leaves in a memory or in registers that hold what is written to
  them, from the contents \<open>m0\<close> at the start.
\<close>

fun store :: "event \<Rightarrow> (u32 \<Rightarrow> u8) \<Rightarrow> (u32 \<Rightarrow> u8)" where
  "store (WrW a w) m = m(a := byte_of 0 w, a + 1 := byte_of 1 w, a + 2 := byte_of 2 w, a + 3 := byte_of 3 w)"
| "store (WrB a b) m = m(a := b)"
| "store _ m = m"

definition contents :: "(u32 \<Rightarrow> u8) \<Rightarrow> event list \<Rightarrow> (u32 \<Rightarrow> u8)" where
  "contents m0 h = fold store h m0"

definition word_at :: "(u32 \<Rightarrow> u8) \<Rightarrow> u32 \<Rightarrow> u32" where
  "word_at m a = word_of (m a) (m (a + 1)) (m (a + 2)) (m (a + 3))"

lemma contents_Nil [simp]: "contents m0 [] = m0"
  and contents_Cons [simp]: "contents m0 (e # h) = contents (store e m0) h"
  and contents_append [simp]: "contents m0 (h @ h') = contents (contents m0 h) h'"
  by (simp_all add: contents_def)

lemma store_no_store [simp]: "\<not> is_store e \<Longrightarrow> store e m = m"
  by (cases e) auto

lemma contents_stores: "contents m0 es = contents m0 (stores es)"
  by (induction es arbitrary: m0) auto

text \<open>Word addresses that do not overlap.\<close>

definition apart :: "u32 \<Rightarrow> u32 \<Rightarrow> bool" where
  "apart a b \<longleftrightarrow> 4 \<le> unat (a - b) \<and> 4 \<le> unat (b - a)"

lemma word_at_store_same [simp]: "word_at (store (WrW a w) m) a = w"
  by (simp add: word_at_def)

lemma apart_bytes:
  assumes "apart a b" "i < 4" "j < 4"
  shows "a + of_nat i \<noteq> b + of_nat j"
proof
  assume eq: "a + of_nat i = b + of_nat j"
  have "a - b = of_nat j - of_nat i" "b - a = of_nat i - of_nat j"
    using eq by (simp_all add: algebra_simps)
  then have "i \<le> j \<Longrightarrow> a - b = of_nat (j - i)" "j \<le> i \<Longrightarrow> b - a = of_nat (i - j)"
    by simp_all
  moreover have "unat (of_nat n :: u32) = n" if "n < 4" for n
    using that by (simp add: unat_of_nat)
  ultimately show False
    using assms unfolding apart_def
    by (metis less_imp_diff_less linorder_not_le nat_le_linear)
qed

lemma word_at_store_apart:
  assumes "apart a b"
  shows "word_at (store (WrW b w) m) a = word_at m a"
proof -
  have "a + of_nat i \<noteq> b + of_nat j" if "i \<in> {0,1,2,3}" "j \<in> {0,1,2,3}" for i j
    using apart_bytes[OF assms, of i j] that by auto
  from this[of 0 0] this[of 0 1] this[of 0 2] this[of 0 3]
    this[of 1 0] this[of 1 1] this[of 1 2] this[of 1 3]
    this[of 2 0] this[of 2 1] this[of 2 2] this[of 2 3]
    this[of 3 0] this[of 3 1] this[of 3 2] this[of 3 3]
  show ?thesis by (simp add: word_at_def)
qed

text \<open>
  \<open>backed E m0 A\<close>: at the byte addresses \<open>A\<close> the device is a bank of plain
  registers, whose loads return what the stores so far have left there.
\<close>

definition backed :: "env \<Rightarrow> (u32 \<Rightarrow> u8) \<Rightarrow> u32 set \<Rightarrow> bool" where
  "backed E m0 A \<longleftrightarrow> (\<forall>h.
     (\<forall>a\<in>A. ucast (E h (LdB a)) = contents m0 h a)
     \<and> (\<forall>a. {a, a + 1, a + 2, a + 3} \<subseteq> A \<longrightarrow> E h (LdW a) = word_at (contents m0 h) a))"

definition ram_env :: "(u32 \<Rightarrow> u8) \<Rightarrow> (csr \<Rightarrow> u32) \<Rightarrow> env" where
  "ram_env m0 cs h acc = (case acc of
       LdW a \<Rightarrow> word_at (contents m0 h) a
     | LdB a \<Rightarrow> ucast (contents m0 h a)
     | LdCsr c \<Rightarrow> cs c)"

lemma backedD8: "backed E m0 A \<Longrightarrow> a \<in> A \<Longrightarrow> ucast (E h (LdB a)) = contents m0 h a"
  and backedD32: "backed E m0 A \<Longrightarrow> {a, a + 1, a + 2, a + 3} \<subseteq> A \<Longrightarrow> E h (LdW a) = word_at (contents m0 h) a"
  by (simp_all add: backed_def)

lemma ucast_ucast_u8 [simp]: "ucast (ucast (b :: u8) :: u32) = b"
  by (rule bit_word_eqI) (simp add: bit_ucast_iff)

lemma backed_ram_env [simp]: "backed (ram_env m0 cs) m0 A"
  by (simp add: backed_def ram_env_def)

end
