(* ===== verification/Platform.thy ===== *)
theory Platform
  imports Bus
begin

unbundle bit_operations_syntax

text \<open>
  The register map the firmware is compiled against: block base addresses
  (\<open>env/tgfs-vp/platform.h\<close>), register offsets (\<open>include/platform/devices/*.h\<close>)
  and the field macros of \<open>prci.h\<close>. Every definition is in the collection
  \<open>reg_simps\<close>, which turns an address expression into a numeral.
\<close>

section \<open>Base addresses\<close>

definition MASKROM_MEM_ADDR :: "u32" where [reg_simps]: "MASKROM_MEM_ADDR = 0x00001000"

definition OTP_MEM_ADDR :: "u32" where [reg_simps]: "OTP_MEM_ADDR = 0x00020000"

definition CLINT_CTRL_ADDR :: "u32" where [reg_simps]: "CLINT_CTRL_ADDR = 0x02000000"

definition PLIC_CTRL_ADDR :: "u32" where [reg_simps]: "PLIC_CTRL_ADDR = 0x0C000000"

definition AON_CTRL_ADDR :: "u32" where [reg_simps]: "AON_CTRL_ADDR = 0x10000000"

definition PRCI_CTRL_ADDR :: "u32" where [reg_simps]: "PRCI_CTRL_ADDR = 0x10008000"

definition OTP_CTRL_ADDR :: "u32" where [reg_simps]: "OTP_CTRL_ADDR = 0x10010000"

definition GPIO_CTRL_ADDR :: "u32" where [reg_simps]: "GPIO_CTRL_ADDR = 0x10012000"

definition UART0_CTRL_ADDR :: "u32" where [reg_simps]: "UART0_CTRL_ADDR = 0x10013000"

definition SPI0_CTRL_ADDR :: "u32" where [reg_simps]: "SPI0_CTRL_ADDR = 0x10014000"

definition PWM0_CTRL_ADDR :: "u32" where [reg_simps]: "PWM0_CTRL_ADDR = 0x10015000"

definition UART1_CTRL_ADDR :: "u32" where [reg_simps]: "UART1_CTRL_ADDR = 0x10023000"

definition SPI1_CTRL_ADDR :: "u32" where [reg_simps]: "SPI1_CTRL_ADDR = 0x10024000"

definition PWM1_CTRL_ADDR :: "u32" where [reg_simps]: "PWM1_CTRL_ADDR = 0x10025000"

definition SPI2_CTRL_ADDR :: "u32" where [reg_simps]: "SPI2_CTRL_ADDR = 0x10034000"

definition PWM2_CTRL_ADDR :: "u32" where [reg_simps]: "PWM2_CTRL_ADDR = 0x10035000"

definition SPI0_MEM_ADDR :: "u32" where [reg_simps]: "SPI0_MEM_ADDR = 0x20000000"

definition MEM_CTRL_ADDR :: "u32" where [reg_simps]: "MEM_CTRL_ADDR = 0x80000000"

section \<open>Register offsets and masks\<close>

definition CLINT_MTIME :: "u32" where [reg_simps]: "CLINT_MTIME = 0xBFF8"

definition UART_REG_TXFIFO :: "u32" where [reg_simps]: "UART_REG_TXFIFO = 0x00"

definition UART_REG_RXFIFO :: "u32" where [reg_simps]: "UART_REG_RXFIFO = 0x04"

definition UART_REG_TXCTRL :: "u32" where [reg_simps]: "UART_REG_TXCTRL = 0x08"

definition UART_REG_RXCTRL :: "u32" where [reg_simps]: "UART_REG_RXCTRL = 0x0c"

definition UART_REG_DIV :: "u32" where [reg_simps]: "UART_REG_DIV = 0x18"

definition UART_TXEN :: "u32" where [reg_simps]: "UART_TXEN = 0x1"

definition GPIO_IOF_EN :: "u32" where [reg_simps]: "GPIO_IOF_EN = 0x38"

definition GPIO_IOF_SEL :: "u32" where [reg_simps]: "GPIO_IOF_SEL = 0x3C"

definition IOF0_UART0_MASK :: "u32" where [reg_simps]: "IOF0_UART0_MASK = 0x00030000"

definition SPI_REG_SCKDIV :: "u32" where [reg_simps]: "SPI_REG_SCKDIV = 0x00"

definition AON_LFROSC :: "u32" where [reg_simps]: "AON_LFROSC = 0x070"

definition PRCI_HFROSCCFG :: "u32" where [reg_simps]: "PRCI_HFROSCCFG = 0x0000"

definition PRCI_PLLCFG :: "u32" where [reg_simps]: "PRCI_PLLCFG = 0x0008"

definition PRCI_PLLDIV :: "u32" where [reg_simps]: "PRCI_PLLDIV = 0x000C"

definition PLIC_PRIORITY_OFFSET :: "u32" where [reg_simps]: "PLIC_PRIORITY_OFFSET = 0x0000"

definition PLIC_ENABLE_OFFSET :: "u32" where [reg_simps]: "PLIC_ENABLE_OFFSET = 0x2000"

definition PLIC_THRESHOLD_OFFSET :: "u32" where [reg_simps]: "PLIC_THRESHOLD_OFFSET = 0x200000"

definition PLIC_CLAIM_OFFSET :: "u32" where [reg_simps]: "PLIC_CLAIM_OFFSET = 0x200004"

definition CLIC_INTIP :: "u32" where [reg_simps]: "CLIC_INTIP = 0x000"

definition CLIC_INTIE :: "u32" where [reg_simps]: "CLIC_INTIE = 0x400"

definition CLIC_INTCFG :: "u32" where [reg_simps]: "CLIC_INTCFG = 0x800"

definition CLIC_CFG :: "u32" where [reg_simps]: "CLIC_CFG = 0xc00"

definition MCAUSE_INT :: "u32" where [reg_simps]: "MCAUSE_INT = 0x80000000"

definition MCAUSE_CAUSE :: "u32" where [reg_simps]: "MCAUSE_CAUSE = 0x7FFFFFFF"

definition IRQ_M_TIMER :: "u32" where [reg_simps]: "IRQ_M_TIMER = 7"

definition IRQ_M_EXT :: "u32" where [reg_simps]: "IRQ_M_EXT = 11"

definition MSTATUS_FS :: "u32" where [reg_simps]: "MSTATUS_FS = 0x00006000"

definition PLIC_PRIORITY_SHIFT_PER_SOURCE :: "nat" where [reg_simps]: "PLIC_PRIORITY_SHIFT_PER_SOURCE = 2"

definition PLIC_ENABLE_SHIFT_PER_TARGET :: "nat" where [reg_simps]: "PLIC_ENABLE_SHIFT_PER_TARGET = 7"

definition PLIC_THRESHOLD_SHIFT_PER_TARGET :: "nat" where [reg_simps]: "PLIC_THRESHOLD_SHIFT_PER_TARGET = 12"

definition PLIC_CLAIM_SHIFT_PER_TARGET :: "nat" where [reg_simps]: "PLIC_CLAIM_SHIFT_PER_TARGET = 12"

section \<open>Field macros of the clock controller\<close>

text \<open>\<open>((x) & mask) << pos\<close>, on 32-bit operands.\<close>

definition ROSC_DIV :: "u32 \<Rightarrow> u32" where [reg_simps]: "ROSC_DIV x = push_bit 0 (x AND 0x2F)"

definition ROSC_TRIM :: "u32 \<Rightarrow> u32" where [reg_simps]: "ROSC_TRIM x = push_bit 16 (x AND 0x1F)"

definition ROSC_EN :: "u32 \<Rightarrow> u32" where [reg_simps]: "ROSC_EN x = push_bit 30 (x AND 0x1)"

definition ROSC_RDY :: "u32 \<Rightarrow> u32" where [reg_simps]: "ROSC_RDY x = push_bit 31 (x AND 0x1)"

definition PLL_R :: "u32 \<Rightarrow> u32" where [reg_simps]: "PLL_R x = push_bit 0 (x AND 0x7)"

definition PLL_F :: "u32 \<Rightarrow> u32" where [reg_simps]: "PLL_F x = push_bit 4 (x AND 0x3F)"

definition PLL_Q :: "u32 \<Rightarrow> u32" where [reg_simps]: "PLL_Q x = push_bit 10 (x AND 0x3)"

definition PLL_SEL :: "u32 \<Rightarrow> u32" where [reg_simps]: "PLL_SEL x = push_bit 16 (x AND 0x1)"

definition PLL_REFSEL :: "u32 \<Rightarrow> u32" where [reg_simps]: "PLL_REFSEL x = push_bit 17 (x AND 0x1)"

definition PLL_BYPASS :: "u32 \<Rightarrow> u32" where [reg_simps]: "PLL_BYPASS x = push_bit 18 (x AND 0x1)"

definition PLL_LOCK :: "u32 \<Rightarrow> u32" where [reg_simps]: "PLL_LOCK x = push_bit 31 (x AND 0x1)"

definition PLL_FINAL_DIV :: "u32 \<Rightarrow> u32" where [reg_simps]: "PLL_FINAL_DIV x = push_bit 0 (x AND 0x3F)"

definition PLL_FINAL_DIV_BY_1 :: "u32 \<Rightarrow> u32" where [reg_simps]: "PLL_FINAL_DIV_BY_1 x = push_bit 8 (x AND 0x1)"

section \<open>Register accessors\<close>

definition AON_REG :: "u32 \<Rightarrow> u32" where [reg_simps]: "AON_REG off = AON_CTRL_ADDR + off"

definition CLINT_REG :: "u32 \<Rightarrow> u32" where [reg_simps]: "CLINT_REG off = CLINT_CTRL_ADDR + off"

definition GPIO_REG :: "u32 \<Rightarrow> u32" where [reg_simps]: "GPIO_REG off = GPIO_CTRL_ADDR + off"

definition PRCI_REG :: "u32 \<Rightarrow> u32" where [reg_simps]: "PRCI_REG off = PRCI_CTRL_ADDR + off"

definition SPI0_REG :: "u32 \<Rightarrow> u32" where [reg_simps]: "SPI0_REG off = SPI0_CTRL_ADDR + off"

definition UART0_REG :: "u32 \<Rightarrow> u32" where [reg_simps]: "UART0_REG off = UART0_CTRL_ADDR + off"

abbreviation TXFIFO :: u32 where
  "TXFIFO \<equiv> UART0_REG UART_REG_TXFIFO"

abbreviation HFROSCCFG :: u32 where
  "HFROSCCFG \<equiv> PRCI_REG PRCI_HFROSCCFG"

abbreviation PLLCFG :: u32 where
  "PLLCFG \<equiv> PRCI_REG PRCI_PLLCFG"

abbreviation PLLDIV :: u32 where
  "PLLDIV \<equiv> PRCI_REG PRCI_PLLDIV"

abbreviation MTIME :: u32 where
  "MTIME \<equiv> CLINT_REG CLINT_MTIME"

end
