(* ===== verification/Counter.thy ===== *)
theory Counter
  imports Platform
begin

unbundle bit_operations_syntax

text \<open>
  Reading a 64-bit counter through two 32-bit registers: high, low, high again, and once more if
  the high half has moved. The cycle counter (\<open>rdmcycle\<close> of the clock driver) and the timer
  (\<open>get_timer_value\<close> of \<open>init.c\<close>) are read this way. The locale \<open>wide_counter\<close> states
  what the halves promise and what the loop makes of it; both readers are interpretations.
\<close>

partial_function (option) wide_read ::
  "(machine \<Rightarrow> u32 \<times> machine) \<Rightarrow> (machine \<Rightarrow> u32 \<times> machine) \<Rightarrow> machine \<Rightarrow> (u64 \<times> machine) option" where
  "wide_read rd_hi rd_lo s =
     (let (hi, s) = rd_hi s;
          (lo, s) = rd_lo s;
          (hi2, s) = rd_hi s
      in if hi \<noteq> hi2 then wide_read rd_hi rd_lo s
         else Some (ucast lo OR push_bit 32 (ucast hi), s))"

declare wide_read.simps [code]

text \<open>The value of the two halves.\<close>

lemma wide_word_value: "unat (ucast (lo :: u32) OR push_bit 32 (ucast (hi :: u32)) :: u64) = unat hi * 2 ^ 32 + unat lo"
proof -
  have d: "ucast lo OR push_bit 32 (ucast hi) = (push_bit 32 (ucast hi) + ucast lo :: u64)"
    by (subst disjunctive_add) (auto simp: bit_push_bit_iff bit_ucast_iff or.commute dest: bit_imp_le_length)
  have "unat (push_bit 32 (ucast hi) :: u64) = unat hi * 2 ^ 32"
  proof -
    have "unat (ucast hi :: u64) = unat hi" using unat_u32_less[of hi] by (simp add: unsigned_ucast_eq take_bit_eq_mod)
    moreover have "take_bit 64 (push_bit 32 (unat hi)) = unat hi * 2 ^ 32"
      using unat_u32_less[of hi] by (simp add: push_bit_eq_mult take_bit_eq_mod)
    ultimately show ?thesis by (simp only: unsigned_push_bit_eq) simp
  qed
  moreover have "unat (ucast lo :: u64) = unat lo" using unat_u32_less[of lo] by (simp add: unsigned_ucast_eq take_bit_eq_mod)
  ultimately show ?thesis unfolding d
    using unat_u32_less[of hi] unat_u32_less[of lo] by (subst unat_plus_no_wrap) simp_all
qed

text \<open>A loop that returns has an unbroken last round, whose start lies after that of the call.\<close>

lemma wide_read_last_round:
  assumes "wide_read rd_hi rd_lo s = Some (v, t)"
    and ext: "\<And>s. \<exists>es. snd (rd_hi s) = logged es s" "\<And>s. \<exists>es. snd (rd_lo s) = logged es s"
  shows "\<exists>es hi lo s1 s2. rd_hi (logged es s) = (hi, s1) \<and> rd_lo s1 = (lo, s2) \<and> rd_hi s2 = (hi, t)
    \<and> v = ucast lo OR push_bit 32 (ucast hi)"
proof -
  let ?P = "\<lambda>s (v, t). \<exists>es hi lo s1 s2. rd_hi (logged es s) = (hi, s1) \<and> rd_lo s1 = (lo, s2)
      \<and> rd_hi s2 = (hi, t) \<and> v = ucast lo OR push_bit 32 (ucast hi)"
  have "?P s (v, t)"
  proof (rule wide_read.raw_induct[where P = "\<lambda>h l s r. h = rd_hi \<longrightarrow> l = rd_lo \<longrightarrow> ?P s r",
        OF _ assms(1), rule_format, OF _ refl refl])
    fix f and h l :: "machine \<Rightarrow> u32 \<times> machine" and s r
    assume IH: "\<And>h l s r. f h l s = Some r \<Longrightarrow> h = rd_hi \<Longrightarrow> l = rd_lo \<Longrightarrow> ?P s r"
      and eq: "(let (hi, s) = h s; (lo, s) = l s; (hi2, s) = h s
        in if hi \<noteq> hi2 then f h l s else Some (ucast lo OR push_bit 32 (ucast hi), s)) = Some r"
      and h: "h = rd_hi" and l: "l = rd_lo"
    obtain hi s1 where 1: "rd_hi s = (hi, s1)" by fastforce
    obtain lo s2 where 2: "rd_lo s1 = (lo, s2)" by fastforce
    obtain hi2 s3 where 3: "rd_hi s2 = (hi2, s3)" by fastforce
    show "?P s r"
    proof (cases "hi = hi2")
      case True
      with eq 1 2 3 have "r = (ucast lo OR push_bit 32 (ucast hi), s3)" by (simp add: h l)
      then show ?thesis using 1 2 3 True
        by (auto intro!: exI[of _ "[]"])
    next
      case False
      with eq 1 2 3 have "f rd_hi rd_lo s3 = Some r" by (simp add: h l)
      with IH have p: "?P s3 r" by blast
      obtain e1 e2 e3 where "s1 = logged e1 s" "s2 = logged e2 s1" "s3 = logged e3 s2"
        using ext(1)[of s] ext(2)[of s1] ext(1)[of s2] 1 2 3 by auto
      then have s3: "s3 = logged (e1 @ e2 @ e3) s" by simp
      obtain w u where r: "r = (w, u)" by fastforce
      from p[unfolded r prod.case] obtain es hi lo s1 s2 where "rd_hi (logged es s3) = (hi, s1)"
        "rd_lo s1 = (lo, s2)" "rd_hi s2 = (hi, u)" "w = ucast lo OR push_bit 32 (ucast hi)" by blast
      then show ?thesis unfolding r prod.case s3 logged_logged by blast
    qed
  qed
  then show ?thesis by simp
qed

locale wide_counter =
  fixes rd_hi rd_lo :: "machine \<Rightarrow> u32 \<times> machine"
    and count :: "event list \<Rightarrow> nat"
    and live :: "machine \<Rightarrow> bool"
  assumes live_logged: "live s \<Longrightarrow> live (logged es s)"
    and read_hi: "\<exists>e. \<not> is_store e \<and> snd (rd_hi s) = logged [e] s"
    and read_lo: "\<exists>e. \<not> is_store e \<and> snd (rd_lo s) = logged [e] s"
    and hi_value: "live s \<Longrightarrow> fst (rd_hi s) = of_nat (count (hist s) div 2 ^ 32)"
    and lo_value: "live s \<Longrightarrow> fst (rd_lo s) = of_nat (count (hist s))"
    and count_mono: "live s \<Longrightarrow> count (hist s) \<le> count (hist s @ es)"
    and count_bounded: "live s \<Longrightarrow> count (hist s) < 2 ^ 64"
begin

text \<open>If the high half is the same before and after, it did not change in between.\<close>

lemma unbroken_round:
  assumes "live s" "rd_hi s = (hi, s1)" "rd_lo s1 = (lo, s2)" "rd_hi s2 = (hi, s3)"
  shows "unat (ucast lo OR push_bit 32 (ucast hi) :: u64) = count (hist s1)"
proof -
  obtain e1 e2 where s: "s1 = logged [e1] s" "s2 = logged [e2] s1"
    using read_hi[of s] read_lo[of s1] assms by auto
  let ?c0 = "count (hist s)" and ?c1 = "count (hist s1)" and ?c2 = "count (hist s2)"
  have live: "live s1" "live s2" using assms(1) s by (auto intro: live_logged)
  have le: "?c0 \<le> ?c1" "?c1 \<le> ?c2" "?c2 < 2 ^ 64"
    using count_mono[OF assms(1)] count_mono[OF live(1)] count_bounded[OF live(2)] s by simp_all
  have hi: "hi = of_nat (?c0 div 2 ^ 32)" "hi = of_nat (?c2 div 2 ^ 32)" and lo: "lo = of_nat ?c1"
    using hi_value[OF assms(1)] hi_value[OF live(2)] lo_value[OF live(1)] assms by simp_all
  have "?c0 div 2 ^ 32 \<le> ?c2 div 2 ^ 32" "?c2 div 2 ^ 32 < 2 ^ 32" using le by (auto intro: div_le_mono)
  then have "unat (of_nat (?c0 div 2 ^ 32) :: u32) = ?c0 div 2 ^ 32"
    "unat (of_nat (?c2 div 2 ^ 32) :: u32) = ?c2 div 2 ^ 32"
    by (simp_all add: unat_of_nat)
  with hi have u: "unat hi = ?c0 div 2 ^ 32" "unat hi = ?c2 div 2 ^ 32" by metis+
  have "?c0 div 2 ^ 32 \<le> ?c1 div 2 ^ 32" "?c1 div 2 ^ 32 \<le> ?c2 div 2 ^ 32"
    using le(1,2) by (auto intro: div_le_mono)
  with u have h: "unat hi = ?c1 div 2 ^ 32" by simp
  have l: "unat lo = ?c1 mod 2 ^ 32" by (simp add: lo unat_of_nat)
  show ?thesis using wide_word_value[of lo hi] by (simp add: h l)
qed

lemma reads_extend: "\<exists>es. snd (rd_hi s) = logged es s" "\<exists>es. snd (rd_lo s) = logged es s"
  using read_hi[of s] read_lo[of s] by blast+

text \<open>A value that is returned is one the counter had during the call.\<close>

lemma value_between:
  assumes "live s" "wide_read rd_hi rd_lo s = Some (v, t)"
  shows "\<exists>h es es'. hist t = h @ es' \<and> h = hist s @ es \<and> unat v = count h"
proof -
  from wide_read_last_round[OF assms(2) reads_extend] obtain es hi lo s1 s2 where
    r: "rd_hi (logged es s) = (hi, s1)" "rd_lo s1 = (lo, s2)" "rd_hi s2 = (hi, t)"
      "v = ucast lo OR push_bit 32 (ucast hi)" by blast
  obtain e1 e2 e3 where "s1 = logged [e1] (logged es s)" "s2 = logged [e2] s1" "t = logged [e3] s2"
    using read_hi[of "logged es s"] read_lo[of s1] read_hi[of s2] r by auto
  moreover have "unat v = count (hist s1)"
    unfolding r(4) by (rule unbroken_round[OF live_logged[OF assms(1)] r(1-3)])
  ultimately show ?thesis
    by (intro exI[of _ "hist s1"] exI[of _ "es @ [e1]"] exI[of _ "[e2, e3]"]) simp
qed

text \<open>So the value lies between the counts at the start and at the end of the call.\<close>

lemma value_bounds:
  assumes "live s" "wide_read rd_hi rd_lo s = Some (v, t)"
  shows "count (hist s) \<le> unat v \<and> unat v \<le> count (hist t)"
proof -
  from value_between[OF assms] obtain h es es' where
    h: "hist t = h @ es'" "h = hist s @ es" "unat v = count h" by blast
  have "live (logged es s)" by (rule live_logged[OF assms(1)])
  from count_mono[OF this, of es'] count_mono[OF assms(1), of es] h show ?thesis by simp
qed

lemma round_events:
  obtains e1 e2 e3 where "snd (rd_hi s) = logged [e1] s"
    "snd (rd_lo (logged [e1] s)) = logged [e2] (logged [e1] s)"
    "snd (rd_hi (logged [e1, e2] s)) = logged [e1, e2, e3] s"
    "stores [e1, e2, e3] = []"
proof -
  obtain e1 where 1: "\<not> is_store e1" "snd (rd_hi s) = logged [e1] s" using read_hi by blast
  obtain e2 where 2: "\<not> is_store e2" "snd (rd_lo (logged [e1] s)) = logged [e2] (logged [e1] s)"
    using read_lo by blast
  obtain e3 where 3: "\<not> is_store e3" "snd (rd_hi (logged [e1, e2] s)) = logged [e3] (logged [e1, e2] s)"
    using read_hi by blast
  from 3(2) have "snd (rd_hi (logged [e1, e2] s)) = logged [e1, e2, e3] s" by simp
  with 1 2 3(1) show ?thesis by (intro that[of e1 e2 e3]) simp_all
qed

end

text \<open>A counter that cannot overflow its low half twice within the six reads of two rounds.\<close>

locale slow_counter = wide_counter +
  assumes slow: "live s \<Longrightarrow> length es \<le> 6 \<Longrightarrow> count (hist s @ es) < count (hist s) + 2 ^ 32"
begin

lemma one_carry:
  assumes "c5 < c0 + 2 ^ 32" "c0 \<le> c2" "c2 \<le> c3" "c3 \<le> (c5 :: nat)"
  shows "c0 div 2 ^ 32 = c2 div 2 ^ 32 \<or> c3 div 2 ^ 32 = c5 div 2 ^ 32"
proof -
  have "c0 div 2 ^ 32 \<le> c2 div 2 ^ 32" "c2 div 2 ^ 32 \<le> c3 div 2 ^ 32" "c3 div 2 ^ 32 \<le> c5 div 2 ^ 32"
    "c5 div 2 ^ 32 \<le> (c0 + 2 ^ 32) div 2 ^ 32"
    using assms by (auto intro: div_le_mono)
  moreover have "(c0 + 2 ^ 32) div 2 ^ 32 = c0 div 2 ^ 32 + 1" by simp
  ultimately show ?thesis by linarith
qed

text \<open>Then the second round succeeds when the first one does not.\<close>

lemma terminates:
  assumes "live s"
  shows "\<exists>v es. wide_read rd_hi rd_lo s = Some (v, logged es s) \<and> stores es = [] \<and> length es \<le> 6"
proof -
  obtain e1 e2 e3 where
    r: "snd (rd_hi s) = logged [e1] s" "snd (rd_lo (logged [e1] s)) = logged [e2] (logged [e1] s)"
      "snd (rd_hi (logged [e1, e2] s)) = logged [e1, e2, e3] s" and st: "stores [e1, e2, e3] = []"
    by (rule round_events)
  let ?s3 = "logged [e1, e2, e3] s"
  obtain f1 f2 f3 where
    q: "snd (rd_hi ?s3) = logged [f1] ?s3" "snd (rd_lo (logged [f1] ?s3)) = logged [f2] (logged [f1] ?s3)"
      "snd (rd_hi (logged [f1, f2] ?s3)) = logged [f1, f2, f3] ?s3" and st': "stores [f1, f2, f3] = []"
    by (rule round_events)
  define c where "c n = count (hist s @ take n [e1, e2, e3, f1, f2, f3])" for n
  have live: "live (logged es s)" for es by (rule live_logged[OF assms])
  have mono: "c i \<le> c j" if "i \<le> j" for i j
  proof -
    let ?xs = "[e1, e2, e3, f1, f2, f3]"
    have "take j ?xs = take i ?xs @ take (j - i) (drop i ?xs)"
      using that by (metis le_add_diff_inverse take_add)
    then show ?thesis
      unfolding c_def using count_mono[OF live, of "take i ?xs" "take (j - i) (drop i ?xs)"] by simp
  qed
  have hi: "fst (rd_hi s) = of_nat (c 0 div 2 ^ 32)" "fst (rd_hi (logged [e1, e2] s)) = of_nat (c 2 div 2 ^ 32)"
    "fst (rd_hi ?s3) = of_nat (c 3 div 2 ^ 32)"
    "fst (rd_hi (logged [e1, e2, e3, f1, f2] s)) = of_nat (c 5 div 2 ^ 32)"
    using hi_value[OF live, of "[]"] hi_value[OF live, of "[e1, e2]"] hi_value[OF live, of "[e1, e2, e3]"]
      hi_value[OF live, of "[e1, e2, e3, f1, f2]"] by (simp_all add: c_def)
  have "c 5 < c 0 + 2 ^ 32" using slow[OF assms, of "take 5 [e1, e2, e3, f1, f2, f3]"] by (simp add: c_def)
  moreover have "c 0 \<le> c 2" "c 2 \<le> c 3" "c 3 \<le> c 5" by (simp_all add: mono)
  ultimately have one: "c 0 div 2 ^ 32 = c 2 div 2 ^ 32 \<or> c 3 div 2 ^ 32 = c 5 div 2 ^ 32"
    by (rule one_carry)
  show ?thesis
  proof (cases "fst (rd_hi s) = fst (rd_hi (logged [e1, e2] s))")
    case True
    with r have "wide_read rd_hi rd_lo s = Some
        (ucast (fst (rd_lo (logged [e1] s))) OR push_bit 32 (ucast (fst (rd_hi s))), logged [e1, e2, e3] s)"
      by (subst wide_read.simps) (simp add: prod.case_eq_if Let_def)
    then show ?thesis using st by (intro exI[of _ "_"] exI[of _ "[e1, e2, e3]"]) auto
  next
    case False
    with one have "fst (rd_hi ?s3) = fst (rd_hi (logged [f1, f2] ?s3))" by (auto simp: hi)
    with q have "wide_read rd_hi rd_lo ?s3 = Some
        (ucast (fst (rd_lo (logged [f1] ?s3))) OR push_bit 32 (ucast (fst (rd_hi ?s3))), logged [f1, f2, f3] ?s3)"
      by (subst wide_read.simps) (simp add: prod.case_eq_if Let_def)
    moreover have "wide_read rd_hi rd_lo s = wide_read rd_hi rd_lo ?s3"
      using False r by (subst wide_read.simps) (simp add: prod.case_eq_if Let_def)
    moreover have "stores [e1, e2, e3, f1, f2, f3] = []"
      using st st' stores_simps(3)[of "[e1, e2, e3]" "[f1, f2, f3]"] by (simp del: stores_simps(1,2))
    ultimately show ?thesis
      by (intro exI[of _ "_"] exI[of _ "[e1, e2, e3, f1, f2, f3]"]) (simp del: stores_simps)
  qed
qed

end

end
