(* ===== verification/Prci.thy ===== *)
theory Prci
  imports Counter
begin

unbundle bit_operations_syntax

text \<open>
  The clock driver (\<open>drivers/fe300prci/fe300prci_driver.c\<close>): measuring the core frequency against the
  timer, switching between the internal oscillator (HFROSC) and the PLL, and trimming the
  oscillator. A loop on a device register that never gets ready is \<open>None\<close>, as is a division
  by zero. \<open>RTC_FREQ\<close>, which no header of the repository defines, is a parameter.
\<close>

section \<open>Measuring\<close>

definition rdmcycle :: "env \<Rightarrow> machine \<Rightarrow> (u64 \<times> machine) option" where
  "rdmcycle E = wide_read (read_csr E Mcycleh) (read_csr E Mcycle)"

text \<open>
  \<open>while (end_mtime < start_mtime)\<close> reads the timer again until the end of the interval does not wrap,
  \<open>do \<dots> while (start_mtime == tmp)\<close> waits for the next tick.
\<close>

definition PRCI_measure_mcycle_freq :: "env \<Rightarrow> u32 \<Rightarrow> u32 \<Rightarrow> machine \<Rightarrow> (u32 \<times> machine) option" where
  "PRCI_measure_mcycle_freq E mtime_ticks mtime_freq s =
     do { (start_mtime, s) \<leftarrow> poll E (\<lambda>x. x + mtime_ticks + 1 < x) MTIME s;
          let end_mtime = start_mtime + mtime_ticks + 1;
          let tmp = start_mtime;
          (start_mtime, s) \<leftarrow> poll E (\<lambda>x. x = tmp) MTIME s;
          (start_mcycle, s) \<leftarrow> rdmcycle E s;
          (_, s) \<leftarrow> poll E (\<lambda>x. x < end_mtime) MTIME s;
          (end_mcycle, s) \<leftarrow> rdmcycle E s;
          let difference = (ucast (end_mcycle - start_mcycle) :: u32);
          if mtime_ticks = 0 then None
          else do {
            let freq = (ucast difference * ucast mtime_freq) div (ucast mtime_ticks :: u64);
            Some (ucast freq AND 0xFFFFFFFF, s) } }"

section \<open>Switching clocks\<close>

text \<open>The signed arguments are words; \<open>x >= 0\<close> is the sign test.\<close>

definition PRCI_use_hfrosc :: "env \<Rightarrow> u32 \<Rightarrow> u32 \<Rightarrow> machine \<Rightarrow> machine option" where
  "PRCI_use_hfrosc E dv trim s =
     do { let s = st32 HFROSCCFG (ROSC_DIV dv OR ROSC_TRIM trim OR ROSC_EN 1) s;
          (_, s) \<leftarrow> poll E (\<lambda>x. x AND ROSC_RDY 1 = 0) HFROSCCFG s;
          Some (reg_and E PLLCFG (NOT (PLL_SEL 1)) s) }"

text \<open>Programming the PLL and waiting for its lock, and selecting it.\<close>

definition program_pll :: "env \<Rightarrow> u32 \<Rightarrow> machine \<Rightarrow> machine option" where
  "program_pll E config_value s =
     do { let s = st32 PLLCFG config_value s;
          let s = reg_and E PLLCFG (NOT (PLL_BYPASS 1)) s;
          let (now, s) = ld32 E MTIME s;
          (_, s) \<leftarrow> poll E (\<lambda>x. x - now < 4) MTIME s;
          (_, s) \<leftarrow> poll E (\<lambda>x. x AND PLL_LOCK 1 = 0) PLLCFG s;
          Some s }"

definition select_pll :: "env \<Rightarrow> u32 \<Rightarrow> machine \<Rightarrow> machine" where
  "select_pll E refsel s =
     (let s = reg_or E PLLCFG (PLL_SEL 1) s
      in if refsel \<noteq> 0 then reg_and E HFROSCCFG (NOT (ROSC_EN 1)) s else s)"

definition PRCI_use_pll ::
  "env \<Rightarrow> u32 \<Rightarrow> u32 \<Rightarrow> u32 \<Rightarrow> u32 \<Rightarrow> u32 \<Rightarrow> u32 \<Rightarrow> u32 \<Rightarrow> u32 \<Rightarrow> machine \<Rightarrow> machine option" where
  "PRCI_use_pll E refsel bypass r f q finaldiv hfroscdiv hfrosctrim s =
     do { let (cfg, s) = ld32 E PLLCFG s;
          s \<leftarrow> (if cfg AND PLL_SEL 1 \<noteq> 0 then PRCI_use_hfrosc E 4 16 s else Some s);
          let config_value = 0;
          let config_value = config_value OR PLL_REFSEL refsel;
          s \<leftarrow> (if bypass \<noteq> 0 then do {
                  let config_value = config_value OR PLL_BYPASS 1;
                  let s = st32 PLLCFG config_value s;
                  Some (st32 PLLDIV (PLL_FINAL_DIV_BY_1 1 OR PLL_FINAL_DIV 0) s) }
               else do {
                  s \<leftarrow> (if 0 \<le> sint hfrosctrim \<and> 0 \<le> sint hfroscdiv
                       then PRCI_use_hfrosc E hfroscdiv hfrosctrim s else Some s);
                  let config_value = config_value OR PLL_BYPASS 1;
                  let config_value = config_value OR PLL_R r;
                  let config_value = config_value OR PLL_F f;
                  let config_value = config_value OR PLL_Q q;
                  let s = (if finaldiv = 1 then st32 PLLDIV (PLL_FINAL_DIV_BY_1 1 OR PLL_FINAL_DIV 0) s
                           else st32 PLLDIV (PLL_FINAL_DIV (finaldiv - 1)) s);
                  program_pll E config_value s });
          Some (select_pll E refsel s) }"

definition PRCI_use_default_clocks :: "env \<Rightarrow> machine \<Rightarrow> machine option" where
  "PRCI_use_default_clocks E s =
     do { let s = reg_and E (AON_REG AON_LFROSC) (NOT (ROSC_EN 1)) s;
          PRCI_use_hfrosc E 4 16 s }"

definition PRCI_use_hfxosc :: "env \<Rightarrow> u32 \<Rightarrow> machine \<Rightarrow> machine option" where
  "PRCI_use_hfxosc E finaldiv s = PRCI_use_pll E 1 1 0 0 0 finaldiv (- 1) (- 1) s"

section \<open>Trimming\<close>

datatype PRCI_freq_target = PRCI_FREQ_OVERSHOOT | PRCI_FREQ_CLOSEST | PRCI_FREQ_UNDERSHOOT

text \<open>The loop state is \<open>(freq, hfrosctrim, prev_trim, prev_freq)\<close>.\<close>

function trim_loop ::
  "env \<Rightarrow> u32 \<Rightarrow> u32 \<Rightarrow> u32 \<Rightarrow> u32 \<Rightarrow> u32 \<Rightarrow> u32 \<Rightarrow> u32 \<Rightarrow> machine
     \<Rightarrow> ((u32 \<times> u32 \<times> u32 \<times> u32) \<times> machine) option" where
  "trim_loop E rtc_freq desired hfroscdiv freq hfrosctrim prev_trim prev_freq s =
     (if freq < desired \<and> hfrosctrim < 0x1F then
        do { let prev_trim = hfrosctrim;
             let prev_freq = freq;
             let hfrosctrim = hfrosctrim + 1;
             s \<leftarrow> PRCI_use_hfrosc E hfroscdiv hfrosctrim s;
             (freq, s) \<leftarrow> PRCI_measure_mcycle_freq E 3000 rtc_freq s;
             trim_loop E rtc_freq desired hfroscdiv freq hfrosctrim prev_trim prev_freq s }
      else Some ((freq, hfrosctrim, prev_trim, prev_freq), s))"
  by pat_completeness auto
termination
  by (relation "measure (\<lambda>(E, rtc, d, dv, c, trim, pt, pf, s). 0x1F - unat trim)")
    (auto simp: word_less_add_one_unat[where q = "0x1F"] word_less_nat_alt)

declare trim_loop.simps [simp del]

definition PRCI_set_hfrosctrim_for_f_cpu ::
  "env \<Rightarrow> u32 \<Rightarrow> u32 \<Rightarrow> PRCI_freq_target \<Rightarrow> machine \<Rightarrow> (u32 \<times> machine) option" where
  "PRCI_set_hfrosctrim_for_f_cpu E rtc_freq f_cpu target s =
     do { let hfrosctrim = 0;
          let hfroscdiv = 4;
          let prev_trim = 0;
          let desired_hfrosc_freq = f_cpu div 16;
          s \<leftarrow> PRCI_use_hfrosc E hfroscdiv hfrosctrim s;
          (cpu_freq, s) \<leftarrow> PRCI_measure_mcycle_freq E 3000 rtc_freq s;
          (cpu_freq, s) \<leftarrow> PRCI_measure_mcycle_freq E 3000 rtc_freq s;
          let prev_freq = cpu_freq;
          ((cpu_freq, hfrosctrim, prev_trim, prev_freq), s) \<leftarrow>
             trim_loop E rtc_freq desired_hfrosc_freq hfroscdiv cpu_freq hfrosctrim prev_trim prev_freq s;
          let pll = (\<lambda>trim s. PRCI_use_pll E 0 0 1 31 1 1 hfroscdiv trim s);
          if prev_freq > desired_hfrosc_freq then
            do { s \<leftarrow> pll prev_trim s; PRCI_measure_mcycle_freq E 1000 rtc_freq s }
          else if cpu_freq < desired_hfrosc_freq then
            do { s \<leftarrow> pll prev_trim s; PRCI_measure_mcycle_freq E 1000 rtc_freq s }
          else
            do { s \<leftarrow> (case target of
                   PRCI_FREQ_CLOSEST \<Rightarrow>
                     if desired_hfrosc_freq - prev_freq < cpu_freq - desired_hfrosc_freq
                     then pll prev_trim s else pll hfrosctrim s
                 | PRCI_FREQ_UNDERSHOOT \<Rightarrow> pll prev_trim s
                 | PRCI_FREQ_OVERSHOOT \<Rightarrow> pll hfrosctrim s);
                 PRCI_measure_mcycle_freq E 1000 rtc_freq s } }"

section \<open>Clock safety\<close>

text \<open>
  What \<open>safely\<close> means in the comments of \<open>fe300prci_driver.h\<close>: an automaton over the accesses
  that stops (\<open>None\<close>) when the clock the core runs on is turned off or reprogrammed. It keeps the PLL
  configuration last written, whether the PLL has reported lock since, and whether the HFROSC
  is on and has reported ready since it was last set.
\<close>

record clk =
  pllcfg :: u32
  locked :: bool
  hfrosc_on :: bool
  hfrosc_ready :: bool

definition running_pll :: "clk \<Rightarrow> bool" where
  "running_pll k = bit (pllcfg k) 16"

definition from_xtal :: "clk \<Rightarrow> bool" where
  "from_xtal k = bit (pllcfg k) 17"

definition bypassed :: "clk \<Rightarrow> bool" where
  "bypassed k = bit (pllcfg k) 18"

fun clk_step :: "event \<Rightarrow> clk \<Rightarrow> clk option" where
  "clk_step (WrW a v) k =
     (if a = PLLCFG then
        (if running_pll k \<and> bit v 16 then None
         else if running_pll k \<and> \<not> (hfrosc_on k \<and> hfrosc_ready k) then None
         else if \<not> running_pll k \<and> bit v 16
                 \<and> \<not> ((bypassed k \<or> locked k) \<and> bit v 17 = from_xtal k \<and> bit v 18 = bypassed k) then None
         else Some (k\<lparr>pllcfg := v, locked := False\<rparr>))
      else if a = PLLDIV then (if running_pll k then None else Some k)
      else if a = HFROSCCFG then
        (if \<not> bit v 30 \<and> \<not> (running_pll k \<and> from_xtal k) then None
         else Some (k\<lparr>hfrosc_on := bit v 30, hfrosc_ready := False\<rparr>))
      else Some k)"
| "clk_step (RdW a v) k =
     Some (if a = PLLCFG then k\<lparr>locked := locked k \<or> bit v 31\<rparr>
           else if a = HFROSCCFG then k\<lparr>hfrosc_ready := hfrosc_ready k \<or> bit v 31\<rparr>
           else k)"
| "clk_step _ k = Some k"

text \<open>The call's accesses take the automaton from \<open>k\<close> to \<open>k'\<close> without a violation.\<close>

definition safely :: "clk \<Rightarrow> machine \<Rightarrow> clk \<Rightarrow> machine \<Rightarrow> bool" where
  "safely k s k' t \<longleftrightarrow> (\<exists>es. t = logged es s \<and> run_all clk_step es k = Some k')"

text \<open>The PLL configuration register reads back the select, source and bypass bits it was given.\<close>

definition pll_hw :: "env \<Rightarrow> u32 \<Rightarrow> bool" where
  "pll_hw E cfg0 \<longleftrightarrow> (\<forall>h. \<forall>n\<in>{16, 17, 18}.
     bit (E h (LdW PLLCFG)) n = bit (last (cfg0 # word_writes PLLCFG h)) n)"

definition tracks :: "env \<Rightarrow> u32 \<Rightarrow> machine \<Rightarrow> clk \<Rightarrow> bool" where
  "tracks E cfg0 s k \<longleftrightarrow> pll_hw E cfg0 \<and> pllcfg k = last (cfg0 # word_writes PLLCFG (hist s))"

lemma clk_regs_differ [simp]:
  "PLLCFG \<noteq> PLLDIV" "PLLDIV \<noteq> PLLCFG" "PLLCFG \<noteq> HFROSCCFG" "HFROSCCFG \<noteq> PLLCFG" "PLLDIV \<noteq> HFROSCCFG"
  "HFROSCCFG \<noteq> PLLDIV" "MTIME \<noteq> PLLCFG" "MTIME \<noteq> HFROSCCFG" "MTIME \<noteq> PLLDIV"
  by (simp_all add: reg_simps)

lemma clk_step_pllcfg: "clk_step e k = Some k' \<Longrightarrow> pllcfg k' = last (pllcfg k # word_writes PLLCFG [e])"
  by (cases e) (auto split: if_splits)

lemma last_chain: "last (x # xs @ ys) = last (last (x # xs) # ys)"
  by (simp add: last_append)

lemma clk_run_pllcfg:
  "run_all clk_step es k = Some k' \<Longrightarrow> pllcfg k' = last (pllcfg k # word_writes PLLCFG es)"
proof (induction es arbitrary: k)
  case (Cons e es)
  then obtain k1 where "clk_step e k = Some k1" "run_all clk_step es k1 = Some k'"
    by (auto simp: bind_Some_iff)
  moreover have "word_writes PLLCFG (e # es) = word_writes PLLCFG [e] @ word_writes PLLCFG es"
    using word_writes_append[of PLLCFG "[e]" es] by simp
  ultimately show ?case
    using Cons.IH[of k1] clk_step_pllcfg[of e k k1] by (simp only: last_chain)
qed simp

lemma safely_refl: "safely k s k s"
  unfolding safely_def by (rule exI[of _ "[]"]) simp

lemma safely_trans [trans]: "safely k s k' t \<Longrightarrow> safely k' t k'' u \<Longrightarrow> safely k s k'' u"
proof -
  assume "safely k s k' t" "safely k' t k'' u"
  then obtain es fs where "t = logged es s" "run_all clk_step es k = Some k'"
    "u = logged fs t" "run_all clk_step fs k' = Some k''"
    unfolding safely_def by blast
  then show ?thesis
    unfolding safely_def by (intro exI[of _ "es @ fs"]) (simp add: run_all_append)
qed

lemma safely_tracks: "safely k s k' t \<Longrightarrow> tracks E cfg0 s k \<Longrightarrow> tracks E cfg0 t k'"
  unfolding safely_def tracks_def by (auto dest!: clk_run_pllcfg simp only: hist_logged word_writes_append last_chain)

lemma safely_st32: "clk_step (WrW a v) k = Some k' \<Longrightarrow> safely k s k' (st32 a v s)"
  unfolding safely_def st32_def by (rule exI[of _ "[WrW a v]"]) (auto split: if_splits)

lemma safely_ld32: "ld32 E a s = (v, t) \<Longrightarrow> clk_step (RdW a v) k = Some k' \<Longrightarrow> safely k s k' t"
  unfolding safely_def ld32_def by (auto intro!: exI[of _ "[RdW a v]"])

lemma tracks_read:
  assumes "tracks E cfg0 s k" "ld32 E PLLCFG s = (v, t)"
  shows "bit v 16 = running_pll k" "bit v 17 = from_xtal k" "bit v 18 = bypassed k"
proof -
  have "bit (E (hist s) (LdW PLLCFG)) n = bit (pllcfg k) n" if "n \<in> {16, 17, 18}" for n
    using assms(1) that unfolding tracks_def pll_hw_def by metis
  then show "bit v 16 = running_pll k" "bit v 17 = from_xtal k" "bit v 18 = bypassed k"
    using assms(2) by (simp_all add: ld32_def running_pll_def from_xtal_def bypassed_def)
qed

lemma clk_reads_other:
  "a \<noteq> PLLCFG \<Longrightarrow> a \<noteq> HFROSCCFG \<Longrightarrow> run_all clk_step (map (RdW a) vs) k = Some k"
  by (induction vs) simp_all

lemma clk_reads_hfrosc:
  "run_all clk_step (map (RdW HFROSCCFG) vs) k
     = Some (k\<lparr>hfrosc_ready := hfrosc_ready k \<or> (\<exists>v\<in>set vs. bit v 31)\<rparr>)"
  by (induction vs arbitrary: k) (auto simp: disj_ac)

lemma clk_reads_pllcfg:
  "run_all clk_step (map (RdW PLLCFG) vs) k
     = Some (k\<lparr>locked := locked k \<or> (\<exists>v\<in>set vs. bit v 31)\<rparr>)"
  by (induction vs arbitrary: k) (auto simp: disj_ac)

lemma poll_reads:
  assumes "poll E busy a s = Some (v, t)"
  shows "\<exists>vs. t = logged (map (RdW a) (vs @ [v])) s \<and> \<not> busy v"
  using assms by (auto simp: poll_Some_iff dest: polls_reads polls_not_busy)

lemma safely_poll_timer: "poll E busy MTIME s = Some (v, t) \<Longrightarrow> safely k s k t"
  unfolding safely_def using clk_reads_other[of MTIME] by (auto dest!: poll_reads)

text \<open>The one-bit fields, and the tests of them.\<close>

lemma flag_powers:
  "PLL_SEL 1 = 2 ^ 16" "PLL_BYPASS 1 = 2 ^ 18" "PLL_LOCK 1 = 2 ^ 31" "ROSC_RDY 1 = 2 ^ 31" "ROSC_EN 1 = 2 ^ 30"
  by (simp_all add: reg_simps)

lemma flag_bits [simp]:
  "bit (PLL_SEL 1) n \<longleftrightarrow> n = 16" "bit (PLL_BYPASS 1) n \<longleftrightarrow> n = 18" "bit (ROSC_EN 1) n \<longleftrightarrow> n = 30"
  unfolding flag_powers by (auto simp only: bit_exp_iff) simp_all

lemma flag_tests [simp]:
  "x AND PLL_SEL 1 = 0 \<longleftrightarrow> \<not> bit x 16" "x AND PLL_LOCK 1 = 0 \<longleftrightarrow> \<not> bit x 31"
  "x AND ROSC_RDY 1 = 0 \<longleftrightarrow> \<not> bit x 31"
  unfolding flag_powers by (simp_all only: and_exp_eq_0_iff_not_bit)

lemma mask_bits:
  "bit (x AND 0x2F :: u32) n \<Longrightarrow> n < 6" "bit (x AND 0x1F :: u32) n \<Longrightarrow> n < 5" "bit (x AND 0x3F :: u32) n \<Longrightarrow> n < 6"
  "bit (x AND 0x7 :: u32) n \<Longrightarrow> n < 3" "bit (x AND 0x3 :: u32) n \<Longrightarrow> n < 2" "bit (x AND 1 :: u32) n \<longleftrightarrow> n = 0 \<and> bit x 0"
proof -
  have "bit (x AND m :: u32) n \<Longrightarrow> m = take_bit k m \<Longrightarrow> n < k" for m k
    by (metis bit_and_iff bit_take_bit_iff)
  from this[of "0x2F" 6] this[of "0x1F" 5] this[of "0x3F" 6] this[of 7 3] this[of 3 2]
  show "bit (x AND 0x2F :: u32) n \<Longrightarrow> n < 6" "bit (x AND 0x1F :: u32) n \<Longrightarrow> n < 5"
    "bit (x AND 0x3F :: u32) n \<Longrightarrow> n < 6" "bit (x AND 0x7 :: u32) n \<Longrightarrow> n < 3" "bit (x AND 0x3 :: u32) n \<Longrightarrow> n < 2"
    by simp_all
  show "bit (x AND 1 :: u32) n \<longleftrightarrow> n = 0 \<and> bit x 0"
    by (auto simp: bit_and_iff bit_1_iff)
qed

lemma field_bits [simp]:
  "6 \<le> n \<Longrightarrow> \<not> bit (ROSC_DIV x) n" "21 \<le> n \<Longrightarrow> \<not> bit (ROSC_TRIM x) n"
  "3 \<le> n \<Longrightarrow> \<not> bit (PLL_R x) n" "10 \<le> n \<Longrightarrow> \<not> bit (PLL_F x) n" "12 \<le> n \<Longrightarrow> \<not> bit (PLL_Q x) n"
  "bit (PLL_REFSEL x) n \<longleftrightarrow> n = 17 \<and> bit x 0"
  unfolding ROSC_DIV_def ROSC_TRIM_def PLL_R_def PLL_F_def PLL_Q_def PLL_REFSEL_def bit_push_bit_iff
  by (auto dest: mask_bits(1-5) simp: mask_bits(6))

lemma safely_poll_ready:
  "poll E (\<lambda>x. x AND ROSC_RDY 1 = 0) HFROSCCFG s = Some (v, t) \<Longrightarrow> safely k s (k\<lparr>hfrosc_ready := True\<rparr>) t"
  unfolding safely_def
  by (drule poll_reads) (auto simp: clk_reads_hfrosc run_all_append)

lemma safely_poll_lock:
  "poll E (\<lambda>x. x AND PLL_LOCK 1 = 0) PLLCFG s = Some (v, t) \<Longrightarrow> safely k s (k\<lparr>locked := True\<rparr>) t"
  unfolding safely_def
  by (drule poll_reads) (auto simp: clk_reads_pllcfg run_all_append)

lemma safely_use_hfrosc:
  assumes "tracks E cfg0 s k" "PRCI_use_hfrosc E dv trim s = Some t"
  shows "\<exists>k'. safely k s k' t \<and> \<not> running_pll k'"
proof -
  let ?cfg = "ROSC_DIV dv OR ROSC_TRIM trim OR ROSC_EN 1"
  let ?s1 = "st32 HFROSCCFG ?cfg s" and ?k1 = "k\<lparr>hfrosc_on := True, hfrosc_ready := False\<rparr>"
  obtain v s2 where p: "poll E (\<lambda>x. x AND ROSC_RDY 1 = 0) HFROSCCFG ?s1 = Some (v, s2)"
    and t: "t = reg_and E PLLCFG (NOT (PLL_SEL 1)) s2"
    using assms(2) by (auto simp: PRCI_use_hfrosc_def bind_Some_iff)
  let ?k2 = "?k1\<lparr>hfrosc_ready := True\<rparr>"
  obtain w s3 where l: "ld32 E PLLCFG s2 = (w, s3)" by fastforce
  let ?k3 = "?k2\<lparr>locked := locked ?k2 \<or> bit w 31\<rparr>"
  let ?k4 = "?k3\<lparr>pllcfg := w AND NOT (PLL_SEL 1), locked := False\<rparr>"
  have "safely k s ?k1 ?s1" by (rule safely_st32) (simp add: bit_or_iff)
  also have "safely ?k1 ?s1 ?k2 s2" by (rule safely_poll_ready[OF p])
  also have "safely ?k2 s2 ?k3 s3" by (rule safely_ld32[OF l]) simp
  also have "safely ?k3 s3 ?k4 (st32 PLLCFG (w AND NOT (PLL_SEL 1)) s3)"
    by (rule safely_st32) (simp add: running_pll_def bit_and_iff bit_not_iff)
  finally show ?thesis
    unfolding t reg_and_def l by (auto simp: running_pll_def bit_and_iff bit_not_iff intro!: exI)
qed

lemma safely_to_hfrosc:
  assumes "tracks E cfg0 s k" "c \<or> \<not> running_pll k"
    and "(if c then PRCI_use_hfrosc E dv trim s else Some s) = Some t"
  obtains k' where "safely k s k' t" "tracks E cfg0 t k'" "\<not> running_pll k'"
proof (cases c)
  case True
  with assms safely_use_hfrosc[OF assms(1), of dv trim t] safely_tracks[OF _ assms(1)] that
  show ?thesis by auto
next
  case False
  with assms that safely_refl show ?thesis by auto
qed

text \<open>The last two accesses: selecting the PLL and, on the crystal, stopping the HFROSC.\<close>

lemma safely_select_pll:
  assumes "tracks E cfg0 s k" "\<not> running_pll k" "bypassed k \<or> locked k"
    and "refsel \<noteq> 0 \<longrightarrow> from_xtal k"
  shows "\<exists>k'. safely k s k' (select_pll E refsel s) \<and> running_pll k'"
proof -
  obtain w s1 where l: "ld32 E PLLCFG s = (w, s1)" by fastforce
  note r = tracks_read[OF assms(1) l]
  let ?k1 = "k\<lparr>locked := locked k \<or> bit w 31\<rparr>"
  let ?s2 = "st32 PLLCFG (w OR PLL_SEL 1) s1" and ?k2 = "?k1\<lparr>pllcfg := w OR PLL_SEL 1, locked := False\<rparr>"
  have "safely k s ?k1 s1" by (rule safely_ld32[OF l]) simp
  also have "safely ?k1 s1 ?k2 ?s2"
    using assms(2,3) r by (intro safely_st32)
      (auto simp: running_pll_def from_xtal_def bypassed_def bit_or_iff)
  finally have sel: "safely k s ?k2 ?s2" .
  have run: "running_pll ?k2" by (simp add: running_pll_def bit_or_iff)
  have xtal: "from_xtal ?k2" if "refsel \<noteq> 0"
    using that assms(4) r(2) by (simp add: from_xtal_def bit_or_iff)
  show ?thesis
  proof (cases "refsel = 0")
    case True
    with sel run show ?thesis by (auto simp: select_pll_def reg_or_def l)
  next
    case False
    obtain x s3 where h: "ld32 E HFROSCCFG ?s2 = (x, s3)" by fastforce
    let ?k3 = "?k2\<lparr>hfrosc_ready := hfrosc_ready ?k2 \<or> bit x 31\<rparr>"
    let ?k4 = "?k3\<lparr>hfrosc_on := False, hfrosc_ready := False\<rparr>"
    note sel
    also have "safely ?k2 ?s2 ?k3 s3" by (rule safely_ld32[OF h]) simp
    also have "safely ?k3 s3 ?k4 (st32 HFROSCCFG (x AND NOT (ROSC_EN 1)) s3)"
      using run xtal False by (intro safely_st32)
        (simp add: running_pll_def from_xtal_def bit_and_iff bit_not_iff)
    finally show ?thesis
      using False run by (auto simp: select_pll_def reg_or_def reg_and_def l h running_pll_def)
  qed
qed

lemma safely_bypass:
  assumes "\<not> running_pll k"
  shows "\<exists>k'. safely k s k' (st32 PLLDIV d (st32 PLLCFG (0 OR PLL_REFSEL refsel OR PLL_BYPASS 1) s))
    \<and> \<not> running_pll k' \<and> bypassed k' \<and> from_xtal k' = bit refsel 0"
proof -
  let ?v = "0 OR PLL_REFSEL refsel OR PLL_BYPASS 1"
  let ?k1 = "k\<lparr>pllcfg := ?v, locked := False\<rparr>"
  have k1: "\<not> running_pll ?k1" "bypassed ?k1" "from_xtal ?k1 = bit refsel 0"
    by (simp_all add: running_pll_def bypassed_def from_xtal_def bit_or_iff)
  have "safely k s ?k1 (st32 PLLCFG ?v s)"
    using assms by (intro safely_st32) (simp add: bit_or_iff)
  also have "safely ?k1 (st32 PLLCFG ?v s) ?k1 (st32 PLLDIV d (st32 PLLCFG ?v s))"
    using k1 by (intro safely_st32) simp
  finally show ?thesis using k1 by blast
qed

text \<open>Programming the PLL while it is not selected, and waiting for its lock.\<close>

lemma safely_program_pll:
  assumes "tracks E cfg0 s k" "\<not> running_pll k" "\<not> bit cfg 16"
    and "program_pll E cfg (st32 PLLDIV d s) = Some t"
  shows "\<exists>k'. safely k s k' t \<and> \<not> running_pll k' \<and> locked k' \<and> from_xtal k' = bit cfg 17"
proof -
  let ?s1 = "st32 PLLDIV d s" and ?s2 = "st32 PLLCFG cfg (st32 PLLDIV d s)"
  let ?k2 = "k\<lparr>pllcfg := cfg, locked := False\<rparr>"
  have "safely k s k ?s1" using assms(2) by (intro safely_st32) simp
  also have "safely k ?s1 ?k2 ?s2" using assms(2,3) by (intro safely_st32) simp
  finally have 2: "safely k s ?k2 ?s2" .
  obtain w s3 where l: "ld32 E PLLCFG ?s2 = (w, s3)" by fastforce
  have w: "\<not> bit w 16" "bit w 17 = bit cfg 17"
    using tracks_read[OF safely_tracks[OF 2 assms(1)] l] assms(3) by (simp_all add: running_pll_def from_xtal_def)
  let ?w = "w AND NOT (PLL_BYPASS 1)" and ?k3 = "?k2\<lparr>locked := bit w 31\<rparr>"
  let ?s4 = "st32 PLLCFG ?w s3" and ?k4 = "?k3\<lparr>pllcfg := ?w, locked := False\<rparr>"
  obtain now s5 where m: "ld32 E MTIME ?s4 = (now, s5)" by fastforce
  obtain x s6 y where p: "poll E (\<lambda>x. x - now < 4) MTIME s5 = Some (x, s6)"
    and q: "poll E (\<lambda>x. x AND PLL_LOCK 1 = 0) PLLCFG s6 = Some (y, t)"
    using assms(4) by (auto simp: program_pll_def Let_def reg_and_def l m bind_Some_iff)
  note 2
  also have "safely ?k2 ?s2 ?k3 s3" by (rule safely_ld32[OF l]) simp
  also have "safely ?k3 s3 ?k4 ?s4"
    using assms(3) w by (intro safely_st32) (simp add: running_pll_def bit_and_iff)
  also have "safely ?k4 ?s4 ?k4 s5" by (rule safely_ld32[OF m]) simp
  also have "safely ?k4 s5 ?k4 s6" by (rule safely_poll_timer[OF p])
  also have "safely ?k4 s6 (?k4\<lparr>locked := True\<rparr>) t" by (rule safely_poll_lock[OF q])
  finally have "safely k s (?k4\<lparr>locked := True\<rparr>) t" .
  moreover have "\<not> running_pll (?k4\<lparr>locked := True\<rparr>)" "locked (?k4\<lparr>locked := True\<rparr>)"
    "from_xtal (?k4\<lparr>locked := True\<rparr>) = bit cfg 17"
    using w by (simp_all add: running_pll_def from_xtal_def bit_and_iff bit_not_iff)
  ultimately show ?thesis by blast
qed

text \<open>All of \<open>PRCI_use_pll\<close> up to the selection of the PLL.\<close>

lemma use_pll_programmed:
  assumes "tracks E cfg0 s k"
    and "PRCI_use_pll E refsel bypass r f q finaldiv hfroscdiv hfrosctrim s = Some t"
  shows "\<exists>k' u. safely k s k' u \<and> tracks E cfg0 u k' \<and> \<not> running_pll k' \<and> (bypassed k' \<or> locked k')
    \<and> from_xtal k' = bit refsel 0
    \<and> t = select_pll E refsel u"
proof -
  obtain w s1 where l: "ld32 E PLLCFG s = (w, s1)" by fastforce
  let ?k1 = "k\<lparr>locked := locked k \<or> bit w 31\<rparr>"
  have 1: "safely k s ?k1 s1" by (rule safely_ld32[OF l]) simp
  note t1 = safely_tracks[OF 1 assms(1)] and w = tracks_read(1)[OF assms(1) l]
  let ?off = "\<lambda>k s. tracks E cfg0 s k \<and> \<not> running_pll k"
  obtain s2 where s2: "(if bit w 16 then PRCI_use_hfrosc E 4 16 s1 else Some s1) = Some s2"
    using assms(2) by (auto simp: PRCI_use_pll_def Let_def l bind_Some_iff split: if_splits)
  have "bit w 16 \<or> \<not> running_pll ?k1" using w by (simp add: running_pll_def)
  from safely_to_hfrosc[OF t1 this s2] obtain k2 where 2: "safely ?k1 s1 k2 s2" "?off k2 s2" by blast
  have "\<exists>k3 s3. safely k2 s2 k3 s3 \<and> ?off k3 s3 \<and> (bypassed k3 \<or> locked k3) \<and> from_xtal k3 = bit refsel 0
    \<and> t = select_pll E refsel s3"
  proof (cases "bypass = 0")
    case False
    with assms(2) s2 have t: "t = select_pll E refsel
        (st32 PLLDIV (PLL_FINAL_DIV_BY_1 1 OR PLL_FINAL_DIV 0) (st32 PLLCFG (0 OR PLL_REFSEL refsel OR PLL_BYPASS 1) s2))"
      by (auto simp: PRCI_use_pll_def Let_def l)
    from safely_bypass[of k2 s2 "PLL_FINAL_DIV_BY_1 1 OR PLL_FINAL_DIV 0" refsel] 2(2)
    show ?thesis unfolding t by (blast dest: safely_tracks)
  next
    case True
    let ?d = "if finaldiv = 1 then PLL_FINAL_DIV_BY_1 1 OR PLL_FINAL_DIV 0 else PLL_FINAL_DIV (finaldiv - 1)"
    let ?cfg = "(((PLL_REFSEL refsel OR PLL_BYPASS 1) OR PLL_R r) OR PLL_F f) OR PLL_Q q"
    obtain s3 s4 where s3: "(if 0 \<le> sint hfrosctrim \<and> 0 \<le> sint hfroscdiv
          then PRCI_use_hfrosc E hfroscdiv hfrosctrim s2 else Some s2) = Some s3"
      and s4: "program_pll E ?cfg (st32 PLLDIV ?d s3) = Some s4"
      and t: "t = select_pll E refsel s4"
      using assms(2) s2 True
      by (cases "finaldiv = 1") (auto simp: PRCI_use_pll_def Let_def l bind_Some_iff)
    obtain k3 where 3: "safely k2 s2 k3 s3" "?off k3 s3"
      by (rule safely_to_hfrosc[OF _ _ s3, of cfg0 k2]) (use 2(2) in auto)
    have "\<not> bit ?cfg 16" "bit ?cfg 17 = bit refsel 0" by (simp_all add: bit_or_iff)
    with safely_program_pll[OF _ _ _ s4, of cfg0 k3] 3(2) obtain k4 where
      4: "safely k3 s3 k4 s4" "\<not> running_pll k4" "locked k4" "from_xtal k4 = bit refsel 0" by auto
    with 3 have "safely k2 s2 k4 s4" "tracks E cfg0 s4 k4" by (blast intro: safely_trans safely_tracks)+
    with 4 t show ?thesis by blast
  qed
  with 1 2(1) show ?thesis by (blast intro: safely_trans)
qed

text \<open>
  C1. \<open>PRCI_use_pll\<close> is safe in the sense of its header: whatever clock the core runs on before,
  it never reprograms the PLL while it runs on it, leaves it only for a ready HFROSC, selects
  the PLL only when it is locked or bypassed, and turns the HFROSC off only when the selected PLL
  does not run from it; afterwards the core runs on the PLL. The argument
  \<open>refsel\<close> is 0 or odd.
\<close>

theorem use_pll_never_glitches:
  assumes "tracks E cfg0 s k" "refsel \<noteq> 0 \<longrightarrow> bit refsel 0"
    and "PRCI_use_pll E refsel bypass r f q finaldiv hfroscdiv hfrosctrim s = Some t"
  shows "\<exists>k'. safely k s k' t \<and> running_pll k'"
proof -
  from use_pll_programmed[OF assms(1,3)] obtain k' u where
    u: "safely k s k' u" "tracks E cfg0 u k'" "\<not> running_pll k'" "bypassed k' \<or> locked k'"
      "from_xtal k' = bit refsel 0"
    and t: "t = select_pll E refsel u" by blast
  from safely_select_pll[OF u(2-4), of refsel] u(5) assms(2) obtain k'' where
    "safely k' u k'' t" "running_pll k''" unfolding t by blast
  with u(1) show ?thesis by (blast intro: safely_trans)
qed

text \<open>Registers that are ready at once, and a timer and cycle counter that advance at each access.\<close>

definition clock_env :: env where
  "clock_env h acc = (case acc of
       LdW a \<Rightarrow> if a = PLLCFG \<or> a = HFROSCCFG then last (0 # word_writes a h) OR 0x80000000
                else if a = MTIME then of_nat (length h) else 0
     | LdB a \<Rightarrow> 0
     | LdCsr c \<Rightarrow> if c = Mcycle then 100 * of_nat (length h) else 0)"

definition clk0 :: clk where
  "clk0 = \<lparr>pllcfg = 0, locked = False, hfrosc_on = True, hfrosc_ready = False\<rparr>"

lemma clock_env_tracks: "tracks clock_env 0 sample_machine clk0"
  by (auto simp: tracks_def pll_hw_def clock_env_def clk0_def sample_machine_def bit_or_iff)

theorem use_pll_never_glitches_witness:
  "\<exists>t k'. PRCI_use_pll clock_env 1 0 1 31 1 1 4 16 sample_machine = Some t
     \<and> safely clk0 sample_machine k' t \<and> running_pll k'"
proof -
  have "PRCI_use_pll clock_env 1 0 1 31 1 1 4 16 sample_machine \<noteq> None" by code_simp
  then obtain t where t: "PRCI_use_pll clock_env 1 0 1 31 1 1 4 16 sample_machine = Some t" by blast
  have "(1 :: u32) \<noteq> 0 \<longrightarrow> bit (1 :: u32) 0" by simp
  from use_pll_never_glitches[OF clock_env_tracks this t] t show ?thesis by blast
qed

text \<open>
  C25. With an even nonzero \<open>refsel\<close>, \<open>PRCI_use_pll\<close> turns off the clock the core runs on: the field
  macro takes bit 0 of \<open>refsel\<close>, so the PLL is set to run from the HFROSC, while the test
  \<open>if (refsel)\<close> switches the HFROSC off after the PLL has been selected. All accesses but the last
  are safe and leave the core on the PLL, with the HFROSC, not the crystal, as its source; the
  last one clears the HFROSC's enable bit, and is the access the automaton stops at.
\<close>

theorem even_refsel_stops_clock:
  assumes "tracks E cfg0 s k" "refsel \<noteq> 0" "\<not> bit refsel 0"
    and "PRCI_use_pll E refsel bypass r f q finaldiv hfroscdiv hfrosctrim s = Some t"
  shows "\<exists>es y k'. t = logged (es @ [WrW HFROSCCFG y]) s \<and> run_all clk_step es k = Some k'
    \<and> running_pll k' \<and> \<not> from_xtal k' \<and> \<not> bit y 30 \<and> clk_step (WrW HFROSCCFG y) k' = None"
proof -
  from use_pll_programmed[OF assms(1,4)] obtain k' u where
    u: "safely k s k' u" "tracks E cfg0 u k'" "\<not> running_pll k'" "bypassed k' \<or> locked k'"
      "from_xtal k' = bit refsel 0"
    and t: "t = select_pll E refsel u" by blast
  have "(0 :: u32) \<noteq> 0 \<longrightarrow> from_xtal k'" by simp
  from safely_select_pll[OF u(2-4) this] obtain k'' where
    sel: "safely k' u k'' (reg_or E PLLCFG (PLL_SEL 1) u)" "running_pll k''"
    by (auto simp: select_pll_def)
  have "tracks E cfg0 (reg_or E PLLCFG (PLL_SEL 1) u) k''" by (rule safely_tracks[OF sel(1) u(2)])
  obtain w u1 where l: "ld32 E PLLCFG u = (w, u1)" by fastforce
  have "pllcfg k'' = w OR PLL_SEL 1"
    using \<open>tracks E cfg0 (reg_or E PLLCFG (PLL_SEL 1) u) k''\<close> l
    by (auto simp: tracks_def reg_or_def st32_def ld32_def)
  then have x: "\<not> from_xtal k''"
    using tracks_read(2)[OF u(2) l] u(5) assms(3) by (simp add: from_xtal_def bit_or_iff)
  obtain es where es: "reg_or E PLLCFG (PLL_SEL 1) u = logged es s" "run_all clk_step es k = Some k''"
    using safely_trans[OF u(1) sel(1)] by (auto simp: safely_def)
  obtain y where y: "t = logged ((es @ [RdW HFROSCCFG y]) @ [WrW HFROSCCFG (y AND NOT (ROSC_EN 1))]) s"
    using assms(2) es(1) by (simp add: t select_pll_def reg_and_def ld32_def st32_def Let_def)
  let ?k = "k''\<lparr>hfrosc_ready := hfrosc_ready k'' \<or> bit y 31\<rparr>" and ?y = "y AND NOT (ROSC_EN 1)"
  have "run_all clk_step (es @ [RdW HFROSCCFG y]) k = Some ?k"
    using es(2) by (simp add: run_all_append)
  moreover have "\<not> bit ?y 30" by (simp add: bit_and_iff bit_not_iff)
  moreover have "running_pll ?k" "\<not> from_xtal ?k" using sel(2) x by (simp_all add: running_pll_def from_xtal_def)
  moreover from calculation have "clk_step (WrW HFROSCCFG ?y) ?k = None" by simp
  ultimately show ?thesis using y by blast
qed

theorem even_refsel_stops_clock_witness:
  "\<exists>es y k'. PRCI_use_pll clock_env 2 0 1 31 1 1 4 16 sample_machine
       = Some (logged (es @ [WrW HFROSCCFG y]) sample_machine)
     \<and> run_all clk_step es clk0 = Some k' \<and> running_pll k' \<and> \<not> from_xtal k' \<and> \<not> bit y 30
     \<and> clk_step (WrW HFROSCCFG y) k' = None"
proof -
  have "PRCI_use_pll clock_env 2 0 1 31 1 1 4 16 sample_machine \<noteq> None" by code_simp
  then obtain t where t: "PRCI_use_pll clock_env 2 0 1 31 1 1 4 16 sample_machine = Some t" by blast
  have "(2 :: u32) \<noteq> 0" "\<not> bit (2 :: u32) 0" by simp_all
  from even_refsel_stops_clock[OF clock_env_tracks this t] t show ?thesis by blast
qed

text \<open>
  \<open>PRCI_use_hfxosc\<close> does not apply its divider: for any two values of \<open>finaldiv\<close> it
  makes the same accesses, and the only store to the divider register is divide-by-1.
\<close>

theorem use_hfxosc_ignores_divider:
  "PRCI_use_hfxosc E d s = PRCI_use_hfxosc E d' s
   \<and> (\<forall>t. PRCI_use_hfxosc E d s = Some t
        \<longrightarrow> word_writes PLLDIV (hist t) = word_writes PLLDIV (hist s) @ [0x100])"
proof -
  have h: "word_writes PLLDIV (hist t) = word_writes PLLDIV (hist s)" if "PRCI_use_hfrosc E a b s = Some t" for a b s t
    using that by (auto simp: PRCI_use_hfrosc_def bind_Some_iff bus_defs Let_def dest!: poll_reads)
      (simp_all add: word_writes_no_stores)
  show ?thesis
    by (auto simp: PRCI_use_hfxosc_def PRCI_use_pll_def select_pll_def Let_def bus_defs bind_Some_iff h split: if_splits)
      (simp_all add: reg_simps)
qed

section \<open>Which clocks run\<close>

text \<open>
  The oscillator runs when the last store to its register enables it; it is enabled at reset. The
  PLL runs when its register was last set not to be bypassed, and its source runs: the crystal,
  which always does, or the oscillator.
\<close>

definition osc_on :: "event list \<Rightarrow> bool" where
  "osc_on h \<longleftrightarrow> bit (last (0x40000000 # word_writes HFROSCCFG h)) 30"

definition pll_on :: "event list \<Rightarrow> bool" where
  "pll_on h \<longleftrightarrow> word_writes PLLCFG h \<noteq> [] \<and> \<not> bit (last (word_writes PLLCFG h)) 18
     \<and> (bit (last (word_writes PLLCFG h)) 17 \<or> osc_on h)"

section \<open>Reading the cycle counter\<close>

text \<open>The two CSRs are the halves of a 64-bit counter that only moves forward.\<close>

definition cycle_hw :: "env \<Rightarrow> (event list \<Rightarrow> nat) \<Rightarrow> bool" where
  "cycle_hw E c \<longleftrightarrow> (\<forall>h. E h (LdCsr Mcycleh) = of_nat (c h div 2 ^ 32) \<and> E h (LdCsr Mcycle) = of_nat (c h)
     \<and> c h < 2 ^ 64 \<and> (\<forall>es. c h \<le> c (h @ es)) \<and> (\<forall>es. length es \<le> 6 \<longrightarrow> c (h @ es) < c h + 2 ^ 32))"

interpretation mcycle: slow_counter "read_csr E Mcycleh" "read_csr E Mcycle" c "\<lambda>s. cycle_hw E c" for E c
  by unfold_locales (auto simp: cycle_hw_def read_csr_def)

text \<open>
  \<open>rdmcycle\<close> always returns, and returns a value the 64-bit cycle counter had during the
  call, although it is read in two halves that may carry in between.
\<close>

theorem rdmcycle_consistent:
  assumes "cycle_hw E c"
  shows "\<exists>v es. rdmcycle E s = Some (v, logged es s) \<and> stores es = []
    \<and> c (hist s) \<le> unat v \<and> unat v \<le> c (hist s @ es)"
proof -
  obtain v es where r: "wide_read (read_csr E Mcycleh) (read_csr E Mcycle) s = Some (v, logged es s)"
    "stores es = []" using mcycle.terminates[OF assms] by blast
  with mcycle.value_bounds[OF assms r(1)] show ?thesis by (auto simp: rdmcycle_def)
qed

lemma rdmcycle_returns: "cycle_hw E c \<Longrightarrow> \<exists>v t. rdmcycle E s = Some (v, t)"
  using mcycle.terminates[of E c s] by (auto simp: rdmcycle_def)

definition cycles :: "event list \<Rightarrow> nat" where
  "cycles h = min (0xFFFFFFF0 + 10 * length h) (2 ^ 64 - 1)"

text \<open>Registers that read back what was stored, with the status bit 31 set while the clock they control runs.\<close>

definition ready_bit :: "bool \<Rightarrow> u32 \<Rightarrow> u32" where
  "ready_bit b v = (v AND 0x7FFFFFFF) OR (if b then 0x80000000 else 0)"

definition clock_reg :: "event list \<Rightarrow> u32 \<Rightarrow> u32" where
  "clock_reg h a =
     (if a = HFROSCCFG then ready_bit (osc_on h) (last (0x40000000 # word_writes HFROSCCFG h))
      else ready_bit (pll_on h) (last (0 # word_writes PLLCFG h)))"

definition cycle_env :: env where
  "cycle_env h acc = (case acc of
       LdW a \<Rightarrow> if a = MTIME then of_nat (length h)
                else if a = HFROSCCFG \<or> a = PLLCFG then clock_reg h a else 0xFFFFFFFF
     | LdB a \<Rightarrow> 0
     | LdCsr c \<Rightarrow> if c = Mcycleh then of_nat (cycles h div 2 ^ 32)
                 else if c = Mcycle then of_nat (cycles h) else 0)"

lemma cycle_env_hw: "cycle_hw cycle_env cycles"
  by (auto simp: cycle_hw_def cycle_env_def cycles_def)

theorem rdmcycle_consistent_witness:
  "\<exists>v es. rdmcycle cycle_env sample_machine = Some (v, logged es sample_machine)
     \<and> 0xFFFFFFF0 \<le> unat v"
  using rdmcycle_consistent[OF cycle_env_hw, of sample_machine]
  by (auto simp: cycles_def sample_machine_def)

section \<open>Liveness\<close>

text \<open>
  What the loops of the driver wait for. The timer runs: polled often enough, it leaves every
  stretch of \<open>k\<close> successive values, wherever it starts.
\<close>

definition timer_live :: "env \<Rightarrow> bool" where
  "timer_live E \<longleftrightarrow> (\<forall>n k. responsive E (\<lambda>x. x - n < k) MTIME)"

text \<open>An oscillator that runs becomes ready, and a PLL that runs locks; nothing is said of one that does not.\<close>

definition clocks_live :: "env \<Rightarrow> bool" where
  "clocks_live E \<longleftrightarrow> timer_live E
     \<and> (\<forall>h. osc_on h \<longrightarrow> (\<exists>es v. polls E (\<lambda>x. x AND ROSC_RDY 1 = 0) HFROSCCFG h es v))
     \<and> (\<forall>h. pll_on h \<longrightarrow> (\<exists>es v. polls E (\<lambda>x. x AND PLL_LOCK 1 = 0) PLLCFG h es v))"

text \<open>The core has a clock: it runs on the PLL, or the oscillator is on.\<close>

definition core_clocked :: "env \<Rightarrow> machine \<Rightarrow> bool" where
  "core_clocked E s \<longleftrightarrow> bit (E (hist s) (LdW PLLCFG)) 16 \<or> osc_on (hist s)"

lemma responsive_Some: "responsive E busy a \<Longrightarrow> \<exists>v t. poll E busy a s = Some (v, t)"
  by (erule responsive_poll) blast

lemma mod_add_less:
  assumes "a < n" "b < (n :: nat)"
  shows "(a + b) mod n < a \<longleftrightarrow> (a + b) mod n < b"
proof (cases "a + b < n")
  case False
  then have "(a + b) mod n = a + b - n" using assms by (simp add: mod_if)
  with False assms show ?thesis by auto
qed simp

lemma timer_polls:
  assumes "timer_live E"
  shows "\<exists>v t. poll E (\<lambda>x. x = n) MTIME s = Some (v, t)" "\<exists>v t. poll E (\<lambda>x. x < n) MTIME s = Some (v, t)"
    "\<exists>v t. poll E (\<lambda>x. x - n < k) MTIME s = Some (v, t)"
    "\<exists>v t. poll E (\<lambda>x. x + n + 1 < x) MTIME s = Some (v, t)"
proof -
  show stretch: "\<exists>v t. poll E (\<lambda>x. x - n < k) MTIME s = Some (v, t)" for n k
    using assms unfolding timer_live_def by (blast intro: responsive_Some)
  have "y < 1 \<longleftrightarrow> y = 0" for y :: u32 by (auto simp: word_less_nat_alt word_unat_eq_iff)
  then have "(\<lambda>x. x = n) = (\<lambda>x. x - n < 1)" by (simp add: fun_eq_iff)
  from stretch[of n 1, folded this] show "\<exists>v t. poll E (\<lambda>x. x = n) MTIME s = Some (v, t)" .
  show "\<exists>v t. poll E (\<lambda>x. x < n) MTIME s = Some (v, t)" using stretch[of 0 n] by simp
  have "x + m < x \<longleftrightarrow> x + m < m" for x m :: u32
    using unat_u32_less[of x] unat_u32_less[of m]
    unfolding word_less_nat_alt unat_word_ariths(1) by (simp add: mod_add_less)
  from this[of _ "n + 1"] have "(\<lambda>x. x + n + 1 < x) = (\<lambda>x. x - (- (n + 1)) < n + 1)"
    by (simp only: fun_eq_iff diff_minus_eq_add add.assoc simp_thms)
  from stretch[of "- (n + 1)" "n + 1", folded this]
  show "\<exists>v t. poll E (\<lambda>x. x + n + 1 < x) MTIME s = Some (v, t)" .
qed

lemma clock_polls:
  assumes "clocks_live E"
  shows "osc_on (hist s) \<Longrightarrow> \<exists>v t. poll E (\<lambda>x. x AND ROSC_RDY 1 = 0) HFROSCCFG s = Some (v, t)"
    "pll_on (hist s) \<Longrightarrow> \<exists>v t. poll E (\<lambda>x. x AND PLL_LOCK 1 = 0) PLLCFG s = Some (v, t)" "timer_live E"
  using assms unfolding clocks_live_def poll_Some_iff by blast+

text \<open>Whether the oscillator is on depends on the stores to its register alone.\<close>

lemma osc_on_other: "word_writes HFROSCCFG es = [] \<Longrightarrow> osc_on (h @ es) = osc_on h"
  by (simp add: osc_on_def)

lemma osc_on_store: "bit v 30 \<Longrightarrow> osc_on (h @ [WrW HFROSCCFG v])"
  by (simp add: osc_on_def)

lemma poll_osc_on:
  assumes "poll E busy a s = Some (v, t)"
  shows "osc_on (hist t) = osc_on (hist s)" "word_writes r (hist t) = word_writes r (hist s)"
  using poll_reads[OF assms] by (auto simp: osc_on_def word_writes_no_stores)

lemma reg_and_osc_on: "a \<noteq> HFROSCCFG \<Longrightarrow> osc_on (hist (reg_and E a m s)) = osc_on (hist s)"
  by (simp add: osc_on_def bus_defs Let_def)

text \<open>\<open>PRCI_use_hfrosc\<close> enables the oscillator it waits for, and leaves it on.\<close>

lemma use_hfrosc_returns:
  assumes "clocks_live E"
  shows "\<exists>t. PRCI_use_hfrosc E dv trim s = Some t \<and> osc_on (hist t)"
proof -
  let ?s1 = "st32 HFROSCCFG (ROSC_DIV dv OR ROSC_TRIM trim OR ROSC_EN 1) s"
  have on: "osc_on (hist ?s1)" by (simp add: st32_def osc_on_store bit_or_iff)
  from clock_polls(1)[OF assms on] obtain v t where
    p: "poll E (\<lambda>x. x AND ROSC_RDY 1 = 0) HFROSCCFG ?s1 = Some (v, t)" by blast
  moreover have "osc_on (hist (reg_and E PLLCFG (NOT (PLL_SEL 1)) t))"
    using on poll_osc_on(1)[OF p] by (simp add: reg_and_osc_on)
  ultimately show ?thesis by (simp add: PRCI_use_hfrosc_def Let_def del: flag_tests)
qed

lemma program_pll_returns:
  assumes "clocks_live E" "osc_on (hist s)"
  shows "\<exists>t. program_pll E cfg s = Some t"
proof -
  let ?s1 = "reg_and E PLLCFG (NOT (PLL_BYPASS 1)) (st32 PLLCFG cfg s)"
  obtain now s2 where l: "ld32 E MTIME ?s1 = (now, s2)" by fastforce
  obtain v s3 where p: "poll E (\<lambda>x. x - now < 4) MTIME s2 = Some (v, s3)"
    using timer_polls(3)[OF clock_polls(3)[OF assms(1)]] by blast
  have "pll_on (hist s2)"
    using l assms(2) by (auto simp: pll_on_def osc_on_def bus_defs Let_def bit_and_iff bit_not_iff)
  then have "pll_on (hist s3)" using poll_osc_on[OF p] by (simp add: pll_on_def)
  from clock_polls(2)[OF assms(1) this] obtain w s4
    where q: "poll E (\<lambda>x. x AND PLL_LOCK 1 = 0) PLLCFG s3 = Some (w, s4)" by blast
  show ?thesis using p q by (simp add: program_pll_def Let_def l del: flag_tests)
qed

lemma maybe_hfrosc_returns:
  "clocks_live E \<Longrightarrow> c \<or> osc_on (hist s) \<Longrightarrow>
     \<exists>t. (if c then PRCI_use_hfrosc E dv trim s else Some s) = Some t \<and> osc_on (hist t)"
  using use_hfrosc_returns by auto

lemma use_pll_returns_any:
  assumes "clocks_live E" "core_clocked E s"
  shows "\<exists>t. PRCI_use_pll E refsel bypass r f q finaldiv hfroscdiv hfrosctrim s = Some t"
proof -
  obtain w s1 where l: "ld32 E PLLCFG s = (w, s1)" by fastforce
  have "w AND PLL_SEL 1 \<noteq> 0 \<or> osc_on (hist s1)"
    using assms(2) l by (auto simp: core_clocked_def ld32_def osc_on_def)
  from maybe_hfrosc_returns[OF assms(1) this] obtain s2 where
    2: "(if w AND PLL_SEL 1 \<noteq> 0 then PRCI_use_hfrosc E 4 16 s1 else Some s1) = Some s2" "osc_on (hist s2)"
    by blast
  obtain s3 where 3: "(if 0 \<le> sint hfrosctrim \<and> 0 \<le> sint hfroscdiv
      then PRCI_use_hfrosc E hfroscdiv hfrosctrim s2 else Some s2) = Some s3" "osc_on (hist s3)"
    using maybe_hfrosc_returns[OF assms(1)] 2(2) by blast
  show ?thesis
  proof (cases "bypass = 0")
    case True
    let ?d = "if finaldiv = 1 then PLL_FINAL_DIV_BY_1 1 OR PLL_FINAL_DIV 0 else PLL_FINAL_DIV (finaldiv - 1)"
    have "osc_on (hist (st32 PLLDIV ?d s3))" using 3(2) by (simp add: st32_def osc_on_def)
    from program_pll_returns[OF assms(1) this] obtain s4 where
      "program_pll E ((((PLL_REFSEL refsel OR PLL_BYPASS 1) OR PLL_R r) OR PLL_F f) OR PLL_Q q) (st32 PLLDIV ?d s3)
        = Some s4" by blast
    with True show ?thesis
      by (cases "finaldiv = 1") (simp_all add: PRCI_use_pll_def Let_def l 2(1) 3(1) del: flag_tests)
  next
    case False
    then show ?thesis by (simp add: PRCI_use_pll_def Let_def l 2(1) del: flag_tests)
  qed
qed

text \<open>
  C16. \<open>PRCI_use_pll\<close> returns for all arguments, from every state in which the core has a clock
  (it runs on the PLL, or the oscillator is on), although the hardware answers only what was set
  up: the oscillator becomes ready only after it has been enabled, and the PLL locks only when it
  is not bypassed and its source, the crystal or the enabled oscillator, runs. The timer is only
  assumed to run. So every loop of the driver waits for something it has turned on before.
\<close>

theorem use_pll_returns:
  assumes "clocks_live E" "core_clocked E s"
  shows "\<exists>t. PRCI_use_pll E refsel bypass r f q finaldiv hfroscdiv hfrosctrim s = Some t"
  by (rule use_pll_returns_any[OF assms])

lemma measure_returns:
  assumes "timer_live E" "cycle_hw E c" "mtime_ticks \<noteq> 0"
  shows "\<exists>f t. PRCI_measure_mcycle_freq E mtime_ticks mtime_freq s = Some (f, t)"
proof -
  obtain m0 s0 where 0: "poll E (\<lambda>x. x + mtime_ticks + 1 < x) MTIME s = Some (m0, s0)"
    using timer_polls(4)[OF assms(1)] by blast
  obtain m1 s1 where 1: "poll E (\<lambda>x. x = m0) MTIME s0 = Some (m1, s1)"
    using timer_polls(1)[OF assms(1)] by blast
  obtain v1 s2 where 2: "rdmcycle E s1 = Some (v1, s2)" using rdmcycle_returns[OF assms(2)] by blast
  obtain m2 s3 where 3: "poll E (\<lambda>x. x < m0 + mtime_ticks + 1) MTIME s2 = Some (m2, s3)"
    using timer_polls(2)[OF assms(1)] by blast
  obtain v2 s4 where 4: "rdmcycle E s3 = Some (v2, s4)" using rdmcycle_returns[OF assms(2)] by blast
  show ?thesis using assms(3) by (simp add: PRCI_measure_mcycle_freq_def Let_def 0 1 2 3 4)
qed

text \<open>A timer that counts accesses is such a timer.\<close>

definition counting :: "env \<Rightarrow> u32 \<Rightarrow> bool" where
  "counting E a \<longleftrightarrow> (\<forall>h. E h (LdW a) = of_nat (length h))"

lemma counting_polls:
  assumes "counting E a" "\<not> busy (of_nat (length h) + of_nat n)"
  shows "\<exists>es v. polls E busy a h es v"
  using assms(2)
proof (induction n arbitrary: h)
  case 0
  then have "\<not> busy (E h (LdW a))" using assms(1) by (simp add: counting_def)
  then show ?case by (blast intro: polls.ready)
next
  case (Suc n)
  show ?case
  proof (cases "busy (E h (LdW a))")
    case True
    have "\<not> busy (of_nat (length (h @ [RdW a (E h (LdW a))])) + of_nat n)"
      using Suc.prems by (simp add: ac_simps)
    from Suc.IH[OF this] True show ?thesis by (blast intro: polls.again)
  next
    case False
    then show ?thesis by (blast intro: polls.ready)
  qed
qed

lemma counting_responsive:
  assumes "counting E a" "\<And>x. \<exists>d. \<not> busy (x + d)"
  shows "responsive E busy a"
  unfolding responsive_def
proof
  fix h :: "event list"
  obtain d where "\<not> busy (of_nat (length h) + d)" using assms(2) by blast
  then have "\<not> busy (of_nat (length h) + of_nat (unat d))" by simp
  then show "\<exists>es v. polls E busy a h es v" by (rule counting_polls[OF assms(1)])
qed

lemma counting_timer_live:
  assumes t: "counting E MTIME"
  shows "timer_live E"
  unfolding timer_live_def
proof (intro allI counting_responsive[OF t])
  fix n k x :: u32
  show "\<exists>d. \<not> x + d - n < k" by (rule exI[of _ "n - x + k"]) simp
qed

text \<open>So are registers that report the clocks as running when they run.\<close>

lemma bit_ready_bit: "bit (ready_bit b v) 31 = b"
proof -
  have "(0x80000000 :: u32) = 2 ^ 31" "(0x7FFFFFFF :: u32) = mask 31" by (simp_all add: mask_eq_exp_minus_1)
  then show ?thesis
    unfolding ready_bit_def bit_or_iff bit_and_iff
    by (simp only: bit_mask_iff) (cases b; simp only: if_True if_False bit_exp_iff bit_0_eq; simp)
qed

lemma clock_reg_live:
  assumes "counting E MTIME" "\<And>h a. a = HFROSCCFG \<or> a = PLLCFG \<Longrightarrow> E h (LdW a) = clock_reg h a"
  shows "clocks_live E"
proof -
  have "\<exists>es v. polls E (\<lambda>x. x AND ROSC_RDY 1 = 0) HFROSCCFG h es v" if "osc_on h" for h
    by (rule exI, rule exI, rule polls.ready) (simp add: assms(2) clock_reg_def bit_ready_bit that)
  moreover have "\<exists>es v. polls E (\<lambda>x. x AND PLL_LOCK 1 = 0) PLLCFG h es v" if "pll_on h" for h
    by (rule exI, rule exI, rule polls.ready) (simp add: assms(2) clock_reg_def bit_ready_bit that)
  ultimately show ?thesis
    using counting_timer_live[OF assms(1)] by (simp add: clocks_live_def)
qed

lemma cycle_env_live: "clocks_live cycle_env"
  by (rule clock_reg_live) (auto simp: counting_def cycle_env_def clk_regs_differ(7-9)[symmetric])

lemma reset_clocked: "core_clocked E sample_machine"
  by (simp add: core_clocked_def osc_on_def sample_machine_def)

theorem use_pll_returns_witness:
  "\<exists>t. PRCI_use_pll cycle_env 0 0 1 31 1 1 4 16 sample_machine = Some t"
  by (rule use_pll_returns[OF cycle_env_live reset_clocked])

section \<open>What is measured\<close>

lemma and_max_u32 [simp]: "(x :: u32) AND 0xFFFFFFFF = x"
proof -
  have "(0xFFFFFFFF :: u32) = - 1" by simp
  then show ?thesis by (simp only: and.right_neutral)
qed

lemma scaled_value:
  "ucast (ucast (d :: u32) * ucast (r :: u32) div (ucast (n :: u32) :: u64)) = (of_nat (unat d * unat r div unat n) :: u32)"
proof -
  have u: "unat (ucast x :: u64) = unat x" for x :: u32
    using unat_u32_less[of x] by (simp add: unsigned_ucast_eq take_bit_eq_mod)
  have "unat d * unat r < 2 ^ 64"
    using mult_strict_mono'[of "unat d" "2 ^ 32" "unat r" "2 ^ 32"] unat_u32_less[of d] unat_u32_less[of r]
    by simp
  then have "unat (ucast d * ucast r div (ucast n :: u64)) = unat d * unat r div unat n"
    by (simp add: unat_div unat_word_ariths u)
  moreover have "ucast x = (of_nat (unat x) :: u32)" for x :: u64 by simp
  ultimately show ?thesis by (simp only:)
qed

text \<open>
  The measured frequency is the number of core cycles (modulo \<open>2 ^ 32\<close>) between two points of
  the run, scaled by \<open>mtime_freq / mtime_ticks\<close>: the first after the timer has changed from
  a value \<open>m0\<close>, the second after it has reached \<open>m0 + mtime_ticks + 1\<close>, a sum that does not wrap.
  The 64-bit product does not overflow.
\<close>

theorem measure_counts_cycles:
  assumes "cycle_hw E c" "PRCI_measure_mcycle_freq E mtime_ticks mtime_freq s = Some (f, t)"
  shows "\<exists>h1 h2 m0 m1 m2 a1 a2 a3.
    f = of_nat ((c h2 - c h1) mod 2 ^ 32 * unat mtime_freq div unat mtime_ticks)
    \<and> h1 = hist s @ a1 \<and> h2 = h1 @ a2 \<and> hist t = h2 @ a3
    \<and> RdW MTIME m0 \<in> set a1 \<and> RdW MTIME m1 \<in> set a1 \<and> m1 \<noteq> m0
    \<and> RdW MTIME m2 \<in> set a2 \<and> m0 + mtime_ticks + 1 \<le> m2 \<and> m0 \<le> m0 + mtime_ticks + 1"
proof -
  obtain m0 s0 m1 s1 v1 s2 m2 s3 v2 where
    0: "poll E (\<lambda>x. x + mtime_ticks + 1 < x) MTIME s = Some (m0, s0)"
    and 1: "poll E (\<lambda>x. x = m0) MTIME s0 = Some (m1, s1)"
    and 2: "rdmcycle E s1 = Some (v1, s2)"
    and 3: "poll E (\<lambda>x. x < m0 + mtime_ticks + 1) MTIME s2 = Some (m2, s3)"
    and 4: "rdmcycle E s3 = Some (v2, t)" and nz: "mtime_ticks \<noteq> 0"
    and f: "f = ucast (ucast (ucast (v2 - v1) :: u32) * ucast mtime_freq div (ucast mtime_ticks :: u64))"
    using assms(2) by (auto simp: PRCI_measure_mcycle_freq_def Let_def bind_Some_iff split: if_splits)
  obtain e0 where p0: "s0 = logged (e0 @ [RdW MTIME m0]) s" "m0 \<le> m0 + mtime_ticks + 1"
    using poll_reads[OF 0] by auto
  obtain e1 where p1: "s1 = logged (e1 @ [RdW MTIME m1]) s0" "m1 \<noteq> m0" using poll_reads[OF 1] by auto
  obtain e3 where p3: "s3 = logged (e3 @ [RdW MTIME m2]) s2" "m0 + mtime_ticks + 1 \<le> m2"
    using poll_reads[OF 3] by auto
  obtain h1 b1 d1 where q1: "hist s2 = h1 @ d1" "h1 = hist s1 @ b1" "unat v1 = c h1"
    using mcycle.value_between[OF assms(1) 2[unfolded rdmcycle_def]] by blast
  obtain h2 b2 d2 where q2: "hist t = h2 @ d2" "h2 = hist s3 @ b2" "unat v2 = c h2"
    using mcycle.value_between[OF assms(1) 4[unfolded rdmcycle_def]] by blast
  have h2: "h2 = h1 @ (d1 @ e3 @ [RdW MTIME m2] @ b2)" using q1 q2 p3 by simp
  have "c h1 \<le> c h2" using assms(1) by (simp add: h2 cycle_hw_def)
  then have d: "unat (v2 - v1) = c h2 - c h1" using q1(3) q2(3) by (simp add: unat_sub word_le_nat_alt)
  have "unat (ucast (v2 - v1) :: u32) = (c h2 - c h1) mod 2 ^ 32"
    by (simp add: d[symmetric] unsigned_ucast_eq take_bit_eq_mod)
  then have f': "f = of_nat ((c h2 - c h1) mod 2 ^ 32 * unat mtime_freq div unat mtime_ticks)"
    unfolding f using scaled_value[of "ucast (v2 - v1)" mtime_freq mtime_ticks] by (simp only:)
  have h1: "h1 = hist s @ (e0 @ [RdW MTIME m0] @ e1 @ [RdW MTIME m1] @ b1)"
    using q1(2) p0 p1 by simp
  show ?thesis
    by (rule exI[of _ h1], rule exI[of _ h2], rule exI[of _ m0], rule exI[of _ m1], rule exI[of _ m2],
        rule exI[of _ "e0 @ [RdW MTIME m0] @ e1 @ [RdW MTIME m1] @ b1"],
        rule exI[of _ "d1 @ e3 @ [RdW MTIME m2] @ b2"], rule exI[of _ d2],
        intro conjI, rule f', rule h1, rule h2, rule q2(1))
      (simp_all add: p0(2) p1(2) p3(2))
qed

theorem measure_counts_cycles_witness:
  "\<exists>f t h1 h2. PRCI_measure_mcycle_freq cycle_env 5 32768 sample_machine = Some (f, t)
     \<and> f = of_nat ((cycles h2 - cycles h1) mod 2 ^ 32 * 32768 div 5)"
proof -
  obtain f t where r: "PRCI_measure_mcycle_freq cycle_env 5 32768 sample_machine = Some (f, t)"
    using measure_returns[of cycle_env cycles 5 32768 sample_machine] cycle_env_live cycle_env_hw
    by (auto simp: clocks_live_def)
  from measure_counts_cycles[OF cycle_env_hw r] r show ?thesis by auto
qed

section \<open>Trimming\<close>

definition trim_state :: "u32 \<Rightarrow> u32 \<Rightarrow> u32 \<Rightarrow> u32 \<Rightarrow> u32 \<Rightarrow> bool" where
  "trim_state desired first trim prev_trim prev_freq \<longleftrightarrow> trim \<le> 0x1F
     \<and> (trim = 0 \<and> prev_trim = 0 \<and> prev_freq = first
        \<or> 0 < trim \<and> trim = prev_trim + 1 \<and> prev_freq < desired)"

lemma trim_loop_state:
  assumes "trim_state desired first hfrosctrim prev_trim prev_freq"
    and "trim_loop E rtc_freq desired dv freq hfrosctrim prev_trim prev_freq s = Some ((f, tr, pt, pf), t)"
  shows "trim_state desired first tr pt pf \<and> (desired \<le> f \<or> tr = 0x1F)"
  using assms
proof (induction E rtc_freq desired dv freq hfrosctrim prev_trim prev_freq s rule: trim_loop.induct)
  case (1 E rtc_freq desired dv freq hfrosctrim prev_trim prev_freq s)
  show ?case
  proof (cases "freq < desired \<and> hfrosctrim < 0x1F")
    case True
    then obtain s1 c s2 where r: "PRCI_use_hfrosc E dv (hfrosctrim + 1) s = Some s1"
      "PRCI_measure_mcycle_freq E 3000 rtc_freq s1 = Some (c, s2)"
      "trim_loop E rtc_freq desired dv c (hfrosctrim + 1) hfrosctrim freq s2 = Some ((f, tr, pt, pf), t)"
      using "1.prems"(2) by (subst (asm) trim_loop.simps) (auto simp: bind_Some_iff Let_def)
    have "unat (hfrosctrim + 1) = Suc (unat hfrosctrim)"
      using True by (intro word_less_add_one_unat[where q = "0x1F"]) simp
    then have "trim_state desired first (hfrosctrim + 1) hfrosctrim freq"
      using True by (simp add: trim_state_def word_le_nat_alt word_less_nat_alt)
    from "1.IH"[OF True refl refl refl r(1) r(2) _ this r(3)] show ?thesis by simp
  next
    case False
    with "1.prems" show ?thesis
      by (subst (asm) trim_loop.simps) (auto simp: trim_state_def not_less order.antisym)
  qed
qed

text \<open>The search ends, and leaves the oscillator on.\<close>

lemma measure_osc_on:
  assumes "cycle_hw E c" "PRCI_measure_mcycle_freq E n r s = Some (f, t)"
  shows "osc_on (hist t) = osc_on (hist s)"
proof -
  have rd: "word_writes HFROSCCFG (hist u) = word_writes HFROSCCFG (hist v)" if "rdmcycle E v = Some (x, u)" for u v x
    using mcycle.terminates[OF assms(1), of v] that by (auto simp: rdmcycle_def word_writes_no_stores)
  show ?thesis
    using assms(2)
    by (auto simp: PRCI_measure_mcycle_freq_def Let_def bind_Some_iff osc_on_def rd poll_osc_on(2) split: if_splits)
qed

text \<open>
  One sweep of the trim, from \<open>k\<close> on: each round stores the next trim to the oscillator's register,
  reads it until it shows ready, takes the core off the PLL, and measures the frequency.
\<close>

inductive swept :: "env \<Rightarrow> u32 \<Rightarrow> u32 \<Rightarrow> nat \<Rightarrow> machine \<Rightarrow> u32 list \<Rightarrow> machine \<Rightarrow> bool"
  for E rtc_freq dv where
  swept_end: "swept E rtc_freq dv k s [] s"
| swept_round: "bit v 31
    \<Longrightarrow> m = logged (WrW HFROSCCFG (ROSC_DIV dv OR ROSC_TRIM (of_nat (Suc k)) OR ROSC_EN 1)
             # map (RdW HFROSCCFG) vs
             @ [RdW HFROSCCFG v, RdW PLLCFG w, WrW PLLCFG (w AND NOT (PLL_SEL 1))]) s
    \<Longrightarrow> PRCI_measure_mcycle_freq E 3000 rtc_freq m = Some (f, u)
    \<Longrightarrow> swept E rtc_freq dv (Suc k) u fs t
    \<Longrightarrow> swept E rtc_freq dv k s (f # fs) t"

lemma use_hfrosc_events:
  assumes "PRCI_use_hfrosc E dv trim s = Some t"
  shows "\<exists>vs v w. bit v 31 \<and> t = logged (WrW HFROSCCFG (ROSC_DIV dv OR ROSC_TRIM trim OR ROSC_EN 1)
     # map (RdW HFROSCCFG) vs @ [RdW HFROSCCFG v, RdW PLLCFG w, WrW PLLCFG (w AND NOT (PLL_SEL 1))]) s"
  using assms by (auto simp: PRCI_use_hfrosc_def bind_Some_iff bus_defs Let_def dest!: poll_reads)

lemma trim_loop_swept:
  assumes "clocks_live E" "cycle_hw E c"
  shows "k \<le> 31 \<Longrightarrow> \<exists>fs t. let n = length fs; gs = freq # fs in
    trim_loop E rtc_freq desired dv freq (of_nat k) prev_trim prev_freq s
      = Some ((gs ! n, of_nat (k + n), if n = 0 then prev_trim else of_nat (k + n - 1),
               if n = 0 then prev_freq else gs ! (n - 1)), t)
    \<and> k + n \<le> 31 \<and> (\<forall>i<n. gs ! i < desired) \<and> (desired \<le> gs ! n \<or> k + n = 31)
    \<and> swept E rtc_freq dv k s fs t \<and> (osc_on (hist s) \<longrightarrow> osc_on (hist t))"
proof (induction "31 - k" arbitrary: k freq prev_trim prev_freq s)
  case 0
  then have "k = 31" by simp
  then show ?case
    by (intro exI[of _ "[]"] exI[of _ s]) (auto simp: trim_loop.simps intro: swept_end)
next
  case (Suc d)
  then have k: "k < 31" and d: "d = 31 - Suc k" by simp_all
  have less: "(of_nat k :: u32) < 0x1F" using k by (simp add: word_less_nat_alt unat_of_nat)
  show ?case
  proof (cases "freq < desired")
    case False
    with Suc.prems show ?thesis
      by (intro exI[of _ "[]"] exI[of _ s]) (auto simp: trim_loop.simps intro: swept_end)
  next
    case True
    obtain s1 where 1: "PRCI_use_hfrosc E dv (of_nat (Suc k)) s = Some s1" "osc_on (hist s1)"
      using use_hfrosc_returns[OF assms(1)] by blast
    obtain f s2 where 2: "PRCI_measure_mcycle_freq E 3000 rtc_freq s1 = Some (f, s2)"
      using measure_returns[OF clock_polls(3)[OF assms(1)] assms(2)] by fastforce
    have on: "osc_on (hist s2)" using measure_osc_on[OF assms(2) 2] 1(2) by simp
    have k': "Suc k \<le> 31" using k by simp
    from Suc.hyps(1)[OF d k', of f "of_nat k" freq s2] obtain fs t where
      r: "trim_loop E rtc_freq desired dv f (of_nat (Suc k)) (of_nat k) freq s2
          = Some (((f # fs) ! length fs, of_nat (Suc k + length fs),
              if length fs = 0 then of_nat k else of_nat (Suc k + length fs - 1),
              if length fs = 0 then freq else (f # fs) ! (length fs - 1)), t)"
      and b: "Suc k + length fs \<le> 31" "\<forall>i<length fs. (f # fs) ! i < desired"
        "desired \<le> (f # fs) ! length fs \<or> Suc k + length fs = 31"
      and sw: "swept E rtc_freq dv (Suc k) s2 fs t" "osc_on (hist s2) \<longrightarrow> osc_on (hist t)"
      unfolding Let_def by blast
    have succ: "of_nat k + 1 = (of_nat (Suc k) :: u32)" by (simp add: add.commute)
    have "trim_loop E rtc_freq desired dv freq (of_nat k) prev_trim prev_freq s
        = trim_loop E rtc_freq desired dv f (of_nat (Suc k)) (of_nat k) freq s2"
      by (subst trim_loop.simps) (simp only: True less succ 1 2 Let_def simp_thms if_True Option.bind.simps prod.case)
    note run = trans[OF this r]
    have "swept E rtc_freq dv k s (f # fs) t"
      using use_hfrosc_events[OF 1(1)] 2 sw(1) by (blast intro: swept_round)
    moreover have "(freq # f # fs) ! i < desired" if "i < length (f # fs)" for i
      using True b(2) that by (cases i) simp_all
    ultimately show ?thesis
      using run b(1,3) sw(2) on
      by (intro exI[of _ "f # fs"] exI[of _ t]) (cases fs, auto simp: Let_def)
  qed
qed

lemma trim_loop_returns:
  assumes "clocks_live E" "cycle_hw E c"
  shows "\<exists>r t. trim_loop E rtc_freq desired dv freq 0 prev_trim prev_freq s = Some (r, t)
    \<and> (osc_on (hist s) \<longrightarrow> osc_on (hist t))"
  using trim_loop_swept[OF assms le0, of freq rtc_freq desired dv prev_trim prev_freq s]
  unfolding Let_def semiring_1_class.of_nat_0 by blast

text \<open>
  C17. The trim search ends after at most 31 rounds. Round \<open>k\<close> sets the trim to \<open>k\<close>, waits until the
  oscillator is ready and measures: \<open>freq # fs\<close> are the frequency at the start and those measured at
  the trims \<open>1, \<dots>, n\<close>, in this order. All but the last are below the desired frequency; the last
  reaches it, unless the trim is 31. The search returns the last trim with its frequency, and the
  trim before it with the frequency measured there (at no round, trim 0 with the first frequency twice).
\<close>

theorem trim_search_result:
  assumes "clocks_live E" "cycle_hw E c"
  shows "\<exists>fs n t. let gs = freq # fs in n = length fs
    \<and> trim_loop E rtc_freq desired dv freq 0 0 freq s
        = Some ((gs ! n, of_nat n, of_nat (n - 1), gs ! (n - 1)), t)
    \<and> n \<le> 31 \<and> (\<forall>k<n. gs ! k < desired) \<and> (desired \<le> gs ! n \<or> n = 31)
    \<and> swept E rtc_freq dv 0 s fs t"
proof -
  from trim_loop_swept[OF assms le0, of freq rtc_freq desired dv 0 freq s] obtain fs t where
    r: "let n = length fs; gs = freq # fs in
      trim_loop E rtc_freq desired dv freq 0 0 freq s
        = Some ((gs ! n, of_nat n, if n = 0 then 0 else of_nat (n - 1), if n = 0 then freq else gs ! (n - 1)), t)
      \<and> n \<le> 31 \<and> (\<forall>i<n. gs ! i < desired) \<and> (desired \<le> gs ! n \<or> n = 31) \<and> swept E rtc_freq dv 0 s fs t"
    unfolding Let_def semiring_1_class.of_nat_0 add_0 by blast
  show ?thesis using r
    by (intro exI[of _ fs] exI[of _ "length fs"] exI[of _ t]) (cases fs, auto simp: Let_def)
qed

lemma pll_then_measure_returns:
  assumes "clocks_live E" "cycle_hw E c" "osc_on (hist s)"
  shows "\<exists>v t. do { s \<leftarrow> PRCI_use_pll E 0 0 1 31 1 1 dv trim s; PRCI_measure_mcycle_freq E 1000 rtc_freq s }
    = Some (v, t)"
proof -
  have "core_clocked E s" using assms(3) by (simp add: core_clocked_def)
  from use_pll_returns_any[OF assms(1) this] obtain s1
    where "PRCI_use_pll E 0 0 1 31 1 1 dv trim s = Some s1" by blast
  then show ?thesis using measure_returns[OF clock_polls(3)[OF assms(1)] assms(2)] by simp
qed

text \<open>
  On hardware whose oscillator becomes ready, whose PLL locks and whose timer runs,
  \<open>PRCI_set_hfrosctrim_for_f_cpu\<close> returns, for every requested frequency and target: it runs at most 31 rounds of the trim loop.
\<close>

theorem set_hfrosctrim_returns:
  assumes "clocks_live E" "cycle_hw E c"
  shows "\<exists>v t. PRCI_set_hfrosctrim_for_f_cpu E rtc_freq f_cpu target s = Some (v, t)"
proof -
  obtain s1 where 1: "PRCI_use_hfrosc E 4 0 s = Some s1" "osc_on (hist s1)"
    using use_hfrosc_returns[OF assms(1)] by blast
  note m = measure_returns[OF clock_polls(3)[OF assms(1)] assms(2)]
  obtain f0 s2 where 2: "PRCI_measure_mcycle_freq E 3000 rtc_freq s1 = Some (f0, s2)" using m by fastforce
  obtain f1 s3 where 3: "PRCI_measure_mcycle_freq E 3000 rtc_freq s2 = Some (f1, s3)" using m by fastforce
  have on: "osc_on (hist s3)" using 1(2) measure_osc_on[OF assms(2)] 2 3 by blast
  obtain f tr pt pf s4 where
    4: "trim_loop E rtc_freq (f_cpu div 16) 4 f1 0 0 f1 s3 = Some ((f, tr, pt, pf), s4)" "osc_on (hist s4)"
    using trim_loop_returns[OF assms, of rtc_freq "f_cpu div 16" 4 f1 0 f1 s3] on by auto
  note p = pll_then_measure_returns[OF assms 4(2)]
  show ?thesis
    unfolding PRCI_set_hfrosctrim_for_f_cpu_def Let_def 1(1) 2 3 4(1) Option.bind.simps prod.case
    using p by (cases target) auto
qed

theorem set_hfrosctrim_returns_witness:
  "\<exists>v t. PRCI_set_hfrosctrim_for_f_cpu cycle_env 32768 256000000 PRCI_FREQ_CLOSEST sample_machine = Some (v, t)"
  by (rule set_hfrosctrim_returns[OF cycle_env_live cycle_env_hw])

text \<open>
  When even the largest trim, 31, leaves the oscillator too slow, the search does not
  keep it: it runs the PLL from trim 30, the setting before the fastest one, for every target.
\<close>

theorem too_slow_uses_trim_30:
  assumes "PRCI_use_hfrosc E 4 0 s = Some s1" "PRCI_measure_mcycle_freq E 3000 rtc_freq s1 = Some (f0, s2)"
    and "PRCI_measure_mcycle_freq E 3000 rtc_freq s2 = Some (f1, s3)"
    and "trim_loop E rtc_freq (f_cpu div 16) 4 f1 0 0 f1 s3 = Some ((f, tr, pt, pf), s4)"
    and "f < f_cpu div 16"
  shows "tr = 31 \<and> PRCI_set_hfrosctrim_for_f_cpu E rtc_freq f_cpu target s =
    do { s \<leftarrow> PRCI_use_pll E 0 0 1 31 1 1 4 30 s4; PRCI_measure_mcycle_freq E 1000 rtc_freq s }"
proof -
  have st: "trim_state (f_cpu div 16) f1 tr pt pf" "tr = 31"
    using trim_loop_state[OF _ assms(4), of f1] assms(5) by (auto simp: trim_state_def)
  then have pt: "pt = 30" "pf < f_cpu div 16"
    by (auto simp: trim_state_def)
  show ?thesis
    unfolding PRCI_set_hfrosctrim_for_f_cpu_def Let_def assms(1-4) Option.bind.simps prod.case
    using st(2) pt assms(5) by auto
qed

lemma trim_loop_measured:
  assumes "\<And>s f t. PRCI_measure_mcycle_freq E 3000 rtc_freq s = Some (f, t) \<Longrightarrow> P f"
    and "P freq" "trim_loop E rtc_freq desired dv freq hfrosctrim prev_trim prev_freq s = Some ((f, r), t)"
  shows "P f"
  using assms
proof (induction E rtc_freq desired dv freq hfrosctrim prev_trim prev_freq s rule: trim_loop.induct)
  case (1 E rtc_freq desired dv freq hfrosctrim prev_trim prev_freq s)
  show ?case
  proof (cases "freq < desired \<and> hfrosctrim < 0x1F")
    case True
    then obtain s1 c s2 where r: "PRCI_use_hfrosc E dv (hfrosctrim + 1) s = Some s1"
      "PRCI_measure_mcycle_freq E 3000 rtc_freq s1 = Some (c, s2)"
      "trim_loop E rtc_freq desired dv c (hfrosctrim + 1) hfrosctrim freq s2 = Some ((f, r), t)"
      using "1.prems"(3) by (subst (asm) trim_loop.simps) (auto simp: bind_Some_iff Let_def)
    from "1.IH"[OF True refl refl refl r(1,2) refl "1.prems"(1) "1.prems"(1)[OF r(2)] r(3)]
    show ?thesis by simp
  next
    case False
    with "1.prems"(2,3) show ?thesis by (subst (asm) trim_loop.simps) auto
  qed
qed

text \<open>A core so slow that no cycle is ever counted.\<close>

definition stalled_env :: env where
  "stalled_env h acc = (case acc of
       LdW a \<Rightarrow> if a = MTIME then of_nat (length h)
                else if a = HFROSCCFG \<or> a = PLLCFG then clock_reg h a else 0xFFFFFFFF
     | _ \<Rightarrow> 0)"

lemma stalled_hw: "cycle_hw stalled_env (\<lambda>h. 0)"
  by (simp add: cycle_hw_def stalled_env_def)

lemma stalled_live: "clocks_live stalled_env"
  by (rule clock_reg_live) (auto simp: counting_def stalled_env_def clk_regs_differ(7-9)[symmetric])

lemma stalled_rdmcycle: "rdmcycle stalled_env s = Some (v, t) \<Longrightarrow> v = 0"
  using mcycle.value_bounds[OF stalled_hw, of s v t] by (simp add: rdmcycle_def word_unat_eq_iff)

lemma stalled_measure: "PRCI_measure_mcycle_freq stalled_env n r s = Some (f, t) \<Longrightarrow> f = 0"
  by (auto simp: PRCI_measure_mcycle_freq_def Let_def bind_Some_iff dest!: stalled_rdmcycle split: if_splits)

text \<open>On the stalled core every measurement gives 0, so the search runs all of its 31 rounds.\<close>

lemma swept_stalled: "swept stalled_env r dv k s fs t \<Longrightarrow> set fs \<subseteq> {0}"
  by (induction rule: swept.induct) (auto dest: stalled_measure)

theorem trim_search_result_witness:
  "\<exists>fs t. trim_loop stalled_env 32768 16000000 4 0 0 0 0 sample_machine = Some ((0, 31, 30, 0), t)
    \<and> fs = replicate 31 0 \<and> swept stalled_env 32768 4 0 sample_machine fs t"
proof -
  from trim_search_result[OF stalled_live stalled_hw, of 0 32768 16000000 4 sample_machine] obtain fs n t where
    r: "n = length fs" "trim_loop stalled_env 32768 16000000 4 0 0 0 0 sample_machine
        = Some (((0 # fs) ! n, of_nat n, of_nat (n - 1), (0 # fs) ! (n - 1)), t)"
      "16000000 \<le> (0 # fs) ! n \<or> n = 31" "swept stalled_env 32768 4 0 sample_machine fs t"
    by (auto simp: Let_def)
  have zero: "set (0 # fs) \<subseteq> {0}" using swept_stalled[OF r(4)] by simp
  then have g: "(0 # fs) ! i = 0" if "i \<le> length fs" for i
    using that nth_mem[of i "0 # fs"] by (auto simp del: nth_mem)
  then have "n = 31" using r(1,3) by simp
  moreover have "fs = replicate (length fs) 0"
    using zero by (simp add: list_eq_iff_nth_eq) (metis g nth_Cons_Suc Suc_leI)
  ultimately have "fs = replicate 31 0" using r(1) by simp
  with r g \<open>n = 31\<close> show ?thesis by auto
qed

theorem too_slow_uses_trim_30_witness:
  "\<exists>s4. PRCI_set_hfrosctrim_for_f_cpu stalled_env 32768 256000000 PRCI_FREQ_OVERSHOOT sample_machine =
    do { s \<leftarrow> PRCI_use_pll stalled_env 0 0 1 31 1 1 4 30 s4; PRCI_measure_mcycle_freq stalled_env 1000 32768 s }"
proof -
  obtain s1 where 1: "PRCI_use_hfrosc stalled_env 4 0 sample_machine = Some s1"
    using use_hfrosc_returns[OF stalled_live] by blast
  note m = measure_returns[OF clock_polls(3)[OF stalled_live] stalled_hw]
  obtain f0 s2 where 2: "PRCI_measure_mcycle_freq stalled_env 3000 32768 s1 = Some (f0, s2)" using m by fastforce
  obtain f1 s3 where 3: "PRCI_measure_mcycle_freq stalled_env 3000 32768 s2 = Some (f1, s3)" using m by fastforce
  obtain f tr pt pf s4 where
    4: "trim_loop stalled_env 32768 (256000000 div 16) 4 f1 0 0 f1 s3 = Some ((f, tr, pt, pf), s4)"
    using trim_loop_returns[OF stalled_live stalled_hw] by fastforce
  have "f = 0"
    by (rule trim_loop_measured[where P = "\<lambda>f. f = 0", OF _ stalled_measure[OF 3] 4]) (rule stalled_measure)
  then have "f < 256000000 div 16" by simp
  from too_slow_uses_trim_30[OF 1 2 3 4 this] show ?thesis by blast
qed

end
