(* ===== verification/Sink.thy ===== *)
theory Sink
  imports Prelude
begin

text \<open>
  The interface between the formatter and where its characters go: a \<open>putch\<close> callback, the
  bytes a sink has passed on so far, and how a character is rendered. \<open>vprintfmt\<close> is
  the client; the console and the \<open>sprintf\<close> buffer are the providers.
\<close>

locale char_sink =
  fixes putch :: "u32 \<Rightarrow> 's \<Rightarrow> 's option"
    and sent :: "'s \<Rightarrow> u8 list"
    and render :: "u8 \<Rightarrow> u8 list"
    and live :: "'s \<Rightarrow> bool"
  assumes putch_live: "live s \<Longrightarrow> \<exists>t. putch c s = Some t \<and> live t"
    and putch_sent: "putch c s = Some t \<Longrightarrow> sent t = sent s @ render (ucast c)"
begin

lemma run_sent: "run_all putch cs s = Some t \<Longrightarrow> sent t = sent s @ concat (map (render \<circ> ucast) cs)"
  by (induction cs arbitrary: s) (auto elim!: bind_eq_SomeE dest: putch_sent)

lemma run_live: "live s \<Longrightarrow> \<exists>t. run_all putch cs s = Some t \<and> live t"
  by (rule run_all_inv) (auto intro: putch_live)

lemma run_total:
  assumes "live s"
  shows "\<exists>t. run_all putch cs s = Some t \<and> live t \<and> sent t = sent s @ concat (map (render \<circ> ucast) cs)"
  using run_live[OF assms, of cs] run_sent by blast

end

text \<open>A sink that passes characters on unchanged.\<close>

locale plain_sink = char_sink putch sent "\<lambda>c. [c]" live
  for putch :: "u32 \<Rightarrow> 's \<Rightarrow> 's option" and sent and live
begin

lemma run_sent_plain: "run_all putch cs s = Some t \<Longrightarrow> sent t = sent s @ map ucast cs"
  by (drule run_sent) (simp add: o_def concat_map_singleton)

end

end
