(* ===== verification/Uart.thy ===== *)
theory Uart
  imports Platform Sink
begin

unbundle bit_operations_syntax

text \<open>
  The console and the system call wrappers of \<open>fw/bsp/libwrap\<close>: \<open>isatty\<close>,
  \<open>write\<close>, \<open>puts\<close>, \<open>putchar\<close>, \<open>read\<close>, \<open>write_hex\<close>,
  \<open>exit\<close> and the stubs. A buffer argument \<open>(ptr, len)\<close> is the list of its bytes,
  a C string the list of its characters without the final NUL. The contract
  \<open>char_sink\<close> is what the formatted output of \<open>Printf\<close> relies on.
\<close>

section \<open>Transmitting a byte\<close>

text \<open>\<open>while (UART0_REG(UART_REG_TXFIFO) & 0x80000000) ;\<close> then the store of the byte.\<close>

definition tx_full :: "u32 \<Rightarrow> bool" where
  "tx_full v \<longleftrightarrow> v AND 0x80000000 \<noteq> 0"

definition tx_byte :: "env \<Rightarrow> u8 \<Rightarrow> machine \<Rightarrow> machine option" where
  "tx_byte E c s = do {
     (_, s) \<leftarrow> poll E tx_full TXFIFO s;
     Some (st32 TXFIFO (ucast c) s) }"

definition LF :: u8 where "LF = 10"

definition CR :: u8 where "CR = 13"

text \<open>The loop bodies of \<open>write\<close> and \<open>puts\<close> are the same; the bytes are those left to send.\<close>

fun tx_loop :: "env \<Rightarrow> u8 list \<Rightarrow> machine \<Rightarrow> machine option" where
  "tx_loop E [] s = Some s"
| "tx_loop E (c # cs) s = do {
     s \<leftarrow> tx_byte E c s;
     s \<leftarrow> (if c = LF then tx_byte E CR s else Some s);
     tx_loop E cs s }"

section \<open>System calls\<close>

definition STDOUT_FILENO :: u32 where "STDOUT_FILENO = 1"

definition STDERR_FILENO :: u32 where "STDERR_FILENO = 2"

definition wrap_isatty :: "u32 \<Rightarrow> u32" where
  "wrap_isatty fd = (if fd = STDOUT_FILENO \<or> fd = STDERR_FILENO then 1 else 0)"

text \<open>\<open>_stub\<close> drops the error number: \<open>errno\<close> is never set.\<close>

datatype errno = EBADF | ENOENT | ENOMEM | EAGAIN | EINVAL | EMLINK | EACCES | ECHILD

definition stub :: "errno \<Rightarrow> u32" where
  "stub err = minus_one"

definition wrap_write :: "env \<Rightarrow> u32 \<Rightarrow> u8 list \<Rightarrow> machine \<Rightarrow> (u32 \<times> machine) option" where
  "wrap_write E fd buf s =
     (if wrap_isatty fd \<noteq> 0 then do { s \<leftarrow> tx_loop E buf s; Some (of_nat (length buf), s) }
      else Some (stub EBADF, s))"

definition wrap_puts :: "env \<Rightarrow> u8 list \<Rightarrow> machine \<Rightarrow> (u32 \<times> machine) option" where
  "wrap_puts E str s = do { s \<leftarrow> tx_loop E (takeWhile (\<lambda>c. c \<noteq> 0) str) s; Some (0, s) }"

text \<open>\<open>putchar\<close> of \<open>printf.c\<close>: \<open>&ch\<close> addresses the low byte of \<open>ch\<close>.\<close>

definition putchar :: "env \<Rightarrow> u32 \<Rightarrow> machine \<Rightarrow> (u32 \<times> machine) option" where
  "putchar E ch s = do {
     (r, s) \<leftarrow> wrap_write E STDOUT_FILENO [byte_of 0 ch] s;
     Some (if r = 1 then ch else minus_one, s) }"

text \<open>The receive loop of \<open>read\<close>, over the room left in the buffer.\<close>

fun rx_loop :: "env \<Rightarrow> nat \<Rightarrow> machine \<Rightarrow> u8 list \<times> machine" where
  "rx_loop E 0 s = ([], s)"
| "rx_loop E (Suc room) s =
     (let (cnt, s) = ld8 E (UART0_CTRL_ADDR + UART_REG_RXCTRL + 2) s in
      if 0 < cnt then
        let (v, s) = ld32 E (UART0_CTRL_ADDR + UART_REG_RXFIFO) s;
            (bs, s) = rx_loop E room s
        in (ucast v # bs, s)
      else ([], s))"

definition wrap_read :: "env \<Rightarrow> u32 \<Rightarrow> u32 \<Rightarrow> machine \<Rightarrow> u32 \<times> u8 list \<times> machine" where
  "wrap_read E fd len s =
     (if wrap_isatty fd \<noteq> 0 then
        let (bs, s) = rx_loop E (unat len) s in (of_nat (length bs), bs, s)
      else (stub EBADF, [], s))"

definition wrap_lseek :: "u32 \<Rightarrow> u32" where
  "wrap_lseek fd = (if wrap_isatty fd \<noteq> 0 then 0 else stub EBADF)"

text \<open>\<open>fstat\<close>: the return value and the \<open>st_mode\<close> it stores, if any; \<open>S_IFCHR\<close> comes from the C library.\<close>

definition wrap_fstat :: "u32 \<Rightarrow> u32 \<Rightarrow> u32 \<times> u32 option" where
  "wrap_fstat S_IFCHR fd = (if wrap_isatty fd \<noteq> 0 then (0, Some S_IFCHR) else (stub EBADF, None))"

definition wrap_getpid :: u32 where "wrap_getpid = 1"

text \<open>The calls that are not supported. Pointers to results are not written.\<close>

definition wrap_close :: "u32 \<Rightarrow> u32" where
  "wrap_close fd = stub EBADF"

definition wrap_execve :: "u8 list \<Rightarrow> u8 list list \<Rightarrow> u8 list list \<Rightarrow> u32" where
  "wrap_execve name argv env = stub ENOMEM"

definition wrap_fork :: "u32" where
  "wrap_fork = stub EAGAIN"

definition wrap_kill :: "u32 \<Rightarrow> u32 \<Rightarrow> u32" where
  "wrap_kill pid sig = stub EINVAL"

definition wrap_link :: "u8 list \<Rightarrow> u8 list \<Rightarrow> u32" where
  "wrap_link old_name new_name = stub EMLINK"

definition wrap_open :: "u8 list \<Rightarrow> u32 \<Rightarrow> u32 \<Rightarrow> u32" where
  "wrap_open name flags mode = stub ENOENT"

definition wrap_openat :: "u32 \<Rightarrow> u8 list \<Rightarrow> u32 \<Rightarrow> u32 \<Rightarrow> u32" where
  "wrap_openat dirfd name flags mode = stub ENOENT"

definition wrap_stat :: "u8 list \<Rightarrow> u32 \<Rightarrow> u32" where
  "wrap_stat file st = stub EACCES"

definition wrap_times :: "u32 \<Rightarrow> u32" where
  "wrap_times buf = stub EACCES"

definition wrap_unlink :: "u8 list \<Rightarrow> u32" where
  "wrap_unlink name = stub ENOENT"

definition wrap_wait :: "u32 \<Rightarrow> u32" where
  "wrap_wait status = stub ECHILD"

lemmas stub_defs = wrap_close_def wrap_execve_def wrap_fork_def wrap_kill_def wrap_link_def wrap_open_def wrap_openat_def wrap_stat_def wrap_times_def wrap_unlink_def wrap_wait_def stub_def

section \<open>Hexadecimal output and exit\<close>

definition hex_digit :: "u8 \<Rightarrow> u8" where
  "hex_digit d = (if d < 0xA then 0x30 + d else 0x41 + (d - 0xA))"

definition hex_nibble :: "u32 \<Rightarrow> nat \<Rightarrow> u8" where
  "hex_nibble hex jj = ucast (drop_bit (jj * 4) (hex AND push_bit (jj * 4) 0xF))"

text \<open>The loop of \<open>write_hex\<close>, \<open>ii\<close> counting down from \<open>sizeof(unsigned long) * 2\<close>.\<close>

fun hex_loop :: "env \<Rightarrow> u32 \<Rightarrow> u32 \<Rightarrow> nat \<Rightarrow> machine \<Rightarrow> machine option" where
  "hex_loop E fd hex 0 s = Some s"
| "hex_loop E fd hex (Suc jj) s = do {
     (_, s) \<leftarrow> wrap_write E fd [hex_digit (hex_nibble hex jj)] s;
     hex_loop E fd hex jj s }"

definition write_hex :: "env \<Rightarrow> u32 \<Rightarrow> u32 \<Rightarrow> machine \<Rightarrow> machine option" where
  "write_hex E fd hex s = do {
     (_, s) \<leftarrow> wrap_write E fd (c_str ''0x'') s;
     hex_loop E fd hex 8 s }"

definition exit_message :: "u8 list" where
  "exit_message = LF # c_str ''Progam has exited with code:''"

text \<open>
  \<open>exit\<close> never returns: the result is the state in which it spins in \<open>for (;;);\<close>.
\<close>

definition wrap_exit :: "env \<Rightarrow> u32 \<Rightarrow> machine \<Rightarrow> machine option" where
  "wrap_exit E code s = do {
     (_, s) \<leftarrow> wrap_write E STDERR_FILENO exit_message s;
     s \<leftarrow> write_hex E STDERR_FILENO code s;
     (_, s) \<leftarrow> wrap_write E STDERR_FILENO [LF] s;
     Some s }"

section \<open>What a transmission looks like on the bus\<close>

definition render :: "u8 \<Rightarrow> u8 list" where
  "render c = (if c = LF then [LF, CR] else [c])"

definition crlf :: "u8 list \<Rightarrow> u8 list" where
  "crlf bs = concat (map render bs)"

lemma crlf_simps [simp]:
  "crlf [] = []"
  "crlf (c # cs) = render c @ crlf cs"
  "crlf (bs @ cs) = crlf bs @ crlf cs"
  by (simp_all add: crlf_def)

text \<open>
  Every store to the transmit register directly follows, on that register, a load that showed
  room in the FIFO. The flag says whether the last load showed room.
\<close>

fun fifo_safe :: "bool \<Rightarrow> event list \<Rightarrow> bool" where
  "fifo_safe room [] = True"
| "fifo_safe room (RdW a v # es) =
     (if a = TXFIFO then fifo_safe (\<not> tx_full v) es else fifo_safe room es)"
| "fifo_safe room (WrW a v # es) =
     (if a = TXFIFO then room \<and> fifo_safe False es else fifo_safe room es)"
| "fifo_safe room (e # es) = fifo_safe room es"

lemma fifo_safe_weaken: "fifo_safe False es \<Longrightarrow> fifo_safe room es"
proof (induction es arbitrary: room)
  case (Cons e es)
  then show ?case by (cases e) (auto split: if_splits)
qed simp

lemma fifo_safe_append: "fifo_safe room es \<Longrightarrow> fifo_safe False fs \<Longrightarrow> fifo_safe room (es @ fs)"
proof (induction es arbitrary: room)
  case Nil
  then show ?case by (simp add: fifo_safe_weaken)
next
  case (Cons e es)
  then show ?case by (cases e) (auto split: if_splits)
qed

lemma fifo_safe_loads: "fifo_safe room (map (RdW TXFIFO) vs @ [RdW TXFIFO v, WrW TXFIFO w]) \<longleftrightarrow> \<not> tx_full v"
  by (induction vs arbitrary: room) auto

text \<open>\<open>transmits bs es\<close>: every event is a word load or a word store of the transmit register,
  the stores are exactly the bytes \<open>bs\<close>, in order, and none goes into a full FIFO. No other
  register is read or written, and no control and status register is accessed.\<close>

fun tx_access :: "event \<Rightarrow> bool" where
  "tx_access (RdW a v) \<longleftrightarrow> a = TXFIFO"
| "tx_access (WrW a v) \<longleftrightarrow> a = TXFIFO"
| "tx_access _ \<longleftrightarrow> False"

definition transmits :: "u8 list \<Rightarrow> event list \<Rightarrow> bool" where
  "transmits bs es \<longleftrightarrow>
     list_all tx_access es \<and> stores es = map (\<lambda>c. WrW TXFIFO (ucast c)) bs \<and> fifo_safe False es"

lemma transmits_Nil [simp]: "transmits [] []"
  by (simp add: transmits_def)

lemma transmits_append: "transmits bs es \<Longrightarrow> transmits cs fs \<Longrightarrow> transmits (bs @ cs) (es @ fs)"
  by (simp add: transmits_def fifo_safe_append)

lemma word_writes_map: "word_writes a (map (\<lambda>c. WrW a (f c)) bs) = map f bs"
  by (induction bs) auto

lemma transmits_word_writes: "transmits bs es \<Longrightarrow> word_writes TXFIFO es = map ucast bs"
  by (subst word_writes_stores) (simp add: transmits_def word_writes_map)

lemma transmits_access: "transmits bs es \<Longrightarrow> list_all tx_access es"
  by (simp add: transmits_def)

section \<open>Correctness of the transmit loops\<close>

abbreviation tx_drains :: "env \<Rightarrow> bool" where
  "tx_drains E \<equiv> responsive E tx_full TXFIFO"

lemma tx_byte_transmits:
  assumes "tx_byte E c s = Some t"
  shows "\<exists>es. t = logged es s \<and> transmits [c] es"
proof -
  from assms obtain v es where p: "polls E tx_full TXFIFO (hist s) es v"
    and t: "t = logged (es @ [WrW TXFIFO (ucast c)]) s"
    by (auto simp: tx_byte_def poll_Some_iff st32_def elim!: bind_eq_SomeE)
  from polls_reads[OF p] polls_not_busy[OF p] obtain vs where
    es: "es = map (RdW TXFIFO) vs @ [RdW TXFIFO v]" "\<not> tx_full v" by blast
  then have "transmits [c] (es @ [WrW TXFIFO (ucast c)])"
    using p fifo_safe_loads by (simp add: transmits_def list_all_iff)
  with t show ?thesis by blast
qed

lemma tx_byte_total: "tx_drains E \<Longrightarrow> \<exists>t. tx_byte E c s = Some t"
  by (erule responsive_poll[of E tx_full TXFIFO s]) (simp add: tx_byte_def)

lemma tx_loop_transmits: "tx_loop E bs s = Some t \<Longrightarrow> \<exists>es. t = logged es s \<and> transmits (crlf bs) es"
proof (induction bs arbitrary: s)
  case Nil
  then show ?case by (auto intro: exI[of _ "[]"])
next
  case (Cons c bs)
  from Cons.prems obtain s1 s2 where s1: "tx_byte E c s = Some s1"
    and s2: "(if c = LF then tx_byte E CR s1 else Some s1) = Some s2"
    and rest: "tx_loop E bs s2 = Some t"
    by (auto elim!: bind_eq_SomeE)
  from tx_byte_transmits[OF s1] obtain es where es: "s1 = logged es s" "transmits [c] es" by blast
  have "\<exists>fs. s2 = logged fs s \<and> transmits (render c) fs"
  proof (cases "c = LF")
    case True
    with s2 tx_byte_transmits[of E CR s1 s2] obtain fs where "s2 = logged fs s1" "transmits [CR] fs"
      by auto
    with True es transmits_append[of "[c]" es "[CR]" fs] show ?thesis
      by (auto simp: render_def)
  next
    case False
    with s2 es show ?thesis by (auto simp: render_def)
  qed
  moreover from Cons.IH[OF rest] obtain gs where "t = logged gs s2" "transmits (crlf bs) gs" by blast
  ultimately show ?case by (auto intro: transmits_append)
qed

lemma tx_loop_total: "tx_drains E \<Longrightarrow> \<exists>t. tx_loop E bs s = Some t"
proof (induction bs arbitrary: s)
  case (Cons c bs)
  from tx_byte_total[OF Cons.prems] obtain s1 where s1: "tx_byte E c s = Some s1" by blast
  from tx_byte_total[OF Cons.prems] obtain s2 where "tx_byte E CR s1 = Some s2" by blast
  with s1 Cons.IH[OF Cons.prems] show ?case by simp
qed simp

lemma wrap_isatty_iff [simp]: "wrap_isatty fd \<noteq> 0 \<longleftrightarrow> fd \<in> {STDOUT_FILENO, STDERR_FILENO}"
  by (simp add: wrap_isatty_def)

lemma wrap_write_tty:
  assumes "fd \<in> {STDOUT_FILENO, STDERR_FILENO}" "wrap_write E fd bs s = Some (r, t)"
  shows "r = of_nat (length bs) \<and> (\<exists>es. t = logged es s \<and> transmits (crlf bs) es)"
  using assms tx_loop_transmits[of E bs s] by (auto simp: wrap_write_def elim!: bind_eq_SomeE)

lemma wrap_write_other:
  assumes "fd \<notin> {STDOUT_FILENO, STDERR_FILENO}"
  shows "wrap_write E fd bs s = Some (minus_one, s)"
  using assms by (simp add: wrap_write_def stub_def)

lemma wrap_write_total: "tx_drains E \<Longrightarrow> \<exists>r t. wrap_write E fd bs s = Some (r, t)"
  using tx_loop_total[of E bs s] by (auto simp: wrap_write_def)

section \<open>The console as a sink\<close>

text \<open>What \<open>vprintfmt\<close> calls through the cast \<open>(void*)putchar\<close>: the result is dropped.\<close>

definition console_putch :: "env \<Rightarrow> u32 \<Rightarrow> machine \<Rightarrow> machine option" where
  "console_putch E ch s = map_option snd (putchar E ch s)"

definition console_sent :: "machine \<Rightarrow> u8 list" where
  "console_sent s = map ucast (word_writes TXFIFO (hist s))"

lemma byte_of_0: "byte_of 0 ch = ucast ch"
  by (simp add: byte_of_def)

lemma console_putch_transmits:
  assumes "console_putch E ch s = Some t"
  shows "\<exists>es. t = logged es s \<and> transmits (render (ucast ch)) es"
proof -
  from assms obtain r where "wrap_write E STDOUT_FILENO [ucast ch] s = Some (r, t)"
    by (auto simp: console_putch_def putchar_def byte_of_0 elim!: bind_eq_SomeE)
  with wrap_write_tty[of STDOUT_FILENO E "[ucast ch]" s r t] show ?thesis by simp
qed

lemma console_putch_total: "tx_drains E \<Longrightarrow> \<exists>t. console_putch E ch s = Some t"
  using wrap_write_total[of E STDOUT_FILENO "[byte_of 0 ch]" s]
  by (auto simp: console_putch_def putchar_def)

lemma run_console_transmits:
  "run_all (console_putch E) cs s = Some t \<Longrightarrow> \<exists>es. t = logged es s \<and> transmits (crlf (map ucast cs)) es"
proof (induction cs arbitrary: s)
  case Nil
  then show ?case by (auto intro: exI[of _ "[]"])
next
  case (Cons c cs)
  then obtain s1 where "console_putch E c s = Some s1" "run_all (console_putch E) cs s1 = Some t"
    by (auto elim!: bind_eq_SomeE)
  with console_putch_transmits[of E c s s1] Cons.IH[of s1] show ?case
    by (fastforce intro: transmits_append)
qed

lemma map_ucast_ucast [simp]: "map (ucast \<circ> (ucast :: u8 \<Rightarrow> u32)) bs = bs"
  by (induction bs) auto

interpretation console: char_sink "console_putch E" console_sent render "\<lambda>_. tx_drains E"
proof unfold_locales
  fix s :: machine and c
  assume "tx_drains E"
  then show "\<exists>t. console_putch E c s = Some t \<and> tx_drains E"
    using console_putch_total by blast
next
  fix c s t
  assume "console_putch E c s = Some t"
  from console_putch_transmits[OF this] show "console_sent t = console_sent s @ render (ucast c)"
    by (auto simp: console_sent_def transmits_word_writes)
qed

section \<open>Hexadecimal output\<close>

definition hex_text :: "u32 \<Rightarrow> u8 list" where
  "hex_text hex = c_str ''0x'' @ map (\<lambda>jj. hex_digit (hex_nibble hex jj)) (rev [0..<8])"

text \<open>The value of a hexadecimal digit and of a digit sequence.\<close>

definition digit_value :: "u8 \<Rightarrow> u32" where
  "digit_value c = (if c < 0x3A then ucast c - 0x30 else ucast c - 0x37)"

definition hex_value :: "u8 list \<Rightarrow> u32" where
  "hex_value cs = foldl (\<lambda>v c. v * 16 + digit_value c) 0 cs"

lemma nibble_cases:
  assumes "(d :: u8) < 16"
  shows "d \<in> {0, 1, 2, 3, 4, 5, 6, 7, 8, 9, 10, 11, 12, 13, 14, 15}"
proof -
  have "d \<in> of_nat ` {..<16}"
    using assms by (intro word_less_of_nat_cases) (simp add: word_less_nat_alt)
  then show ?thesis
    by (auto simp: lessThan_nat_numeral lessThan_Suc)
qed

lemma hex_digit_value: "d < 16 \<Longrightarrow> digit_value (hex_digit d) = ucast d"
  by (drule nibble_cases) (auto simp: hex_digit_def digit_value_def)

lemma hex_digit_ne_LF: "d < 16 \<Longrightarrow> hex_digit d \<noteq> LF"
  by (drule nibble_cases) (auto simp: hex_digit_def LF_def)

lemma hex_nibble_eq:
  assumes "jj < 8"
  shows "hex_nibble hex jj = ucast (take_bit 4 (drop_bit (jj * 4) hex))"
proof -
  have "drop_bit (jj * 4) (hex AND push_bit (jj * 4) 0xF) = take_bit 4 (drop_bit (jj * 4) hex)"
    using assms
    by (intro bit_word_eqI)
      (auto simp: bit_drop_bit_eq bit_and_iff bit_push_bit_iff bit_take_bit_iff bit_15_u32
          simp del: bit_numeral_word_iff)
  then show ?thesis by (simp add: hex_nibble_def)
qed

lemma hex_nibble_less: "jj < 8 \<Longrightarrow> hex_nibble hex jj < 16"
  by (simp add: hex_nibble_eq nibble_less_16)

lemma hex_step:
  assumes "n < 8"
  shows "drop_bit (Suc n * 4) hex * 16 + digit_value (hex_digit (hex_nibble hex n)) = drop_bit (n * 4) hex"
proof -
  have "digit_value (hex_digit (hex_nibble hex n)) = take_bit 4 (drop_bit (n * 4) hex)"
    using assms by (simp add: hex_digit_value hex_nibble_less) (simp add: hex_nibble_eq)
  then show ?thesis using drop_bit_nibble[of "n * 4" hex] by (simp add: add.commute)
qed

lemma hex_digits_value:
  "n \<le> 8 \<Longrightarrow> foldl (\<lambda>v c. v * 16 + digit_value c) (drop_bit (n * 4) hex)
     (map (\<lambda>jj. hex_digit (hex_nibble hex jj)) (rev [0..<n])) = hex"
proof (induction n)
  case (Suc n)
  then show ?case using hex_step[of n hex] by simp
qed simp

lemma hex_text_value: "hex_value (drop 2 (hex_text hex)) = hex"
  using hex_digits_value[of 8 hex] by (simp add: hex_text_def hex_value_def)

lemma crlf_no_LF: "LF \<notin> set cs \<Longrightarrow> crlf cs = cs"
  by (induction cs) (auto simp: render_def)

lemma hex_text_no_LF: "LF \<notin> set (hex_text hex)"
proof -
  have "LF \<notin> hex_digit ` hex_nibble hex ` {..<8}"
    using hex_digit_ne_LF[OF hex_nibble_less] by (auto simp del: hex_digit_def) metis
  moreover have "LF \<notin> set (c_str ''0x'')" by (simp add: LF_def)
  ultimately show ?thesis by (auto simp: hex_text_def)
qed

lemma hex_loop_transmits:
  assumes "fd \<in> {STDOUT_FILENO, STDERR_FILENO}"
  shows "hex_loop E fd hex n s = Some t \<Longrightarrow>
    \<exists>es. t = logged es s \<and> transmits (crlf (map (\<lambda>jj. hex_digit (hex_nibble hex jj)) (rev [0..<n]))) es"
proof (induction n arbitrary: s)
  case 0
  then show ?case by (auto intro: exI[of _ "[]"])
next
  case (Suc n)
  then obtain r s1 where w: "wrap_write E fd [hex_digit (hex_nibble hex n)] s = Some (r, s1)"
    and "hex_loop E fd hex n s1 = Some t"
    by (auto elim!: bind_eq_SomeE)
  with Suc.IH[of s1] wrap_write_tty[OF assms w] show ?case
    by (auto intro: transmits_append)
qed

lemma write_hex_transmits:
  assumes "fd \<in> {STDOUT_FILENO, STDERR_FILENO}" "write_hex E fd hex s = Some t"
  shows "\<exists>es. t = logged es s \<and> transmits (hex_text hex) es"
proof -
  from assms(2) obtain r s1 where w: "wrap_write E fd (c_str ''0x'') s = Some (r, s1)"
    and l: "hex_loop E fd hex 8 s1 = Some t"
    by (auto simp: write_hex_def elim!: bind_eq_SomeE)
  from wrap_write_tty[OF assms(1) w] obtain es where
    es: "s1 = logged es s" "transmits (crlf (c_str ''0x'')) es" by blast
  from hex_loop_transmits[OF assms(1) l] obtain fs where fs: "t = logged fs s1"
    "transmits (crlf (map (\<lambda>jj. hex_digit (hex_nibble hex jj)) (rev [0..<8]))) fs" by blast
  have "t = logged (es @ fs) s" by (simp add: es fs)
  moreover have "transmits (crlf (hex_text hex)) (es @ fs)"
    unfolding hex_text_def crlf_simps(3) by (rule transmits_append[OF es(2) fs(2)])
  ultimately show ?thesis by (auto simp: crlf_no_LF hex_text_no_LF)
qed

lemma hex_loop_total: "tx_drains E \<Longrightarrow> \<exists>t. hex_loop E fd hex n s = Some t"
proof (induction n arbitrary: s)
  case (Suc n)
  from wrap_write_total[OF Suc.prems] obtain r s1
    where "wrap_write E fd [hex_digit (hex_nibble hex n)] s = Some (r, s1)" by blast
  with Suc show ?case by simp
qed simp

lemma write_hex_total: "tx_drains E \<Longrightarrow> \<exists>t. write_hex E fd hex s = Some t"
  using wrap_write_total[of E fd "c_str ''0x''" s] hex_loop_total[of E fd hex 8]
  by (auto simp: write_hex_def)

section \<open>Properties\<close>

text \<open>A console whose FIFO is full right after each byte and free at the next look.\<close>

definition one_slot_env :: env where
  "one_slot_env h acc =
     (if acc = LdW TXFIFO \<and> (case rev h of WrW a _ # _ \<Rightarrow> a = TXFIFO | _ \<Rightarrow> False)
      then 0x80000000 else 0)"

lemma one_slot_drains [simp]: "tx_drains one_slot_env"
  by (rule responsive_onceI) (auto simp: one_slot_env_def tx_full_def)

text \<open>C5. \<open>write\<close> to a terminal descriptor sends exactly the bytes of the buffer, in order and
  with a carriage return after each line feed, never stores into a full FIFO and returns the length; it terminates whenever the FIFO drains. Its
  only accesses are word accesses of the transmit register: no other register is read or written.\<close>

theorem write_sends:
  assumes "tx_drains E" "fd = 1 \<or> fd = 2"
  shows "\<exists>es. wrap_write E fd bs s = Some (of_nat (length bs), logged es s) \<and> transmits (crlf bs) es"
proof -
  have fd: "fd \<in> {STDOUT_FILENO, STDERR_FILENO}"
    using assms(2) by (auto simp: STDOUT_FILENO_def STDERR_FILENO_def)
  obtain r t where w: "wrap_write E fd bs s = Some (r, t)"
    using wrap_write_total[OF assms(1)] by blast
  from wrap_write_tty[OF fd w] w show ?thesis by auto
qed

theorem write_sends_witness:
  "\<exists>es. wrap_write one_slot_env 1 [65, 10] sample_machine
      = Some (2, logged es sample_machine) \<and> transmits [65, 10, 13] es"
  using write_sends[OF one_slot_drains, of 1 "[65, 10]" "sample_machine"]
  by (simp add: render_def LF_def CR_def)

text \<open>Every other descriptor is rejected with -1 and no hardware access; standard input is among
  them, so \<open>read\<close> from it always fails.\<close>

theorem other_descriptors_fail:
  "fd \<noteq> 1 \<Longrightarrow> fd \<noteq> 2 \<Longrightarrow>
     wrap_write E fd bs s = Some (minus_one, s) \<and> wrap_read E fd len s = (minus_one, [], s)
     \<and> wrap_lseek fd = minus_one \<and> fst (wrap_fstat mode fd) = minus_one"
  by (simp add: wrap_write_def wrap_read_def wrap_lseek_def wrap_fstat_def wrap_isatty_def
      STDOUT_FILENO_def STDERR_FILENO_def stub_def)

theorem other_descriptors_fail_witness:
  "wrap_read one_slot_env 0 4 sample_machine = (minus_one, [], sample_machine)"
  using other_descriptors_fail[of 0 one_slot_env "[]" sample_machine 4 0] by simp

text \<open>C29. \<open>write_hex\<close> prints \<open>0x\<close> and eight digits that read back as the number.\<close>

theorem write_hex_roundtrip:
  assumes "tx_drains E" "fd = 1 \<or> fd = 2"
  shows "\<exists>cs es. write_hex E fd hex s = Some (logged es s) \<and> transmits (c_str ''0x'' @ cs) es
    \<and> length cs = 8 \<and> hex_value cs = hex"
proof -
  have fd: "fd \<in> {STDOUT_FILENO, STDERR_FILENO}"
    using assms(2) by (auto simp: STDOUT_FILENO_def STDERR_FILENO_def)
  obtain t where w: "write_hex E fd hex s = Some t"
    using write_hex_total[OF assms(1)] by blast
  let ?cs = "map (\<lambda>jj. hex_digit (hex_nibble hex jj)) (rev [0..<8])"
  have "hex_text hex = c_str ''0x'' @ ?cs" by (simp add: hex_text_def)
  with write_hex_transmits[OF fd w] w show ?thesis
    using hex_text_value[of hex] by (intro exI[of _ ?cs]) auto
qed

theorem write_hex_roundtrip_witness:
  "\<exists>cs es. write_hex one_slot_env 2 0xCAFE sample_machine
      = Some (logged es sample_machine)
    \<and> transmits (c_str ''0x'' @ cs) es \<and> length cs = 8 \<and> hex_value cs = 0xCAFE"
  by (rule write_hex_roundtrip) simp_all

end
