(* ===== verification/Printf.thy ===== *)
theory Printf
  imports Uart
begin

unbundle bit_operations_syntax

text \<open>
  The formatter of \<open>libwrap/sys/printf.c\<close>. A C string is the list of its characters, the
  final NUL left out: reading past the end of the list reads 0. The variable arguments are a list
  of tagged values, and \<open>va_arg\<close> with the wrong type, or with no argument left, is
  \<open>None\<close>. \<open>putch\<close> is a parameter, as in the code.
\<close>

section \<open>Arguments and numbers\<close>

datatype va = VInt u32 | VStr "u8 list option"

definition va_int :: "va list \<Rightarrow> (u32 \<times> va list) option" where
  "va_int args = (case args of VInt v # rest \<Rightarrow> Some (v, rest) | _ \<Rightarrow> None)"

definition va_str :: "va list \<Rightarrow> (u8 list option \<times> va list) option" where
  "va_str args = (case args of VStr p # rest \<Rightarrow> Some (p, rest) | _ \<Rightarrow> None)"

text \<open>\<open>long\<close> and \<open>int\<close> have the same width, so both branches read the same word.\<close>

definition getuint :: "va list \<Rightarrow> bool \<Rightarrow> (u32 \<times> va list) option" where
  "getuint args lflag = (if lflag then va_int args else va_int args)"

definition getint :: "va list \<Rightarrow> bool \<Rightarrow> (u32 \<times> va list) option" where
  "getint args lflag = (if lflag then va_int args else va_int args)"

text \<open>The range of an \<open>int\<close>, and the \<open>int\<close> a wider result is stored in.\<close>

definition int_range :: "int \<Rightarrow> bool" where
  "int_range i \<longleftrightarrow> - (2 ^ 31) \<le> i \<and> i < 2 ^ 31"

definition int_of_size :: "int \<Rightarrow> int" where
  "int_of_size i = sint (word_of_int i :: u32)"

text \<open>
  The digit loop fills \<open>digs[]\<close>, lowest digit first; \<open>room\<close> is the number of
  entries still free. Writing past the array, or dividing by a zero base, has no result.
\<close>

fun dig_loop :: "nat \<Rightarrow> u32 \<Rightarrow> u32 \<Rightarrow> u32 list option" where
  "dig_loop 0 num base = None"
| "dig_loop (Suc room) num base =
     (if base = 0 then None
      else if num < base then Some [num mod base]
      else do { ds \<leftarrow> dig_loop room (num div base) base; Some (num mod base # ds) })"

definition digit_char :: "u32 \<Rightarrow> u32" where
  "digit_char d = d + (if 10 \<le> d then of_char CHR ''a'' - 10 else of_char CHR ''0'')"

text \<open>
  The padding loop tests \<open>width-- > pos\<close>, so it decrements \<open>width\<close> once more than it
  prints; at the smallest \<open>int\<close> that decrement has no result.
\<close>

definition printnum ::
  "(u32 \<Rightarrow> 's \<Rightarrow> 's option) \<Rightarrow> u32 \<Rightarrow> u32 \<Rightarrow> int \<Rightarrow> u8 \<Rightarrow> 's \<Rightarrow> 's option" where
  "printnum putch num base width padc st = do {
     digs \<leftarrow> dig_loop 32 num base;
     st \<leftarrow> run_all putch (replicate (nat (width - int (length digs))) (ucast padc)) st;
     (if width = - (2 ^ 31) then None else run_all putch (map digit_char (rev digs)) st) }"

section \<open>Flags, width and precision\<close>

record spec =
  padc :: u8
  width :: int
  precision :: int
  lflag :: bool
  altflag :: bool

definition init_spec :: spec where
  "init_spec = \<lparr>padc = of_char CHR '' '', width = -1, precision = -1, lflag = False, altflag = False\<rparr>"

text \<open>
  \<open>for (precision = 0; ; ++fmt)\<close>: \<open>ch\<close> is the digit read last, \<open>fmt\<close> what
  follows it. An \<open>int\<close> overflow has no result.
\<close>

fun width_loop :: "int \<Rightarrow> u8 \<Rightarrow> u8 list \<Rightarrow> (int \<times> u8 list) option" where
  "width_loop p ch fmt =
     (if 2147483647 < p * 10 + uint ch then None
      else let p = p * 10 + uint ch - 48 in
        case fmt of
          [] \<Rightarrow> Some (p, fmt)
        | c # cs \<Rightarrow> if c < of_char CHR ''0'' \<or> of_char CHR ''9'' < c then Some (p, fmt)
                    else width_loop p c cs)"

declare width_loop.simps [simp del]

definition process_precision :: "spec \<Rightarrow> spec" where
  "process_precision sp =
     (if width sp < 0 then sp\<lparr>width := precision sp, precision := -1\<rparr> else sp)"

lemma width_loop_length: "width_loop p ch fmt = Some (q, rest) \<Longrightarrow> length rest \<le> length fmt"
proof (induction fmt arbitrary: p ch)
  case Nil
  then show ?case
    by (subst (asm) width_loop.simps) (auto simp: Let_def split: if_splits)
next
  case (Cons c cs)
  from Cons.prems show ?case
    by (subst (asm) width_loop.simps) (auto simp: Let_def split: if_splits dest: Cons.IH)
qed

text \<open>
  The loop through the label \<open>reswitch\<close>: it collects flags until a conversion character,
  which it returns with the rest of the format. The end of the string reads as character 0.
\<close>

function reswitch :: "spec \<Rightarrow> u8 list \<Rightarrow> va list \<Rightarrow> (spec \<times> u8 \<times> u8 list \<times> va list) option" where
  "reswitch sp fmt args =
     (case fmt of
        [] \<Rightarrow> Some (sp, 0, [], args)
      | ch # fmt \<Rightarrow>
          if ch = of_char CHR ''-'' then reswitch (sp\<lparr>padc := of_char CHR ''-''\<rparr>) fmt args
          else if ch = of_char CHR ''0'' then reswitch (sp\<lparr>padc := of_char CHR ''0''\<rparr>) fmt args
          else if of_char CHR ''1'' \<le> ch \<and> ch \<le> of_char CHR ''9'' then
            (case width_loop 0 ch fmt of
               None \<Rightarrow> None
             | Some (p, rest) \<Rightarrow> reswitch (process_precision (sp\<lparr>precision := p\<rparr>)) rest args)
          else if ch = of_char CHR ''*'' then
            (case va_int args of
               None \<Rightarrow> None
             | Some (v, args) \<Rightarrow> reswitch (process_precision (sp\<lparr>precision := sint v\<rparr>)) fmt args)
          else if ch = of_char CHR ''.'' then
            reswitch (if width sp < 0 then sp\<lparr>width := 0\<rparr> else sp) fmt args
          else if ch = of_char CHR ''#'' then reswitch (sp\<lparr>altflag := True\<rparr>) fmt args
          else if ch = of_char CHR ''l'' \<and> \<not> lflag sp then reswitch sp fmt args
          else Some (sp, ch, fmt, args))"
  by pat_completeness auto
termination
  by (relation "measure (\<lambda>(sp, fmt, args). length fmt)")
    (auto dest: width_loop_length)

declare reswitch.simps [simp del]

section \<open>Conversions\<close>

definition strnlen :: "u8 list \<Rightarrow> nat \<Rightarrow> nat" where
  "strnlen p n = min (length (takeWhile (\<lambda>c. c \<noteq> 0) p)) n"

text \<open>The loop counts \<open>width\<close> down after each character; below the smallest \<open>int\<close> it has no result.\<close>

fun str_loop :: "(u32 \<Rightarrow> 's \<Rightarrow> 's option) \<Rightarrow> int \<Rightarrow> int \<Rightarrow> u8 list \<Rightarrow> 's \<Rightarrow> (int \<times> 's) option" where
  "str_loop putch prec w [] st = Some (w, st)"
| "str_loop putch prec w (c # p) st =
     (if c \<noteq> 0 \<and> (prec < 0 \<or> 0 \<le> prec - 1)
      then do { st \<leftarrow> putch (ucast c) st;
                if w \<le> - (2 ^ 31) then None else
                str_loop putch (if prec < 0 then prec else prec - 1) (w - 1) p st }
      else Some (w, st))"

text \<open>
  The case \<open>'s'\<close>; the precision is converted to \<open>size_t\<close> for \<open>strnlen\<close>, and
  \<open>width\<close> takes the difference as an \<open>int\<close>.
\<close>

definition printstr :: "(u32 \<Rightarrow> 's \<Rightarrow> 's option) \<Rightarrow> spec \<Rightarrow> u8 list \<Rightarrow> 's \<Rightarrow> 's option" where
  "printstr putch sp p st = do {
     (w, st) \<leftarrow>
       (if 0 < width sp \<and> padc sp \<noteq> of_char CHR ''-'' then
          let w = int_of_size (width sp - int (strnlen p (unat (word_of_int (precision sp) :: u32))))
          in do { st \<leftarrow> run_all putch (replicate (nat w) (ucast (padc sp))) st;
                  Some (if 0 < w then 0 else w, st) }
        else Some (width sp, st));
     (w, st) \<leftarrow> str_loop putch (precision sp) w p st;
     run_all putch (replicate (nat w) (of_char CHR '' '')) st }"

text \<open>
  The cases of the switch that end a conversion. The flag of the result says that the code went to
  \<open>bad\<close>, which prints a percent sign and goes back to the character after it.
\<close>

definition convert ::
  "(u32 \<Rightarrow> 's \<Rightarrow> 's option) \<Rightarrow> spec \<Rightarrow> u8 \<Rightarrow> va list \<Rightarrow> 's \<Rightarrow> (bool \<times> va list \<times> 's) option" where
  "convert putch sp ch args st =
     (if ch = of_char CHR ''c'' then do {
        (v, args) \<leftarrow> va_int args;
        st \<leftarrow> putch v st;
        Some (False, args, st) }
      else if ch = of_char CHR ''f'' then Some (False, args, st)
      else if ch = of_char CHR ''s'' then do {
        (p, args) \<leftarrow> va_str args;
        st \<leftarrow> printstr putch sp (case p of None \<Rightarrow> c_str ''(null)'' | Some p \<Rightarrow> p) st;
        Some (False, args, st) }
      else if ch = of_char CHR ''d'' then do {
        (num, args) \<leftarrow> getint args (lflag sp);
        (num, st) \<leftarrow>
          (if sint num < 0 then do {
             st \<leftarrow> putch (of_char CHR ''-'') st;
             (if num = 0x80000000 then None else Some (- num, st)) }
           else Some (num, st));
        st \<leftarrow> printnum putch num 10 (width sp) (padc sp) st;
        Some (False, args, st) }
      else if ch = of_char CHR ''u'' then do {
        (num, args) \<leftarrow> getuint args (lflag sp);
        st \<leftarrow> printnum putch num 10 (width sp) (padc sp) st;
        Some (False, args, st) }
      else if ch = of_char CHR ''o'' then do {
        (num, args) \<leftarrow> getuint args (lflag sp);
        st \<leftarrow> printnum putch num 8 (width sp) (padc sp) st;
        Some (False, args, st) }
      else if ch = of_char CHR ''p'' then do {
        st \<leftarrow> putch (of_char CHR ''0'') st;
        st \<leftarrow> putch (of_char CHR ''x'') st;
        (num, args) \<leftarrow> getuint args True;
        st \<leftarrow> printnum putch num 16 (width sp) (padc sp) st;
        Some (False, args, st) }
      else if ch = of_char CHR ''x'' then do {
        (num, args) \<leftarrow> getuint args (lflag sp);
        st \<leftarrow> printnum putch num 16 (width sp) (padc sp) st;
        Some (False, args, st) }
      else if ch = of_char CHR ''%'' then do {
        st \<leftarrow> putch (ucast ch) st;
        Some (False, args, st) }
      else do {
        st \<leftarrow> putch (of_char CHR ''%'') st;
        Some (True, args, st) })"

section \<open>The formatter\<close>

lemma reswitch_length: "reswitch sp fmt args = Some (sp', ch, rest, args') \<Longrightarrow> length rest \<le> length fmt"
proof (induction fmt arbitrary: sp args rule: length_induct)
  case (1 fmt)
  then have IH: "length rest \<le> length ys"
    if "reswitch sq ys as = Some (sp', ch, rest, args')" "length ys < length fmt" for sq ys as
    using that by blast
  show ?case
  proof (cases fmt)
    case Nil
    with "1.prems" show ?thesis by (subst (asm) reswitch.simps) simp
  next
    case (Cons c cs)
    then have "length rest \<le> length cs"
      if "reswitch sq ys as = Some (sp', ch, rest, args')" "length ys \<le> length cs" for sq ys as
      using IH[of sq ys as] that by simp
    with "1.prems" Cons show ?thesis
      by (subst (asm) reswitch.simps)
        (fastforce split: if_splits option.splits prod.splits dest: width_loop_length)
  qed
qed

function vprintfmt :: "(u32 \<Rightarrow> 's \<Rightarrow> 's option) \<Rightarrow> u8 list \<Rightarrow> va list \<Rightarrow> 's \<Rightarrow> 's option" where
  "vprintfmt putch fmt args st =
     (case fmt of
        [] \<Rightarrow> Some st
      | ch # fmt \<Rightarrow>
          if ch = 0 then Some st
          else if ch \<noteq> of_char CHR ''%'' then
            (case putch (ucast ch) st of None \<Rightarrow> None | Some st \<Rightarrow> vprintfmt putch fmt args st)
          else
            (case reswitch init_spec fmt args of
               None \<Rightarrow> None
             | Some (sp, cv, rest, args) \<Rightarrow>
                 (case convert putch sp cv args st of
                    None \<Rightarrow> None
                  | Some (bad, args, st) \<Rightarrow> vprintfmt putch (if bad then fmt else rest) args st)))"
  by pat_completeness auto
termination
  by (relation "measure (\<lambda>(putch, fmt, args, st). length fmt)")
    (auto dest: reswitch_length)

declare vprintfmt.simps [simp del]

definition wrap_printf :: "env \<Rightarrow> u8 list \<Rightarrow> va list \<Rightarrow> machine \<Rightarrow> (u32 \<times> machine) option" where
  "wrap_printf E fmt args s = do {
     s \<leftarrow> vprintfmt (console_putch E) fmt args s;
     Some (0, s) }"

text \<open>\<open>sprintf_putch\<close> stores through the pointer and advances it: the state is what it has written.\<close>

definition sprintf_putch :: "u32 \<Rightarrow> u8 list \<Rightarrow> u8 list option" where
  "sprintf_putch ch buf = Some (buf @ [ucast ch])"

definition wrap_sprintf :: "u8 list \<Rightarrow> va list \<Rightarrow> (u32 \<times> u8 list) option" where
  "wrap_sprintf fmt args = do {
     buf \<leftarrow> vprintfmt sprintf_putch fmt args [];
     Some (of_nat (length buf), buf @ [0]) }"

interpretation buffer: plain_sink sprintf_putch "\<lambda>buf. buf" "\<lambda>_. True"
  by unfold_locales (auto simp: sprintf_putch_def)

end
