(* ===== verification/Format.thy ===== *)
theory Format
  imports Printf
begin

text \<open>
  What a format string means, written down without the loops of \<open>libwrap/sys/printf.c\<close>: the
  items between a percent sign and its conversion character, the field they ask for, the text of a
  number by positional notation, the text of a string, and the output of a whole format. Nothing
  here uses a function of the formatter's model; only the type of its arguments is shared.
\<close>

section \<open>The items of a conversion\<close>

datatype item = Pad u8 | Number int | Point | Alternate | Long

definition digit :: "u8 \<Rightarrow> bool" where
  "digit c \<longleftrightarrow> of_char CHR ''0'' \<le> c \<and> c \<le> of_char CHR ''9''"

text \<open>The number a text of decimal digits stands for.\<close>

definition dec_value :: "u8 list \<Rightarrow> nat" where
  "dec_value cs = foldl (\<lambda>v c. v * 10 + (unat c - 48)) 0 cs"

text \<open>
  The items of a conversion, its conversion character, the format after it and the arguments left.
  A digit from 1 to 9 starts a number, which goes on to the last digit; \<open>*\<close> takes its number
  from the arguments. There is no result when a number is too large to be read in an \<open>int\<close>,
  which happens 48 below the largest one, or when an argument is missing.
\<close>

function items :: "u8 list \<Rightarrow> va list \<Rightarrow> (item list \<times> u8 \<times> u8 list \<times> va list) option" where
  "items fmt args =
     (case fmt of
        [] \<Rightarrow> Some ([], 0, [], args)
      | c # cs \<Rightarrow>
          if c = of_char CHR ''-'' \<or> c = of_char CHR ''0'' then map_option (apfst ((#) (Pad c))) (items cs args)
          else if c = of_char CHR ''.'' then map_option (apfst ((#) Point)) (items cs args)
          else if c = of_char CHR ''#'' then map_option (apfst ((#) Alternate)) (items cs args)
          else if c = of_char CHR ''l'' then map_option (apfst ((#) Long)) (items cs args)
          else if c = of_char CHR ''*'' then
            (case args of
               VInt v # rest \<Rightarrow> map_option (apfst ((#) (Number (sint v)))) (items cs rest)
             | _ \<Rightarrow> None)
          else if digit c then
            (let n = dec_value (c # takeWhile digit cs)
             in if 2147483647 < int n + 48 then None
                else map_option (apfst ((#) (Number (int n)))) (items (dropWhile digit cs) args))
          else Some ([], c, cs, args))"
  by pat_completeness auto
termination
  by (relation "measure (\<lambda>(fmt, args). length fmt)") (auto simp: length_dropWhile_le le_imp_less_Suc)

declare items.simps [simp del]

lemma items_length: "items fmt args = Some (is, c, rest, args') \<Longrightarrow> length rest \<le> length fmt"
proof (induction fmt arbitrary: "is" args rule: length_induct)
  case (1 fmt)
  show ?case
  proof (cases fmt)
    case Nil
    with "1.prems" show ?thesis by (subst (asm) items.simps) simp
  next
    case (Cons k cs)
    then have IH: "length rest \<le> length cs"
      if "items ys as = Some (js, c, rest, args')" "length ys \<le> length cs" for js ys as
      using "1.IH"[rule_format, OF _ that(1)] that(2) by simp
    have "length (dropWhile digit cs) \<le> length cs" by (rule length_dropWhile_le)
    with "1.prems" Cons show ?thesis
      by (subst (asm) items.simps)
        (auto simp: Let_def split: if_splits list.splits va.splits dest!: IH)
  qed
qed

section \<open>The field\<close>

definition pad_of :: "item list \<Rightarrow> u8" where
  "pad_of is = last (of_char CHR '' '' # concat (map (\<lambda>i. case i of Pad c \<Rightarrow> [c] | _ \<Rightarrow> []) is))"

definition numbers :: "item list \<Rightarrow> int list" where
  "numbers is = concat (map (\<lambda>i. case i of Number n \<Rightarrow> [n] | _ \<Rightarrow> []) is)"

text \<open>
  The width is fixed by the first item that is not negative, a point counting as width 0; before
  it, and when there is none, the last negative number stands. The precision is the last number
  after the width.
\<close>

definition negative_item :: "item \<Rightarrow> bool" where
  "negative_item i \<longleftrightarrow> (case i of Number n \<Rightarrow> n < 0 | Point \<Rightarrow> False | _ \<Rightarrow> True)"

definition width_of :: "item list \<Rightarrow> int" where
  "width_of is =
     (case dropWhile negative_item is of
        [] \<Rightarrow> last (-1 # numbers is)
      | i # _ \<Rightarrow> (case i of Number n \<Rightarrow> n | _ \<Rightarrow> 0))"

definition precision_of :: "item list \<Rightarrow> int" where
  "precision_of is = (case dropWhile negative_item is of [] \<Rightarrow> -1 | _ # js \<Rightarrow> last (-1 # numbers js))"

section \<open>The text of a conversion\<close>

text \<open>Positional notation: as many digits as the number needs, the highest first.\<close>

definition digit_count :: "int \<Rightarrow> int \<Rightarrow> nat" where
  "digit_count b n = Suc (length (takeWhile (\<lambda>i. b ^ i \<le> n) [1..<32]))"

definition number_text :: "int \<Rightarrow> int \<Rightarrow> u8 list" where
  "number_text b n =
     map (\<lambda>i. c_str ''0123456789abcdef'' ! nat (n div b ^ i mod b)) (rev [0..<digit_count b n])"

text \<open>
  A number is padded on the left, with whatever the pad character is. A field of the smallest
  \<open>int\<close> has no result.
\<close>

definition number_field :: "u8 \<Rightarrow> int \<Rightarrow> int \<Rightarrow> int \<Rightarrow> u8 list option" where
  "number_field pad w b n =
     (if w = - (2 ^ 31) then None
      else Some (replicate (nat (w - int (length (number_text b n)))) pad @ number_text b n))"

definition str_body :: "int \<Rightarrow> u8 list \<Rightarrow> u8 list" where
  "str_body prec p =
     (let q = takeWhile (\<lambda>c. c \<noteq> 0) p in if prec < 0 then q else take (nat prec) q)"

text \<open>
  A string is padded on the right with spaces after the flag \<open>-\<close>, and otherwise on the left.
  The length that is subtracted from the width is counted up to the precision as an unsigned
  number; there is no result when the characters of the string count the width down below the
  smallest \<open>int\<close>.
\<close>

definition text_field :: "u8 \<Rightarrow> int \<Rightarrow> int \<Rightarrow> u8 list \<Rightarrow> u8 list option" where
  "text_field pad w prec p =
     (let body = str_body prec p;
          counted = min (int (length (takeWhile (\<lambda>c. c \<noteq> 0) p))) (prec mod 2 ^ 32);
          lead = 0 < w \<and> pad \<noteq> of_char CHR ''-'';
          room = sint (word_of_int (w - counted) :: u32);
          left = (if lead then min 0 room else w) - int (length body)
      in if body \<noteq> [] \<and> left < - (2 ^ 31) then None
         else Some ((if lead then replicate (nat room) pad else []) @ body
                @ replicate (nat left) (of_char CHR '' '')))"

text \<open>
  The output of a conversion, with the arguments left; the flag says that the conversion is not
  known, and then the text after the percent sign is printed as it stands.
\<close>

definition conversion :: "item list \<Rightarrow> u8 \<Rightarrow> va list \<Rightarrow> (bool \<times> va list \<times> u32 list) option" where
  "conversion is c args =
     (let number = (\<lambda>sign b n rest. map_option (\<lambda>ds. (False, rest, map ucast (c_str sign @ ds)))
                      (number_field (pad_of is) (width_of is) b n))
      in if c = of_char CHR ''c'' then
           (case args of VInt v # rest \<Rightarrow> Some (False, rest, [v]) | _ \<Rightarrow> None)
         else if c = of_char CHR ''d'' then
           (case args of
              VInt v # rest \<Rightarrow>
                if sint v = - (2 ^ 31) then None
                else number (if sint v < 0 then ''-'' else '''') 10 \<bar>sint v\<bar> rest
            | _ \<Rightarrow> None)
         else if c \<in> of_char ` {CHR ''u'', CHR ''o'', CHR ''x'', CHR ''p''} then
           (case args of
              VInt v # rest \<Rightarrow>
                number (if c = of_char CHR ''p'' then ''0x'' else '''')
                  (if c = of_char CHR ''u'' then 10 else if c = of_char CHR ''o'' then 8 else 16)
                  (uint v) rest
            | _ \<Rightarrow> None)
         else if c = of_char CHR ''s'' then
           (case args of
              VStr p # rest \<Rightarrow>
                map_option (\<lambda>cs. (False, rest, map ucast cs))
                  (text_field (pad_of is) (width_of is) (precision_of is)
                     (case p of None \<Rightarrow> c_str ''(null)'' | Some p \<Rightarrow> p))
            | _ \<Rightarrow> None)
         else if c = of_char CHR ''f'' then Some (False, args, [])
         else Some (c \<noteq> of_char CHR ''%'', args, [of_char CHR ''%'']))"

section \<open>The text of a format\<close>

function format_chars :: "u8 list \<Rightarrow> va list \<Rightarrow> u32 list option" where
  "format_chars fmt args =
     (case fmt of
        [] \<Rightarrow> Some []
      | ch # fmt \<Rightarrow>
          if ch = 0 then Some []
          else if ch \<noteq> of_char CHR ''%'' then map_option ((#) (ucast ch)) (format_chars fmt args)
          else
            (case items fmt args of
               None \<Rightarrow> None
             | Some (is, cv, rest, args) \<Rightarrow>
                 (case conversion is cv args of
                    None \<Rightarrow> None
                  | Some (unknown, args, cs) \<Rightarrow>
                      map_option ((@) cs) (format_chars (if unknown then fmt else rest) args))))"
  by pat_completeness auto
termination
  by (relation "measure (\<lambda>(fmt, args). length fmt)") (auto dest: items_length)

declare format_chars.simps [simp del]

end
