(* ===== verification/PrintfSpec.thy ===== *)
theory PrintfSpec
  imports Format
begin

unbundle bit_operations_syntax

text \<open>
  The refinement of \<open>vprintfmt\<close> to what a format means, \<open>format_chars\<close> of \<open>Format\<close>:
  whatever the sink does, the formatter hands it exactly those characters, in order, and never
  looks at the sink. The flags collected at \<open>reswitch\<close> are the items, the digit loop is
  positional notation, and the padding loops are the fields.
\<close>

section \<open>Reading the items\<close>

fun apply_item :: "item \<Rightarrow> spec \<Rightarrow> spec" where
  "apply_item (Pad c) sp = sp\<lparr>padc := c\<rparr>"
| "apply_item (Number n) sp = process_precision (sp\<lparr>precision := n\<rparr>)"
| "apply_item Point sp = (if width sp < 0 then sp\<lparr>width := 0\<rparr> else sp)"
| "apply_item Alternate sp = sp\<lparr>altflag := True\<rparr>"
| "apply_item Long sp = sp"

lemma lflag_apply_item [simp]: "lflag (apply_item i sp) = lflag sp"
  by (cases i) (auto simp: process_precision_def)

lemma foldl_dec_ge: "v \<le> foldl (\<lambda>v c. v * 10 + (unat c - 48)) v (cs :: u8 list)"
proof (induction cs arbitrary: v)
  case (Cons c cs)
  have "v \<le> v * 10 + (unat c - 48)" by simp
  also note Cons.IH
  finally show ?case by simp
qed simp

lemma width_loop_run:
  assumes "digit ch"
  shows "width_loop (int p) ch fmt =
    (let n = foldl (\<lambda>v c. v * 10 + (unat c - 48)) p (ch # takeWhile digit fmt)
     in if 2147483647 < int n + 48 then None else Some (int n, dropWhile digit fmt))"
  using assms
proof (induction fmt arbitrary: p ch)
  case Nil
  then have "48 \<le> unat ch" by (simp add: digit_def word_le_nat_alt)
  then have "int p * 10 + uint ch = int (p * 10 + (unat ch - 48)) + 48" by simp
  then show ?case by (subst width_loop.simps) (simp add: Let_def)
next
  case (Cons c cs)
  then have ge: "48 \<le> unat ch" by (simp add: digit_def word_le_nat_alt)
  then have eq: "int p * 10 + uint ch = int (p * 10 + (unat ch - 48)) + 48" by simp
  have nd: "(c < 48 \<or> 57 < c) = (\<not> digit c)" by (auto simp: digit_def)
  show ?case
  proof (cases "digit c")
    case False
    then show ?thesis
      by (subst width_loop.simps) (simp add: Let_def eq nd del: of_nat_add of_nat_mult of_nat_diff de_Morgan_disj)
  next
    case True
    note le = foldl_dec_ge[of "p * 10 + (unat ch - 48)" "c # takeWhile digit cs"]
    from True le show ?thesis
      by (subst width_loop.simps)
        (simp add: Let_def eq nd Cons.IH[OF True] del: of_nat_add of_nat_mult of_nat_diff de_Morgan_disj)
  qed
qed

lemma width_loop_dec:
  "digit ch \<Longrightarrow> width_loop 0 ch fmt =
    (let n = dec_value (ch # takeWhile digit fmt)
     in if 2147483647 < int n + 48 then None else Some (int n, dropWhile digit fmt))"
  using width_loop_run[of ch 0 fmt] by (simp add: dec_value_def)

lemma lflag_process_precision [simp]: "lflag (process_precision sp) = lflag sp"
  by (simp add: process_precision_def)

lemma digit_range: "49 \<le> c \<and> c \<le> 57 \<longleftrightarrow> digit c \<and> c \<noteq> 48"
proof -
  have "c \<noteq> 48 \<longleftrightarrow> unat c \<noteq> 48" by (auto simp: word_unat_eq_iff)
  then show ?thesis by (auto simp: digit_def word_le_nat_alt)
qed

lemma apply_items_Cons:
  "map_option (apfst (\<lambda>is. fold apply_item is sp)) (map_option (apfst ((#) i)) x)
     = map_option (apfst (\<lambda>is. fold apply_item is (apply_item i sp))) x"
  by (cases x) auto

lemma reswitch_items:
  "\<not> lflag sp \<Longrightarrow> reswitch sp fmt args =
    map_option (apfst (\<lambda>is. fold apply_item is sp)) (items fmt args)"
proof (induction fmt arbitrary: sp args rule: length_induct)
  case (1 fmt)
  show ?case
  proof (cases fmt)
    case Nil
    then show ?thesis by (simp add: reswitch.simps[of _ "[]"] items.simps[of "[]"])
  next
    case (Cons c cs)
    have IH: "reswitch sq ys as = map_option (apfst (\<lambda>is. fold apply_item is sq)) (items ys as)"
      if "\<not> lflag sq" "length ys \<le> length cs" for sq ys as
      using "1.IH" Cons that by simp
    have len: "length (dropWhile digit cs) \<le> length cs" by (rule length_dropWhile_le)
    note simps = reswitch.simps[of _ "k # cs" for k] items.simps[of "k # cs" for k] IH len "1.prems"
      apply_items_Cons width_loop_dec digit_range
    have nd: "\<not> digit 42" "\<not> digit 46" "\<not> digit 35" "\<not> digit 108" by (simp_all add: digit_def)
    consider "c = 45" | "c = 48" | "c = 42" | "c = 46" | "c = 35" | "c = 108"
      | "c \<notin> {45, 48, 42, 46, 35, 108}" "digit c" | "c \<notin> {45, 48, 42, 46, 35, 108}" "\<not> digit c" by blast
    then show ?thesis
    proof cases
      case 3
      then show ?thesis unfolding Cons
        by (auto simp: simps nd va_int_def split: list.split va.split)
    next
      case 7
      then show ?thesis unfolding Cons by (simp add: simps Let_def)
    qed (use Cons in \<open>auto simp: simps nd\<close>)
  qed
qed
text \<open>The field that the items set.\<close>

lemma padc_items: "padc (fold apply_item is sp) = last (padc sp # concat (map (\<lambda>i. case i of Pad c \<Rightarrow> [c] | _ \<Rightarrow> []) is))"
proof (induction "is" arbitrary: sp)
  case (Cons i "is")
  then show ?case by (cases i) (auto simp: process_precision_def)
qed simp

lemma numbers_simps [simp]:
  "numbers [] = []"
  "numbers (i # is) = (case i of Number n \<Rightarrow> [n] | _ \<Rightarrow> []) @ numbers is"
  by (simp_all add: numbers_def)

lemma negative_item_simps [simp]:
  "negative_item (Pad c)" "negative_item Alternate" "negative_item Long"
  "\<not> negative_item Point" "negative_item (Number n) \<longleftrightarrow> n < 0"
  by (simp_all add: negative_item_def)

lemma field_items_fixed:
  "0 \<le> width sp \<Longrightarrow> width (fold apply_item is sp) = width sp
     \<and> precision (fold apply_item is sp) = last (precision sp # numbers is)"
proof (induction "is" arbitrary: sp)
  case (Cons i "is")
  then show ?case by (cases i) (auto simp: process_precision_def)
qed simp

lemma field_items:
  "width sp < 0 \<Longrightarrow> precision sp = -1 \<Longrightarrow>
     width (fold apply_item is sp) =
       (case dropWhile negative_item is of
          [] \<Rightarrow> last (width sp # numbers is)
        | i # _ \<Rightarrow> (case i of Number n \<Rightarrow> n | _ \<Rightarrow> 0))
     \<and> precision (fold apply_item is sp) =
       (case dropWhile negative_item is of [] \<Rightarrow> -1 | _ # js \<Rightarrow> last (-1 # numbers js))"
proof (induction "is" arbitrary: sp)
  case (Cons i "is")
  show ?case
  proof (cases "negative_item i")
    case True
    with Cons show ?thesis
      by (cases i) (auto simp: process_precision_def cong: list.case_cong)
  next
    case False
    with Cons.prems show ?thesis
      by (cases i) (auto simp: process_precision_def field_items_fixed cong: list.case_cong)
  qed
qed simp

lemma init_spec_simps:
  "padc init_spec = 32" "width init_spec = -1" "precision init_spec = -1" "lflag init_spec = False"
  by (simp_all add: init_spec_def)

lemma spec_of_items:
  "padc (fold apply_item is init_spec) = pad_of is"
  "width (fold apply_item is init_spec) = width_of is"
  "precision (fold apply_item is init_spec) = precision_of is"
  "lflag (fold apply_item is init_spec) = lflag init_spec"
proof -
  show "lflag (fold apply_item is init_spec) = lflag init_spec"
    by (induction "is" rule: rev_induct) simp_all
qed (use field_items[of init_spec "is"] padc_items[of "is" init_spec]
    in \<open>simp_all add: pad_of_def width_of_def precision_of_def init_spec_simps cong: list.case_cong\<close>)

section \<open>Positional notation\<close>

lemma digit_count_bounds:
  assumes "2 \<le> b" "0 < k" "k \<le> 32" "n < b ^ k" "k = 1 \<or> b ^ (k - 1) \<le> n"
  shows "digit_count b n = k"
proof -
  have "b ^ i \<le> n \<longleftrightarrow> i < k" if "0 < i" for i
  proof
    assume "b ^ i \<le> n"
    then have "b ^ i < b ^ k" using assms(4) by simp
    then show "i < k" using assms(1) by (simp add: power_strict_increasing_iff)
  next
    assume "i < k"
    then have "b ^ i \<le> b ^ (k - 1)" using assms(1) by (intro power_increasing) auto
    then show "b ^ i \<le> n" using assms(5) that \<open>i < k\<close> by auto
  qed
  then have "takeWhile (\<lambda>i. b ^ i \<le> n) [1..<32] = takeWhile (\<lambda>i. i < k) [1..<32]"
    by (intro takeWhile_cong) auto
  moreover have "[1..<32] = [1..<k] @ [k..<32]"
    using assms(2,3) by (metis upt_add_eq_append Suc_leI le_add_diff_inverse One_nat_def)
  moreover have "takeWhile (\<lambda>i. i < k) ([1..<k] @ [k..<32]) = [1..<k]"
    by (subst takeWhile_append2) (auto simp: takeWhile_eq_Nil_iff upt_conv_Cons)
  ultimately have "takeWhile (\<lambda>i. b ^ i \<le> n) [1..<32] = [1..<k]" by metis
  then show ?thesis using assms(2) by (simp add: digit_count_def)
qed

lemma digits_positional:
  assumes "dig_loop room num base = Some ds" "2 \<le> base"
  shows "ds \<noteq> [] \<and> ds = map (\<lambda>i. word_of_int (uint num div uint base ^ i mod uint base)) [0..<length ds]
    \<and> uint num < uint base ^ length ds \<and> (length ds = 1 \<or> uint base ^ (length ds - 1) \<le> uint num)"
  using assms(1)
proof (induction room arbitrary: num ds)
  case (Suc room)
  have b: "2 \<le> uint base" using assms(2) by (simp add: word_le_def)
  show ?case
  proof (cases "num < base")
    case True
    with Suc.prems have "ds = [num]" using assms(2) by (auto simp: mod_word_less split: if_splits)
    with True show ?thesis by (simp add: word_less_def)
  next
    case False
    with Suc.prems obtain es where es: "dig_loop room (num div base) base = Some es" "ds = num mod base # es"
      by (auto split: if_splits elim!: bind_eq_SomeE)
    note IH = Suc.IH[OF es(1)]
    have le: "uint base \<le> uint num" using False by (simp add: word_less_def)
    have d: "uint (num div base) = uint num div uint base" by (simp add: uint_div)
    have digit: "uint num div uint base div uint base ^ i = uint num div uint base ^ Suc i" for i
      using b by (simp add: zdiv_zmult2_eq)
    have mod_less: "0 \<le> uint num mod uint base" "uint num mod uint base < uint base" using b by simp_all
    have "es = map (\<lambda>i. word_of_int (uint num div uint base ^ Suc i mod uint base)) [0..<length es]"
      using IH by (simp only: d digit)
    then have "ds = map (\<lambda>i. word_of_int (uint num div uint base ^ i mod uint base)) (0 # map Suc [0..<length es])"
      using es(2) by (simp add: o_def word_arith_power_alt uint_mod[symmetric])
    then have "ds = map (\<lambda>i. word_of_int (uint num div uint base ^ i mod uint base)) [0..<length ds]"
      unfolding map_Suc_upt by (simp add: es(2) upt_conv_Cons[of 0] del: upt_Suc)
    moreover have "uint num < uint base ^ length ds"
    proof -
      have "uint num div uint base < uint base ^ length es" using IH d by simp
      then have "uint num div uint base + 1 \<le> uint base ^ length es" by simp
      then have "(uint num div uint base + 1) * uint base \<le> uint base ^ length ds"
        using b es(2) by (simp add: mult.commute mult_left_mono)
      with mod_less show ?thesis
        using div_mult_mod_eq[of "uint num" "uint base"] unfolding distrib_right by linarith
    qed
    moreover have "uint base ^ (length ds - 1) \<le> uint num"
    proof (cases "length es = 1")
      case True
      with le es(2) show ?thesis by simp
    next
      case False
      then have "uint base ^ (length es - 1) \<le> uint num div uint base" using IH d by simp
      then have "uint base ^ (length es - 1) * uint base \<le> uint num div uint base * uint base"
        using b by (simp add: mult_right_mono)
      also have "\<dots> \<le> uint num"
        using mod_less div_mult_mod_eq[of "uint num" "uint base"] by linarith
      also have "uint base ^ (length es - 1) * uint base = uint base ^ length es"
        using IH by (metis length_greater_0_conv power_minus_mult)
      finally show ?thesis using es(2) by simp
    qed
    ultimately show ?thesis using es(2) by simp
  qed
qed simp

section \<open>The characters of each conversion\<close>

definition num_chars :: "u32 \<Rightarrow> u32 \<Rightarrow> int \<Rightarrow> u8 \<Rightarrow> u32 list option" where
  "num_chars num base w pad = do {
     digs \<leftarrow> dig_loop 32 num base;
     (if w = - (2 ^ 31) then None
      else Some (replicate (nat (w - int (length digs))) (ucast pad) @ map digit_char (rev digs))) }"

definition str_chars :: "spec \<Rightarrow> u8 list \<Rightarrow> u32 list option" where
  "str_chars sp p =
     (let body = str_body (precision sp) p;
          room = int_of_size (width sp - int (strnlen p (unat (word_of_int (precision sp) :: u32))));
          lead = 0 < width sp \<and> padc sp \<noteq> of_char CHR ''-'';
          left = (if lead then min 0 room else width sp) - int (length body)
      in if body \<noteq> [] \<and> left < - (2 ^ 31) then None
         else Some ((if lead then replicate (nat room) (ucast (padc sp)) else [])
                @ map ucast body @ replicate (nat left) (of_char CHR '' '')))"

definition conv_chars :: "spec \<Rightarrow> u8 \<Rightarrow> va list \<Rightarrow> (bool \<times> va list \<times> u32 list) option" where
  "conv_chars sp ch args =
     (if ch = of_char CHR ''c'' then do { (v, args) \<leftarrow> va_int args; Some (False, args, [v]) }
      else if ch = of_char CHR ''f'' then Some (False, args, [])
      else if ch = of_char CHR ''s'' then do {
        (p, args) \<leftarrow> va_str args;
        cs \<leftarrow> str_chars sp (case p of None \<Rightarrow> c_str ''(null)'' | Some p \<Rightarrow> p);
        Some (False, args, cs) }
      else if ch = of_char CHR ''d'' then do {
        (num, args) \<leftarrow> va_int args;
        (if num = 0x80000000 then None else do {
           cs \<leftarrow> num_chars (if sint num < 0 then - num else num) 10 (width sp) (padc sp);
           Some (False, args, (if sint num < 0 then [of_char CHR ''-''] else []) @ cs) }) }
      else if ch \<in> of_char ` {CHR ''u'', CHR ''o'', CHR ''p'', CHR ''x''} then do {
        (num, args) \<leftarrow> va_int args;
        cs \<leftarrow> num_chars num
               (if ch = of_char CHR ''u'' then 10 else if ch = of_char CHR ''o'' then 8 else 16)
               (width sp) (padc sp);
        Some (False, args, (if ch = of_char CHR ''p'' then [of_char CHR ''0'', of_char CHR ''x''] else []) @ cs) }
      else Some (ch \<noteq> of_char CHR ''%'', args, [of_char CHR ''%'']))"

section \<open>Digits\<close>

text \<open>The number a digit list stands for, lowest digit first.\<close>

definition digits_value :: "u32 \<Rightarrow> u32 list \<Rightarrow> nat" where
  "digits_value base ds = foldr (\<lambda>d v. unat d + unat base * v) ds 0"

lemma digits_value_simps [simp]:
  "digits_value base [] = 0"
  "digits_value base (d # ds) = unat d + unat base * digits_value base ds"
  by (simp_all add: digits_value_def)

text \<open>No leading zero: the highest digit is 0 only in the number 0 itself.\<close>

definition normal_digits :: "u32 list \<Rightarrow> bool" where
  "normal_digits ds \<longleftrightarrow> ds \<noteq> [] \<and> (last ds \<noteq> 0 \<or> ds = [0])"

lemma dig_loop_correct:
  assumes "2 \<le> base"
  shows "unat num < 2 ^ Suc room \<Longrightarrow>
    \<exists>ds. dig_loop (Suc room) num base = Some ds \<and> digits_value base ds = unat num
      \<and> (\<forall>d\<in>set ds. d < base) \<and> normal_digits ds \<and> length ds \<le> Suc room"
proof (induction room arbitrary: num)
  case 0
  have b: "2 \<le> unat base" using assms by (simp add: word_le_nat_alt)
  then have "num < base" using 0 by (simp add: word_less_nat_alt)
  then have "num mod base = num" by (simp add: mod_word_less)
  with \<open>num < base\<close> assms show ?case by (auto simp: normal_digits_def)
next
  case (Suc room)
  have b: "2 \<le> unat base" using assms by (simp add: word_le_nat_alt)
  have nz: "base \<noteq> 0" using b by auto
  show ?case
  proof (cases "num < base")
    case True
    then have "num mod base = num" by (simp add: mod_word_less)
    with True assms show ?thesis by (auto simp: normal_digits_def)
  next
    case False
    have "unat num div unat base \<le> unat num div 2"
      using b by (simp add: div_le_mono2)
    with Suc.prems have "unat (num div base) < 2 ^ Suc room"
      by (simp add: unat_div)
    from Suc.IH[OF this] obtain ds where
      ds: "dig_loop (Suc room) (num div base) base = Some ds" "digits_value base ds = unat (num div base)"
        "\<forall>d\<in>set ds. d < base" "normal_digits ds" "length ds \<le> Suc room" by blast
    have "unat num div unat base \<noteq> 0"
      using False b by (simp add: div_eq_0_iff word_less_nat_alt)
    then have "ds \<noteq> [0]" using ds(2) by (auto simp: unat_div)
    with ds False nz show ?thesis
      by (auto simp: unat_div unat_mod normal_digits_def word_mod_less_divisor word_gt_0)
  qed
qed

section \<open>Conversions print their fields\<close>

lemma hex_digit_char:
  assumes "0 \<le> d" "d < 16"
  shows "digit_char (word_of_int d) = ucast (c_str ''0123456789abcdef'' ! nat d)"
proof -
  from assms have "d \<in> {0..<16}" by simp
  also have "{0..<16} = set [0..15::int]" by auto
  also have "\<dots> = set [0,1,2,3,4,5,6,7,8,9,10,11,12,13,14,15]" by (simp add: upto.simps)
  finally show ?thesis by (auto simp: digit_char_def word_le_nat_alt)
qed

lemma digits_number_text:
  assumes "dig_loop 32 num base = Some ds" "2 \<le> base" "base \<le> 16" "length ds \<le> 32"
  shows "map digit_char (rev ds) = map ucast (number_text (uint base) (uint num))"
proof -
  have b: "2 \<le> uint base" "uint base \<le> 16" using assms(2,3) by (simp_all add: word_le_def)
  from digits_positional[OF assms(1,2)]
  have ds: "ds = map (\<lambda>i. word_of_int (uint num div uint base ^ i mod uint base)) [0..<length ds]"
    and bounds: "0 < length ds" "uint num < uint base ^ length ds"
      "length ds = 1 \<or> uint base ^ (length ds - 1) \<le> uint num" by auto
  have count: "digit_count (uint base) (uint num) = length ds"
    using digit_count_bounds[OF b(1) bounds(1) assms(4) bounds(2,3)] .
  have m: "0 \<le> x mod uint base \<and> x mod uint base < 16" for x
    using b pos_mod_bound[of "uint base" x] pos_mod_sign[of "uint base" x] by linarith
  have "map digit_char (rev ds) = map (\<lambda>i. digit_char (word_of_int (uint num div uint base ^ i mod uint base))) (rev [0..<length ds])"
    by (subst ds) (simp add: rev_map o_def)
  also have "\<dots> = map ucast (number_text (uint base) (uint num))"
    unfolding number_text_def count map_map o_def
    by (intro map_cong refl hex_digit_char) (use m in auto)
  finally show ?thesis .
qed

lemma dig_loop_length: "dig_loop room num base = Some ds \<Longrightarrow> length ds \<le> room"
  by (induction room num base arbitrary: ds rule: dig_loop.induct)
    (fastforce split: if_splits elim!: bind_eq_SomeE)+

lemma num_chars_field:
  assumes "2 \<le> base" "base \<le> 16" "\<exists>ds. dig_loop 32 num base = Some ds"
  shows "num_chars num base w pad = map_option (map ucast) (number_field pad w (uint base) (uint num))"
proof -
  from assms(3) obtain ds where ds: "dig_loop 32 num base = Some ds" by blast
  note same = digits_number_text[OF ds assms(1,2) dig_loop_length[OF ds]]
  from arg_cong[OF same, of length] have "length ds = length (number_text (uint base) (uint num))" by simp
  with ds same show ?thesis by (auto simp: num_chars_def number_field_def)
qed

lemma str_chars_field:
  "str_chars sp p = map_option (map ucast) (text_field (padc sp) (width sp) (precision sp) p)"
proof -
  have "int (strnlen p (unat (word_of_int (precision sp) :: u32)))
    = min (int (length (takeWhile (\<lambda>c. c \<noteq> 0) p))) (precision sp mod 2 ^ 32)"
    by (simp add: strnlen_def unat_eq_nat_uint uint_word_of_int of_nat_min)
  then show ?thesis by (auto simp: str_chars_def text_field_def int_of_size_def Let_def)
qed

lemma bind_option_assoc: "Option.bind (Option.bind m f) g = Option.bind m (\<lambda>x. Option.bind (f x) g)"
  by (cases m) auto

lemma sint_min: "sint (v :: u32) = - 2147483648 \<longleftrightarrow> v = 0x80000000"
proof
  assume "sint v = - 2147483648"
  then have "sint v = sint (0x80000000 :: u32)" by simp
  then show "v = 0x80000000" by (rule signed_word_eqI)
qed simp

lemma uint_by_sign: "uint (if sint (v :: u32) < 0 then - v else v) = \<bar>sint v\<bar>"
  using sint_nonneg_u32[of v] sint_neg_u32[of v] by auto

lemma num_chars_number:
  assumes "base \<in> {8, 10, 16}"
  shows "num_chars num base w pad = map_option (map ucast) (number_field pad w (uint base) (uint num))"
proof -
  have base: "2 \<le> base" "base \<le> 16" using assms by auto
  have "unat num < 2 ^ Suc 31" using unsigned_less[of num] by simp
  from dig_loop_correct[OF base(1) this] have "\<exists>ds. dig_loop 32 num base = Some ds" by auto
  with base show ?thesis by (rule num_chars_field)
qed

lemma conv_chars_conversion:
  assumes "padc sp = pad_of is" "width sp = width_of is" "precision sp = precision_of is"
  shows "conv_chars sp c args = conversion is c args"
proof -
  have sign: "sint v < 0 \<Longrightarrow> uint (- v) = - sint v" "\<not> sint v < 0 \<Longrightarrow> uint v = sint v" for v :: u32
    using uint_by_sign[of v] by auto
  have cc: "map_option f m = do { x \<leftarrow> m; Some (f x) }" for f :: "'b \<Rightarrow> 'c" and m by (cases m) auto
  show ?thesis
    using assms
    by (auto simp: conv_chars_def conversion_def va_int_def va_str_def num_chars_number str_chars_field
        sign sint_min cc bind_option_assoc simp del: if_image_distrib split: list.splits va.splits)
qed

section \<open>Each step passes its characters to the sink\<close>

lemma printnum_chars:
  "printnum putch num base w pad st = do { cs \<leftarrow> num_chars num base w pad; run_all putch cs st }"
  by (auto simp: printnum_def num_chars_def run_all_append bind_option_assoc split: Option.bind_splits)

lemma str_loop_chars:
  "str_loop putch prec w p st =
     do { st \<leftarrow> run_all putch (map ucast (str_body prec p)) st;
          (if str_body prec p \<noteq> [] \<and> w - int (length (str_body prec p)) < - (2 ^ 31) then None
           else Some (w - int (length (str_body prec p)), st)) }"
proof (induction p arbitrary: prec w st)
  case Nil
  then show ?case by (simp add: str_body_def)
next
  case (Cons c p)
  have "str_body prec (c # p) =
    (if c \<noteq> 0 \<and> (prec < 0 \<or> 0 \<le> prec - 1) then c # str_body (if prec < 0 then prec else prec - 1) p else [])"
    by (auto simp: str_body_def Let_def take_Cons' nat_diff_distrib)
  then show ?case
    by (cases "putch (ucast c) st") (auto simp: Cons.IH algebra_simps split: Option.bind_splits)
qed

lemma printstr_chars:
  "printstr putch sp p st = do { cs \<leftarrow> str_chars sp p; run_all putch cs st }"
  by (auto simp: printstr_def str_chars_def str_loop_chars run_all_append bind_option_assoc Let_def min_def
      split: Option.bind_splits)

lemma convert_chars:
  "convert putch sp ch args st =
     do { (bad, args, cs) \<leftarrow> conv_chars sp ch args;
          st \<leftarrow> run_all putch cs st;
          Some (bad, args, st) }"
  unfolding convert_def conv_chars_def getint_def getuint_def printnum_chars printstr_chars
  by (auto simp: bind_option_assoc run_all_append split: Option.bind_splits if_splits)

section \<open>The formatter\<close>

lemma format_chars_percent:
  "format_chars (of_char CHR ''%'' # fmt) args =
     (case reswitch init_spec fmt args of
        None \<Rightarrow> None
      | Some (sp, cv, rest, args) \<Rightarrow>
          (case conv_chars sp cv args of
             None \<Rightarrow> None
           | Some (bad, args, cs) \<Rightarrow> map_option ((@) cs) (format_chars (if bad then fmt else rest) args)))"
  by (subst format_chars.simps)
    (simp add: reswitch_items init_spec_simps conv_chars_conversion[OF spec_of_items(1-3)]
      split: option.split)

lemma format_chars_Nil [simp]: "format_chars [] args = Some []"
  by (simp add: format_chars.simps)

lemma format_chars_Cons:
  "ch \<noteq> of_char CHR ''%'' \<Longrightarrow> format_chars (ch # fmt) args =
     (if ch = 0 then Some [] else map_option ((#) (ucast ch)) (format_chars fmt args))"
  by (subst format_chars.simps) simp

lemma vprintfmt_format:
  "vprintfmt putch fmt args st = do { cs \<leftarrow> format_chars fmt args; run_all putch cs st }"
proof (induction fmt arbitrary: args st rule: length_induct)
  case (1 fmt)
  show ?case
  proof (cases fmt)
    case Nil
    then show ?thesis by (simp add: vprintfmt.simps[of _ "[]"])
  next
    case (Cons ch cs)
    with 1 have IH: "vprintfmt putch ys as st = do { cs \<leftarrow> format_chars ys as; run_all putch cs st }"
      if "length ys \<le> length cs" for ys as st
      using that by simp
    show ?thesis
    proof (cases "ch = of_char CHR ''%''")
      case True
      show ?thesis
        unfolding Cons True vprintfmt.simps[of _ "of_char CHR ''%'' # cs"] format_chars_percent
        using reswitch_length[of init_spec cs args]
        by (auto simp: IH convert_chars run_all_append bind_option_assoc
            split: option.splits prod.splits Option.bind_splits)
    next
      case False
      then show ?thesis
        unfolding Cons vprintfmt.simps[of _ "ch # cs"] format_chars_Cons[OF False]
        by (auto simp: IH split: option.splits Option.bind_splits)
    qed
  qed
qed

section \<open>Plain text\<close>

definition plain :: "u8 list \<Rightarrow> bool" where
  "plain lit \<longleftrightarrow> 0 \<notin> set lit \<and> of_char CHR ''%'' \<notin> set lit"

lemma format_chars_plain:
  "plain lit \<Longrightarrow> format_chars (lit @ fmt) args = map_option ((@) (map ucast lit)) (format_chars fmt args)"
proof (induction lit)
  case Nil
  then show ?case by (simp add: option.map_id0 id_def[symmetric])
next
  case (Cons c lit)
  then show ?case
    by (simp add: plain_def format_chars.simps[of "c # _"] option.map_comp o_def)
qed

section \<open>Decimal text\<close>

definition int_value :: "u8 list \<Rightarrow> int" where
  "int_value cs =
     (case cs of c # cs' \<Rightarrow> if c = of_char CHR ''-'' then - int (dec_value cs') else int (dec_value cs)
               | [] \<Rightarrow> 0)"

lemma digit_char_dec:
  assumes "d < 10"
  shows "unat (ucast (digit_char d) :: u8) = unat d + 48"
proof -
  have "d \<in> of_nat ` {..<10}"
    using assms by (intro word_less_of_nat_cases) (simp add: word_less_nat_alt)
  then show ?thesis
    by (auto simp: lessThan_nat_numeral lessThan_Suc digit_char_def word_le_nat_alt)
qed

lemma dec_value_digits:
  assumes "\<forall>d\<in>set ds. d < 10"
  shows "dec_value (map ucast (map digit_char (rev ds))) = digits_value 10 ds"
proof -
  have "foldr (\<lambda>d v. v * 10 + (unat (ucast (digit_char d) :: u8) - 48)) ds 0 = digits_value 10 ds"
    using assms by (induction ds) (auto simp: digit_char_dec)
  then show ?thesis
    by (simp add: dec_value_def foldl_conv_foldr foldr_map o_def rev_map)
qed
lemma num_chars_dec:
  "w \<noteq> - (2 ^ 31) \<Longrightarrow> \<exists>ds. num_chars num 10 w pad = Some (replicate (nat (w - int (length ds))) (ucast pad) @ map digit_char (rev ds))
     \<and> dec_value (map ucast (map digit_char (rev ds))) = unat num \<and> normal_digits ds
     \<and> (\<forall>d\<in>set ds. d < 10) \<and> length ds \<le> 32"
proof -
  assume w: "w \<noteq> - (2 ^ 31)"
  have "unat num < 2 ^ Suc 31" using unsigned_less[of num] by simp
  from dig_loop_correct[OF _ this, of 10] obtain ds where
    "dig_loop (Suc 31) num 10 = Some ds" "digits_value 10 ds = unat num" "\<forall>d\<in>set ds. d < 10"
    "normal_digits ds" "length ds \<le> 32" by auto
  moreover from this have "dec_value (map ucast (map digit_char (rev ds))) = unat num"
    by (simp add: dec_value_digits del: map_map)
  ultimately show ?thesis using w by (auto simp: num_chars_def simp del: map_map)
qed

lemma num_chars_Some: "\<exists>cs. num_chars num 10 (-1) pad = Some cs"
  using num_chars_dec[of "-1"] by simp blast

text \<open>The text of \<open>%d\<close>.\<close>

lemma reswitch_conv:
  assumes "ch \<in> of_char ` {CHR ''d'', CHR ''u'', CHR ''x'', CHR ''s'', CHR ''c'', CHR ''o'', CHR ''p'', CHR ''f''}"
  shows "reswitch sp (ch # fmt) args = Some (sp, ch, fmt, args)"
  using assms by (subst reswitch.simps) (auto simp: word_le_nat_alt)

lemma format_chars_d:
  assumes "v \<noteq> 0x80000000"
  shows "format_chars (c_str ''%d'') [VInt v] =
    map_option ((@) (if sint v < 0 then [of_char CHR ''-''] else []))
      (num_chars (if sint v < 0 then - v else v) 10 (-1) (of_char CHR '' ''))"
  using assms num_chars_Some[of "if sint v < 0 then - v else v" "of_char CHR '' ''"]
  by (auto simp: format_chars_percent[simplified] reswitch_conv conv_chars_def va_int_def init_spec_def)

lemma digit_not_minus: "d < 10 \<Longrightarrow> ucast (digit_char d) \<noteq> (of_char CHR ''-'' :: u8)"
  using digit_char_dec[of d] by auto

lemma format_chars_d_value:
  assumes "v \<noteq> 0x80000000"
  shows "\<exists>cs. format_chars (c_str ''%d'') [VInt v] = Some cs \<and> int_value (map ucast cs) = sint v"
proof -
  let ?m = "if sint v < 0 then - v else v"
  obtain ds where nc: "num_chars ?m 10 (-1) (of_char CHR '' '') = Some (map digit_char (rev ds))"
    and val: "dec_value (map ucast (map digit_char (rev ds))) = unat ?m"
    and nd: "normal_digits ds" and lt: "\<forall>d\<in>set ds. d < 10"
    using num_chars_dec[of "-1" ?m "of_char CHR '' ''"] by (auto simp del: map_map)
  have hd: "\<exists>c cs. map ucast (map digit_char (rev ds)) = c # cs \<and> c \<noteq> (of_char CHR ''-'' :: u8)"
    using nd lt digit_not_minus by (cases ds rule: rev_cases) (auto simp: normal_digits_def)
  have "int (dec_value (map ucast (map digit_char (rev ds)))) = \<bar>sint v\<bar>"
    using val uint_by_sign[of v] by simp
  with hd have "int_value (map ucast ((if sint v < 0 then [of_char CHR ''-''] else []) @ map digit_char (rev ds))) = sint v"
    by (auto simp: int_value_def simp del: map_map)
  then show ?thesis
    unfolding format_chars_d[OF assms] nc by simp
qed

lemma wrap_sprintf_chars:
  "wrap_sprintf fmt args = map_option (\<lambda>cs. (of_nat (length cs), map ucast cs @ [0])) (format_chars fmt args)"
proof (cases "format_chars fmt args")
  case None
  then show ?thesis by (simp add: wrap_sprintf_def vprintfmt_format)
next
  case (Some cs)
  obtain t where t: "run_all sprintf_putch cs [] = Some t" using buffer.run_live[where s = "[]" and cs = cs] by auto
  from buffer.run_sent_plain[OF t] have "t = map ucast cs" by simp
  with t Some show ?thesis by (simp add: wrap_sprintf_def vprintfmt_format)
qed

lemma wrap_printf_transmits:
  assumes "wrap_printf E fmt args s = Some (r, t)"
  shows "r = 0 \<and> (\<exists>cs es. format_chars fmt args = Some cs \<and> t = logged es s \<and> transmits (crlf (map ucast cs)) es)"
proof -
  from assms obtain cs where "format_chars fmt args = Some cs" "run_all (console_putch E) cs s = Some t" "r = 0"
    by (auto simp: wrap_printf_def vprintfmt_format elim!: bind_eq_SomeE)
  with run_console_transmits[of E cs s t] show ?thesis by blast
qed

lemma wrap_printf_total:
  assumes "tx_drains E" "format_chars fmt args = Some cs"
  shows "\<exists>es. wrap_printf E fmt args s = Some (0, logged es s) \<and> transmits (crlf (map ucast cs)) es"
proof -
  from console.run_live[OF assms(1)] obtain t where t: "run_all (console_putch E) cs s = Some t" by blast
  with run_console_transmits[OF t] assms(2) show ?thesis
    by (auto simp: wrap_printf_def vprintfmt_format)
qed

section \<open>String fields\<close>

lemma strnlen_unlimited:
  assumes "length p < 2 ^ 31"
  shows "prec < 0 \<Longrightarrow> - (2 ^ 31) \<le> prec \<Longrightarrow> strnlen p (unat (word_of_int prec :: u32)) = length (str_body prec p)"
    and "0 \<le> prec \<Longrightarrow> prec < 2 ^ 31 \<Longrightarrow> strnlen p (unat (word_of_int prec :: u32)) = length (str_body prec p)"
proof -
  have "length (takeWhile (\<lambda>c. c \<noteq> 0) p) \<le> length p" by (rule length_takeWhile_le)
  with assms have len: "length (takeWhile (\<lambda>c. c \<noteq> 0) p) < 2 ^ 31" by linarith
  {
    assume neg: "prec < 0" "- (2 ^ 31) \<le> prec"
    have "uint (word_of_int prec :: u32) = prec mod 2 ^ 32" by (simp add: uint_word_of_int)
    also have "\<dots> = (prec + 2 ^ 32) mod 2 ^ 32" by simp
    also have "\<dots> = prec + 2 ^ 32" using neg by (intro mod_pos_pos_trivial) auto
    finally have "unat (word_of_int prec :: u32) = nat (prec + 2 ^ 32)"
      by (simp only: unat_eq_nat_uint)
    moreover have "length (takeWhile (\<lambda>c. c \<noteq> 0) p) \<le> nat (prec + 2 ^ 32)"
      using len neg by simp
    ultimately show "strnlen p (unat (word_of_int prec :: u32)) = length (str_body prec p)"
      using neg by (simp add: strnlen_def str_body_def)
  next
    assume pos: "0 \<le> prec" "prec < 2 ^ 31"
    then have "unat (word_of_int prec :: u32) = nat prec"
      by (simp add: unat_eq_nat_uint uint_word_of_int)
    with pos show "strnlen p (unat (word_of_int prec :: u32)) = length (str_body prec p)"
      by (simp add: strnlen_def str_body_def min.commute)
  }
qed

lemma int_of_size_id: "int_range i \<Longrightarrow> int_of_size i = i"
  by (simp add: int_of_size_def int_range_def sint_sbintrunc' signed_take_bit_int_eq_self)

lemma str_chars_text:
  assumes "length p < 2 ^ 30" "int_range (precision sp)" "- 1 \<le> width sp" "width sp < 2 ^ 31"
  shows "str_chars sp p =
    Some (let body = map ucast (str_body (precision sp) p);
              n = nat (width sp - int (length body))
          in if padc sp = of_char CHR ''-'' then body @ replicate n (of_char CHR '' '')
             else replicate n (ucast (padc sp)) @ body)"
proof -
  have p31: "length p < 2 ^ 31" using assms(1) by simp
  have len: "strnlen p (unat (word_of_int (precision sp) :: u32)) = length (str_body (precision sp) p)"
    using strnlen_unlimited[OF p31, of "precision sp"] assms(2)
    by (cases "precision sp < 0") (auto simp: int_range_def)
  have "length (str_body (precision sp) p) \<le> length (takeWhile (\<lambda>c. c \<noteq> 0) p)"
    by (auto simp: str_body_def Let_def)
  also have "\<dots> \<le> length p" by (rule length_takeWhile_le)
  finally have short: "int (length (str_body (precision sp) p)) < 2 ^ 30" using assms(1) by simp
  then have "int_of_size (width sp - int (length (str_body (precision sp) p)))
    = width sp - int (length (str_body (precision sp) p))"
    using assms(3,4) by (intro int_of_size_id) (auto simp: int_range_def)
  then show ?thesis using len short assms(3,4)
    by (auto simp: str_chars_def Let_def)
qed

section \<open>Fields of numbers\<close>

lemma dig_loop_small: "num < base \<Longrightarrow> dig_loop (Suc room) num base = Some [num]"
  by (auto simp: mod_word_less)

lemma num_chars_small:
  assumes "v < 10" "w \<noteq> - (2 ^ 31)"
  shows "num_chars v 10 w pad = Some (replicate (nat (w - 1)) (ucast pad) @ [v + 48])"
proof -
  have "\<not> 10 \<le> v" using assms by simp
  then show ?thesis
    using dig_loop_small[OF assms(1), of 31] assms(2) by (simp add: num_chars_def digit_char_def)
qed

text \<open>Two field specifications, read by \<open>reswitch\<close>.\<close>

lemma width_loop_5d: "width_loop 0 53 (100 # fmt) = Some (5, 100 # fmt)"
  by (subst width_loop.simps) simp

lemma reswitch_5d: "reswitch init_spec (c_str ''5d'') args = Some (init_spec\<lparr>width := 5\<rparr>, 100, [], args)"
  by (simp add: reswitch.simps[of _ "53 # _"] reswitch.simps[of _ "100 # _"] width_loop_5d
      init_spec_def process_precision_def)

lemma reswitch_left_5d:
  "reswitch init_spec (c_str ''-5d'') args = Some (init_spec\<lparr>width := 5, padc := 45\<rparr>, 100, [], args)"
  by (simp add: reswitch.simps[of _ "53 # _"] reswitch.simps[of _ "45 # _"] reswitch.simps[of _ "100 # _"]
      width_loop_5d init_spec_def process_precision_def)

lemma small_sint: "(v :: u32) < 10 \<Longrightarrow> 0 \<le> sint v \<and> v \<noteq> 0x80000000"
  by (auto simp: sint_u32 word_less_def)

lemma format_left_5d:
  assumes "v < 10"
  shows "format_chars (c_str ''%-5d'') [VInt v] = Some (replicate 4 45 @ [v + 48])"
  using assms small_sint[OF assms]
  by (simp add: format_chars_percent[simplified] reswitch_left_5d[simplified] conv_chars_def va_int_def num_chars_small)

lemma format_neg_5d:
  assumes "0 < v" "v < 10"
  shows "format_chars (c_str ''%5d'') [VInt (- v)] = Some (45 # replicate 4 32 @ [v + 48])"
proof -
  have "sint (- v) < 0 \<and> - v \<noteq> 0x80000000" 
  proof -
    have "v \<in> of_nat ` {..<10}"
      using assms by (intro word_less_of_nat_cases) (simp add: word_less_nat_alt)
    with assms(1) show ?thesis by (auto simp: lessThan_nat_numeral lessThan_Suc)
  qed
  with assms show ?thesis
  by (simp add: format_chars_percent[simplified] reswitch_5d[simplified] conv_chars_def va_int_def init_spec_simps num_chars_small)
qed
section \<open>Properties\<close>

text \<open>C3. The formatter is exactly the reference \<open>format_chars\<close> of \<open>Format\<close>: for every
  callback, format and arguments it passes on the reference characters in order and nothing else, and
  it has no result where the reference has none. The reference uses none of the formatter's
  functions: flags, width and precision are read off the items of the conversion, numbers are
  written by positional notation, and fields are padded by formulas.\<close>

theorem formatter_refines_reference:
  "vprintfmt putch fmt args st = do { cs \<leftarrow> format_chars fmt args; run_all putch cs st }"
  by (rule vprintfmt_format)

text \<open>C4. \<open>printf\<close> on a console that drains terminates, returns 0 and transmits exactly the
  formatted text, with a carriage return after each line feed.\<close>

theorem printf_prints:
  assumes "tx_drains E" "format_chars fmt args = Some cs"
  shows "\<exists>es. wrap_printf E fmt args s = Some (0, logged es s) \<and> transmits (crlf (map ucast cs)) es"
  using assms by (rule wrap_printf_total)

theorem printf_prints_witness:
  "\<exists>es. wrap_printf one_slot_env (c_str ''n=%x'') [VInt 42] sample_machine = Some (0, logged es sample_machine)
     \<and> transmits (c_str ''n=2a'') es"
proof -
  have "format_chars (c_str ''n=%x'') [VInt 42] = Some [110, 61, 50, 97]" by code_simp
  from printf_prints[OF one_slot_drains this, of sample_machine] show ?thesis
    by (simp add: render_def LF_def)
qed

text \<open>\<open>sprintf\<close> fills the buffer with the formatted text and a final NUL, and returns the
  length of the text.\<close>

theorem sprintf_text:
  "wrap_sprintf fmt args =
     map_option (\<lambda>cs. (of_nat (length cs), map ucast cs @ [0])) (format_chars fmt args)"
  by (rule wrap_sprintf_chars)

text \<open>C28. \<open>%d\<close> round trip: the text of an \<open>int\<close> reads back as that number. The smallest
  \<open>int\<close> is left out: its negation overflows.\<close>

theorem sprintf_decimal_roundtrip:
  assumes "v \<noteq> 0x80000000"
  shows "\<exists>buf. wrap_sprintf (c_str ''%d'') [VInt v] = Some (of_nat (length buf), buf @ [0])
    \<and> int_value buf = sint v"
proof -
  from format_chars_d_value[OF assms] obtain cs where
    "format_chars (c_str ''%d'') [VInt v] = Some cs" "int_value (map ucast cs) = sint v" by blast
  then show ?thesis unfolding wrap_sprintf_chars by (intro exI[of _ "map ucast cs"]) simp
qed

theorem sprintf_decimal_roundtrip_witness:
  "\<exists>buf. wrap_sprintf (c_str ''%d'') [VInt (- 305)] = Some (of_nat (length buf), buf @ [0]) \<and> int_value buf = - 305"
  using sprintf_decimal_roundtrip[of "- 305"] by simp

text \<open>For every base from 2 on, the digit loop of \<open>printnum\<close> stays inside its array of 32
  entries, and leaves the digits of the number, each below the base, without a leading zero.\<close>

theorem digits_fit_buffer:
  assumes "2 \<le> base"
  shows "\<exists>ds. dig_loop 32 num base = Some ds \<and> length ds \<le> 32 \<and> digits_value base ds = unat num
    \<and> (\<forall>d\<in>set ds. d < base) \<and> normal_digits ds"
proof -
  have "unat num < 2 ^ Suc 31" using unsigned_less[of num] by simp
  from dig_loop_correct[OF assms this] show ?thesis by auto
qed

theorem digits_fit_buffer_witness:
  "\<exists>ds. dig_loop 32 0xFFFFFFFF 2 = Some ds \<and> length ds \<le> 32 \<and> digits_value 2 ds = 4294967295
    \<and> (\<forall>d\<in>set ds. d < 2) \<and> normal_digits ds"
  using digits_fit_buffer[of 2 "0xFFFFFFFF"] by (simp add: word_le_nat_alt)

text \<open>A string field: at most \<open>precision\<close> characters, padded to \<open>width\<close>, on the right
  with spaces after the flag \<open>-\<close> and otherwise on the left with the pad character.\<close>

theorem string_field:
  assumes "length p < 2 ^ 30" "int_range (precision sp)" "- 1 \<le> width sp" "width sp < 2 ^ 31"
  shows "printstr putch sp p st =
    (let body = map ucast (str_body (precision sp) p);
         n = nat (width sp - int (length body))
     in run_all putch
          (if padc sp = of_char CHR ''-'' then body @ replicate n (of_char CHR '' '')
           else replicate n (ucast (padc sp)) @ body) st)"
  unfolding printstr_chars str_chars_text[OF assms] by (simp add: Let_def)

theorem string_field_witness:
  "printstr sprintf_putch (init_spec\<lparr>width := 4, precision := 2\<rparr>) (c_str ''abc'') [] = Some (c_str ''  ab'')"
  using string_field[of "c_str ''abc''" "init_spec\<lparr>width := 4, precision := 2\<rparr>" sprintf_putch "[]"]
  by (simp add: int_range_def init_spec_simps str_body_def sprintf_putch_def)

text \<open>Text without a percent sign is printed as it is, whatever the arguments.\<close>

theorem plain_text_verbatim:
  "plain lit \<Longrightarrow> wrap_sprintf lit args = Some (of_nat (length lit), lit @ [0])"
  using format_chars_plain[of lit "[]" args] by (simp add: wrap_sprintf_chars)

theorem plain_text_verbatim_witness: "wrap_sprintf (c_str ''ok'') [VInt 1] = Some (2, c_str ''ok'' @ [0])"
  using plain_text_verbatim[of "c_str ''ok''" "[VInt 1]"] by (simp add: plain_def)

text \<open>A left-justified number is not left-justified: the flag's own character fills the field on
  the left, so \<open>%-5d\<close> of a one-digit number prints four minus signs before it.\<close>

theorem left_justified_number_prefixed:
  "v < 10 \<Longrightarrow> wrap_sprintf (c_str ''%-5d'') [VInt v] = Some (5, c_str ''----'' @ [ucast v + 48] @ [0])"
  unfolding wrap_sprintf_chars format_left_5d by (simp add: ucast_plus_u8)

theorem left_justified_number_prefixed_witness:
  "wrap_sprintf (c_str ''%-5d'') [VInt 7] = Some (5, c_str ''----7'' @ [0])"
  using left_justified_number_prefixed[of 7] by simp

text \<open>The sign of a negative number is printed before the padding and not counted in the width:
  \<open>%5d\<close> of a negative one-digit number prints six characters.\<close>

theorem negative_field_too_wide:
  "0 < v \<Longrightarrow> v < 10 \<Longrightarrow>
     wrap_sprintf (c_str ''%5d'') [VInt (- v)] = Some (6, c_str ''-    '' @ [ucast v + 48] @ [0])"
  unfolding wrap_sprintf_chars format_neg_5d by (simp add: ucast_plus_u8)

theorem negative_field_too_wide_witness:
  "wrap_sprintf (c_str ''%5d'') [VInt (- 7)] = Some (6, c_str ''-    7'' @ [0])"
  using negative_field_too_wide[of 7] by simp

end
