(* ===== verification/Init.thy ===== *)
theory Init
  imports Prci PrintfSpec
begin

unbundle bit_operations_syntax

text \<open>
  The start-up code of the board (\<open>env/tgfs-vp/init.c\<close>): timer access, its own copies of the
  clock routines, the frequency measurement with its cached result, the UART set-up, the
  C trap handler and \<open>_init\<close>. The interrupt handlers of the application, which
  \<open>handle_trap\<close> calls when it is compiled for them, are parameters.
\<close>

section \<open>Timer\<close>

definition mtime_lo :: "env \<Rightarrow> machine \<Rightarrow> u32 \<times> machine" where
  "mtime_lo E s = ld32 E (CLINT_CTRL_ADDR + CLINT_MTIME) s"

definition mtime_hi :: "env \<Rightarrow> machine \<Rightarrow> u32 \<times> machine" where
  "mtime_hi E s = ld32 E (CLINT_CTRL_ADDR + CLINT_MTIME + 4) s"

text \<open>The two versions of \<open>get_timer_value\<close>; \<open>riscv32\<close> says whether the compiler defines \<open>__riscv32\<close>.\<close>

definition get_timer_value :: "env \<Rightarrow> bool \<Rightarrow> machine \<Rightarrow> (u64 \<times> machine) option" where
  "get_timer_value E riscv32 s =
     (if riscv32 then wide_read (mtime_hi E) (mtime_lo E) s
      else let (lo, s) = mtime_lo E s in Some (ucast lo, s))"

definition get_timer_freq :: u32 where
  "get_timer_freq = 32768"

section \<open>Clocks\<close>

definition use_hfrosc :: "env \<Rightarrow> u32 \<Rightarrow> u32 \<Rightarrow> machine \<Rightarrow> machine option" where
  "use_hfrosc E dv trim s =
     do { let s = st32 HFROSCCFG (ROSC_DIV dv OR ROSC_TRIM trim OR ROSC_EN 1) s;
          (_, s) \<leftarrow> poll E (\<lambda>x. x AND ROSC_RDY 1 = 0) HFROSCCFG s;
          Some (reg_and E PLLCFG (NOT (PLL_SEL 1)) s) }"

text \<open>The programming of the PLL is, statement by statement, that of the clock driver.\<close>

definition use_pll :: "env \<Rightarrow> u32 \<Rightarrow> u32 \<Rightarrow> u32 \<Rightarrow> u32 \<Rightarrow> u32 \<Rightarrow> machine \<Rightarrow> machine option" where
  "use_pll E refsel bypass r f q s =
     do { let (cfg, s) = ld32 E PLLCFG s;
          s \<leftarrow> (if cfg AND PLL_SEL 1 \<noteq> 0 then use_hfrosc E 4 16 s else Some s);
          let config_value = 0;
          let config_value = config_value OR PLL_REFSEL refsel;
          s \<leftarrow> (if bypass \<noteq> 0 then do {
                  let config_value = config_value OR PLL_BYPASS 1;
                  let s = st32 PLLCFG config_value s;
                  Some (st32 PLLDIV (PLL_FINAL_DIV_BY_1 1 OR PLL_FINAL_DIV 0) s) }
               else do {
                  let s = st32 (SPI0_REG SPI_REG_SCKDIV) 8 s;
                  let config_value = config_value OR PLL_BYPASS 1;
                  let config_value = config_value OR PLL_R r;
                  let config_value = config_value OR PLL_F f;
                  let config_value = config_value OR PLL_Q q;
                  let s = st32 PLLDIV (PLL_FINAL_DIV_BY_1 1 OR PLL_FINAL_DIV 0) s;
                  program_pll E config_value s });
          Some (reg_or E PLLCFG (PLL_SEL 1) s) }"

definition use_default_clocks :: "env \<Rightarrow> machine \<Rightarrow> machine option" where
  "use_default_clocks E s =
     do { let s = reg_and E (AON_REG AON_LFROSC) (NOT (ROSC_EN 1)) s;
          use_hfrosc E 4 16 s }"

section \<open>Core frequency\<close>

definition measure_cpu_freq :: "env \<Rightarrow> u32 \<Rightarrow> machine \<Rightarrow> (u32 \<times> machine) option" where
  "measure_cpu_freq E n s =
     do { let mtime_freq = get_timer_freq;
          let (tmp, s) = mtime_lo E s;
          (start_mtime, s) \<leftarrow> poll E (\<lambda>x. x = tmp) MTIME s;
          let (start_mcycle, s) = read_csr E Mcycle s;
          (now, s) \<leftarrow> poll E (\<lambda>x. x - start_mtime < n) MTIME s;
          let delta_mtime = now - start_mtime;
          let (end_mcycle, s) = read_csr E Mcycle s;
          let delta_mcycle = end_mcycle - start_mcycle;
          if delta_mtime = 0 then None
          else Some ((delta_mcycle div delta_mtime) * mtime_freq
                     + ((delta_mcycle mod delta_mtime) * mtime_freq) div delta_mtime, s) }"

definition get_cpu_freq :: "env \<Rightarrow> machine \<Rightarrow> (u32 \<times> machine) option" where
  "get_cpu_freq E s =
     do { s \<leftarrow> (if cpu_freq s = 0 then do {
                  (_, s) \<leftarrow> measure_cpu_freq E 1 s;
                  (f, s) \<leftarrow> measure_cpu_freq E 10 s;
                  Some (s\<lparr>cpu_freq := f\<rparr>) }
               else Some s);
          Some (cpu_freq s, s) }"

section \<open>UART, traps and start-up\<close>

definition uart_init :: "env \<Rightarrow> u32 \<Rightarrow> machine \<Rightarrow> machine option" where
  "uart_init E baud_rate s =
     do { let s = reg_and E (GPIO_REG GPIO_IOF_SEL) (NOT IOF0_UART0_MASK) s;
          let s = reg_or E (GPIO_REG GPIO_IOF_EN) IOF0_UART0_MASK s;
          (freq, s) \<leftarrow> get_cpu_freq E s;
          if baud_rate = 0 then None
          else do {
            let s = st32 (UART0_REG UART_REG_DIV) (freq div baud_rate - 1) s;
            Some (reg_or E (UART0_REG UART_REG_TXCTRL) UART_TXEN s) } }"

text \<open>A trap either returns to an address or ends in the endless loop of \<open>_exit\<close>.\<close>

datatype outcome = Resumes u32 machine | Halted machine

definition handle_trap ::
  "env \<Rightarrow> bool \<Rightarrow> bool \<Rightarrow> (machine \<Rightarrow> machine option) \<Rightarrow> (machine \<Rightarrow> machine option)
     \<Rightarrow> u32 \<Rightarrow> u32 \<Rightarrow> machine \<Rightarrow> outcome option" where
  "handle_trap E use_plic use_m_time handle_m_ext handle_m_time mcause epc s =
     (if use_plic \<and> mcause AND MCAUSE_INT \<noteq> 0 \<and> mcause AND MCAUSE_CAUSE = IRQ_M_EXT then
        do { s \<leftarrow> handle_m_ext s; Some (Resumes epc s) }
      else if use_m_time \<and> mcause AND MCAUSE_INT \<noteq> 0 \<and> mcause AND MCAUSE_CAUSE = IRQ_M_TIMER then
        do { s \<leftarrow> handle_m_time s; Some (Resumes epc s) }
      else
        do { (_, s) \<leftarrow> wrap_write E 1 (c_str ''trap'' @ [LF]) s;
             s \<leftarrow> wrap_exit E (1 + mcause) s;
             Some (Halted s) })"

text \<open>\<open>_init\<close>, compiled without \<open>NO_INIT\<close>.\<close>

definition init_platform :: "env \<Rightarrow> u32 \<Rightarrow> machine \<Rightarrow> machine option" where
  "init_platform E trap_entry s =
     do { s \<leftarrow> use_default_clocks E s;
          s \<leftarrow> use_pll E 0 0 1 31 1 s;
          s \<leftarrow> uart_init E 115200 s;
          (freq, s) \<leftarrow> get_cpu_freq E s;
          (_, s) \<leftarrow> wrap_printf E (c_str ''core freq at %lu Hz'' @ [LF]) [VInt freq] s;
          let s = write_csr Mtvec trap_entry s;
          let (misa, s) = read_csr E Misa s;
          if misa AND push_bit 5 1 \<noteq> 0 then
            do { let s = write_csr Mstatus MSTATUS_FS s;
                 Some (write_csr Fcsr 0 s) }
          else Some s }"

section \<open>Timer and clocks\<close>

lemma mtime_addr: "CLINT_CTRL_ADDR + CLINT_MTIME = MTIME"
  by (simp add: CLINT_REG_def)

text \<open>The timer registers are the halves of a 64-bit counter.\<close>

definition timer_hw :: "env \<Rightarrow> (event list \<Rightarrow> nat) \<Rightarrow> bool" where
  "timer_hw E c \<longleftrightarrow> (\<forall>h. E h (LdW (MTIME + 4)) = of_nat (c h div 2 ^ 32) \<and> E h (LdW MTIME) = of_nat (c h)
     \<and> c h < 2 ^ 64 \<and> (\<forall>es. c h \<le> c (h @ es)) \<and> (\<forall>es. length es \<le> 6 \<longrightarrow> c (h @ es) < c h + 2 ^ 32))"

interpretation mtime: slow_counter "mtime_hi E" "mtime_lo E" c "\<lambda>s. timer_hw E c" for E c
  by unfold_locales (auto simp: timer_hw_def mtime_hi_def mtime_lo_def ld32_def mtime_addr)

text \<open>
  C19. \<open>get_timer_value\<close> always returns. Its 32-bit version returns a value the 64-bit timer
  had during the call; the other version only the low half, so it differs as soon as the timer
  has reached \<open>2 ^ 32\<close>.
\<close>

theorem timer_value_consistent:
  assumes "timer_hw E c"
  shows "(\<exists>v es. get_timer_value E True s = Some (v, logged es s)
      \<and> c (hist s) \<le> unat v \<and> unat v \<le> c (hist s @ es))
    \<and> (\<exists>v es. get_timer_value E False s = Some (v, logged es s) \<and> unat v = c (hist s) mod 2 ^ 32)"
proof
  obtain v es where r: "wide_read (mtime_hi E) (mtime_lo E) s = Some (v, logged es s)"
    using mtime.terminates[OF assms] by blast
  with mtime.value_bounds[OF assms r]
  show "\<exists>v es. get_timer_value E True s = Some (v, logged es s) \<and> c (hist s) \<le> unat v \<and> unat v \<le> c (hist s @ es)"
    by (auto simp: get_timer_value_def)
  have "unat (ucast (of_nat (c (hist s)) :: u32) :: u64) = c (hist s) mod 2 ^ 32"
    by (simp add: unsigned_ucast_eq unat_of_nat take_bit_eq_mod)
  moreover have "E (hist s) (LdW MTIME) = of_nat (c (hist s))" using assms by (simp add: timer_hw_def)
  ultimately show "\<exists>v es. get_timer_value E False s = Some (v, logged es s) \<and> unat v = c (hist s) mod 2 ^ 32"
    by (simp add: get_timer_value_def mtime_lo_def ld32_def mtime_addr)
qed

definition ticks :: "event list \<Rightarrow> nat" where
  "ticks h = min (2 ^ 32 + length h) (2 ^ 64 - 1)"

definition timer_env :: env where
  "timer_env h acc = (case acc of
       LdW a \<Rightarrow> if a = MTIME + 4 then of_nat (ticks h div 2 ^ 32)
                else if a = MTIME then of_nat (ticks h) else 0
     | _ \<Rightarrow> 0)"

lemma timer_env_hw: "timer_hw timer_env ticks"
  by (auto simp: timer_hw_def timer_env_def ticks_def)

theorem timer_value_consistent_witness:
  "(\<exists>v es. get_timer_value timer_env True sample_machine = Some (v, logged es sample_machine) \<and> 2 ^ 32 \<le> unat v)
   \<and> (\<exists>v es. get_timer_value timer_env False sample_machine = Some (v, logged es sample_machine) \<and> unat v = 0)"
proof -
  note r = timer_value_consistent[OF timer_env_hw, of sample_machine]
  have t: "ticks (hist sample_machine) = 2 ^ 32" by (simp add: ticks_def sample_machine_def)
  show ?thesis using r[unfolded t] by (elim conjE exE) (intro conjI exI, auto)
qed

lemma use_hfrosc_driver: "use_hfrosc = PRCI_use_hfrosc"
  by (intro ext) (simp add: use_hfrosc_def PRCI_use_hfrosc_def)

lemma use_default_clocks_driver: "use_default_clocks = PRCI_use_default_clocks"
  by (intro ext) (simp add: use_default_clocks_def PRCI_use_default_clocks_def use_hfrosc_driver)

lemma safely_reg_and_other:
  assumes "a \<notin> {PLLCFG, PLLDIV, HFROSCCFG}"
  shows "safely k s k (reg_and E a m s)"
proof -
  obtain v s1 where l: "ld32 E a s = (v, s1)" by fastforce
  have "safely k s k s1" using assms by (intro safely_ld32[OF l]) simp
  also have "safely k s1 k (st32 a (v AND m) s1)" using assms by (intro safely_st32) simp
  finally show ?thesis by (simp add: reg_and_def l)
qed

lemma safely_default_clocks:
  assumes "tracks E cfg0 s k" "use_default_clocks E s = Some t"
  shows "\<exists>k'. safely k s k' t \<and> \<not> running_pll k'"
proof -
  let ?s1 = "reg_and E (AON_REG AON_LFROSC) (NOT (ROSC_EN 1)) s"
  have 1: "safely k s k ?s1" by (rule safely_reg_and_other) (simp add: reg_simps)
  have "PRCI_use_hfrosc E 4 16 ?s1 = Some t"
    using assms(2) by (simp add: use_default_clocks_def use_hfrosc_driver)
  from safely_use_hfrosc[OF safely_tracks[OF 1 assms(1)] this] 1 show ?thesis
    by (blast intro: safely_trans)
qed

lemma safely_use_pll:
  assumes "tracks E cfg0 s k" "use_pll E refsel bypass r f q s = Some t"
  shows "\<exists>k'. safely k s k' t \<and> running_pll k'"
proof -
  obtain w s1 where l: "ld32 E PLLCFG s = (w, s1)" by fastforce
  let ?k1 = "k\<lparr>locked := locked k \<or> bit w 31\<rparr>"
  have 1: "safely k s ?k1 s1" by (rule safely_ld32[OF l]) simp
  note t1 = safely_tracks[OF 1 assms(1)]
  obtain s2 where s2: "(if bit w 16 then use_hfrosc E 4 16 s1 else Some s1) = Some s2"
    using assms(2) by (auto simp: use_pll_def Let_def l bind_Some_iff split: if_splits)
  have "bit w 16 \<or> \<not> running_pll ?k1"
    using tracks_read(1)[OF assms(1) l] by (simp add: running_pll_def)
  from safely_to_hfrosc[OF t1 this s2[unfolded use_hfrosc_driver]] obtain k2 where
    2: "safely ?k1 s1 k2 s2" "tracks E cfg0 s2 k2" "\<not> running_pll k2" by blast
  have "\<exists>k3 s3. safely k2 s2 k3 s3 \<and> \<not> running_pll k3 \<and> (bypassed k3 \<or> locked k3)
    \<and> t = select_pll E 0 s3"
  proof (cases "bypass = 0")
    case False
    then have "t = select_pll E 0 (st32 PLLDIV (PLL_FINAL_DIV_BY_1 1 OR PLL_FINAL_DIV 0)
        (st32 PLLCFG (0 OR PLL_REFSEL refsel OR PLL_BYPASS 1) s2))"
      using assms(2) s2 by (auto simp: use_pll_def select_pll_def Let_def l)
    with safely_bypass[OF 2(3)] show ?thesis by blast
  next
    case True
    let ?cfg = "((((PLL_REFSEL refsel) OR PLL_BYPASS 1) OR PLL_R r) OR PLL_F f) OR PLL_Q q"
    let ?s3 = "st32 (SPI0_REG SPI_REG_SCKDIV) 8 s2" and ?d = "PLL_FINAL_DIV_BY_1 1 OR PLL_FINAL_DIV 0"
    obtain s4 where s4: "program_pll E ?cfg (st32 PLLDIV ?d ?s3) = Some s4" and t: "t = select_pll E 0 s4"
      using assms(2) s2 True by (auto simp: use_pll_def select_pll_def Let_def l bind_Some_iff)
    have 3: "safely k2 s2 k2 ?s3" by (rule safely_st32) (simp add: reg_simps)
    have "\<not> bit ?cfg 16" by (simp add: bit_or_iff)
    from safely_program_pll[OF safely_tracks[OF 3 2(2)] 2(3) this s4] obtain k4 where
      "safely k2 ?s3 k4 s4" "\<not> running_pll k4" "locked k4" by blast
    with 3 t show ?thesis by (blast intro: safely_trans)
  qed
  then obtain k3 s3 where 3: "safely k2 s2 k3 s3" "\<not> running_pll k3" "bypassed k3 \<or> locked k3"
    and t: "t = select_pll E 0 s3" by blast
  have "(0 :: u32) \<noteq> 0 \<longrightarrow> from_xtal k3" by simp
  from safely_select_pll[OF safely_tracks[OF 3(1) 2(2)] 3(2,3) this] obtain k4 where
    "safely k3 s3 k4 t" "running_pll k4" unfolding t by blast
  with 1 2(1) 3(1) show ?thesis by (blast intro: safely_trans)
qed

text \<open>
  C2. The clock set-up of \<open>_init\<close> is safe in the sense of the clock driver, from whatever clock
  the core was running on and for all arguments of \<open>use_pll\<close>, and ends on the PLL.
\<close>

theorem init_clocks_never_glitch:
  assumes "tracks E cfg0 s k" "use_default_clocks E s = Some t" "use_pll E refsel bypass r f q t = Some u"
  shows "\<exists>k'. safely k s k' u \<and> running_pll k'"
proof -
  from safely_default_clocks[OF assms(1,2)] obtain k1 where k1: "safely k s k1 t" by blast
  from safely_use_pll[OF safely_tracks[OF k1 assms(1)] assms(3)] k1 show ?thesis
    by (blast intro: safely_trans)
qed

theorem init_clocks_never_glitch_witness:
  "\<exists>t u k'. use_default_clocks clock_env sample_machine = Some t \<and> use_pll clock_env 0 0 1 31 1 t = Some u
     \<and> safely clk0 sample_machine k' u \<and> running_pll k'"
proof -
  have "do { s \<leftarrow> use_default_clocks clock_env sample_machine; use_pll clock_env 0 0 1 31 1 s } \<noteq> None"
    by code_simp
  then obtain t u where r: "use_default_clocks clock_env sample_machine = Some t"
    "use_pll clock_env 0 0 1 31 1 t = Some u" by (auto simp: bind_None_iff)
  from init_clocks_never_glitch[OF clock_env_tracks r] r show ?thesis by blast
qed

section \<open>Core frequency\<close>

lemma split_quotient:
  assumes "0 < (m :: nat)"
  shows "d div m * k + d mod m * k div m = d * k div m"
proof -
  have "d * k = (d div m * m + d mod m) * k" by simp
  also have "\<dots> = d mod m * k + (d div m * k) * m" by (simp only: add_mult_distrib add_mult_distrib2 ac_simps)
  finally show ?thesis using assms by simp
qed

lemma scaled_quotient:
  assumes "m \<noteq> 0" "unat m \<le> 2 ^ 17"
  shows "(d div m) * 32768 + ((d mod m) * 32768) div m = (of_nat (unat d * 32768 div unat m) :: u32)"
proof -
  have m: "0 < unat m" using assms(1) by (simp add: unat_gt_0)
  have "unat (d mod m) < unat m" using m by (simp add: unat_mod)
  then have "unat (d mod m) * 32768 < 2 ^ 17 * 32768" using assms(2) by linarith
  then have r: "unat d mod unat m * 32768 mod 4294967296 = unat d mod unat m * 32768"
    by (simp add: unat_mod)
  have "(d div m) * 32768 + ((d mod m) * 32768) div m
      = of_nat (unat d div unat m * 32768 + unat d mod unat m * 32768 div unat m)"
    by (simp add: word_unat_eq_iff unat_word_ariths unat_div r unat_of_nat mod_simps)
  also have "unat d div unat m * 32768 + unat d mod unat m * 32768 div unat m = unat d * 32768 div unat m"
    by (rule split_quotient[OF m])
  finally show ?thesis .
qed

lemma measure_events:
  assumes "measure_cpu_freq E n s = Some (f, t)"
  shows "\<exists>m0 m1 m2 c0 c1 vs ws.
    t = logged ([RdW MTIME m0] @ map (RdW MTIME) (vs @ [m1]) @ [RdCsr Mcycle c0]
                @ map (RdW MTIME) (ws @ [m2]) @ [RdCsr Mcycle c1]) s
    \<and> m1 \<noteq> m0 \<and> n \<le> m2 - m1
    \<and> m2 - m1 \<noteq> 0
    \<and> f = ((c1 - c0) div (m2 - m1)) * 32768 + (((c1 - c0) mod (m2 - m1)) * 32768) div (m2 - m1)"
proof -
  obtain m0 s0 where 0: "mtime_lo E s = (m0, s0)" by fastforce
  then have s0: "s0 = logged [RdW MTIME m0] s" by (auto simp: mtime_lo_def ld32_def mtime_addr)
  obtain m1 s1 where 1: "poll E (\<lambda>x. x = m0) MTIME s0 = Some (m1, s1)"
    using assms by (auto simp: measure_cpu_freq_def Let_def 0 bind_Some_iff)
  obtain c0 s2 where 2: "read_csr E Mcycle s1 = (c0, s2)" by fastforce
  then have s2: "s2 = logged [RdCsr Mcycle c0] s1" by (auto simp: read_csr_def)
  obtain m2 s3 where 3: "poll E (\<lambda>x. x - m1 < n) MTIME s2 = Some (m2, s3)"
    using assms by (auto simp: measure_cpu_freq_def Let_def 0 1 2 bind_Some_iff)
  obtain c1 s4 where 4: "read_csr E Mcycle s3 = (c1, s4)" by fastforce
  then have s4: "s4 = logged [RdCsr Mcycle c1] s3" by (auto simp: read_csr_def)
  have nz: "m2 - m1 \<noteq> 0" and t: "t = s4"
    and f: "f = ((c1 - c0) div (m2 - m1)) * 32768 + (((c1 - c0) mod (m2 - m1)) * 32768) div (m2 - m1)"
    using assms by (auto simp: measure_cpu_freq_def Let_def 0 1 2 3 4 get_timer_freq_def split: if_splits)
  obtain vs where v: "s1 = logged (map (RdW MTIME) (vs @ [m1])) s0" "m1 \<noteq> m0" using poll_reads[OF 1] by blast
  obtain ws where w: "s3 = logged (map (RdW MTIME) (ws @ [m2])) s2" "n \<le> m2 - m1"
    using poll_reads[OF 3] by (auto simp: not_less)
  have "t = logged ([RdW MTIME m0] @ map (RdW MTIME) (vs @ [m1]) @ [RdCsr Mcycle c0]
                @ map (RdW MTIME) (ws @ [m2]) @ [RdCsr Mcycle c1]) s"
    by (simp add: t s4 w(1) s2 v(1) s0)
  with v(2) w(2) nz show ?thesis unfolding f by blast
qed

lemma measure_cpu_freq_returns:
  assumes "timer_live E" "n \<noteq> 0"
  shows "\<exists>f t. measure_cpu_freq E n s = Some (f, t)"
proof -
  obtain m0 s0 where 0: "mtime_lo E s = (m0, s0)" by fastforce
  obtain m1 s1 where 1: "poll E (\<lambda>x. x = m0) MTIME s0 = Some (m1, s1)"
    using timer_polls(1)[OF assms(1)] by blast
  obtain c0 s2 where 2: "read_csr E Mcycle s1 = (c0, s2)" by fastforce
  obtain m2 s3 where 3: "poll E (\<lambda>x. x - m1 < n) MTIME s2 = Some (m2, s3)"
    using timer_polls(3)[OF assms(1)] by blast
  obtain c1 s4 where 4: "read_csr E Mcycle s3 = (c1, s4)" by fastforce
  have "\<not> m2 - m1 < n" using poll_reads[OF 3] by blast
  with assms(2) have "m2 \<noteq> m1" by (auto simp: word_gt_0)
  then show ?thesis by (simp add: measure_cpu_freq_def Let_def 0 1 2 3 4)
qed

lemma measure_cpu_freq_reads:
  assumes "measure_cpu_freq E n s = Some (f, t)"
  shows "\<exists>es. t = logged es s \<and> stores es = []"
  using measure_events[OF assms] by (auto simp: stores_loads[unfolded map_map] stores_def)

text \<open>
  C18. \<open>measure_cpu_freq\<close> waits for a timer tick, then counts cycles over at least \<open>n\<close> ticks, and
  returns the cycles times 32768 divided by the ticks, rounded down: splitting the division to stay in 32
  bits costs no precision for intervals up to \<open>2 ^ 17\<close> ticks. The ticks it divides by are never 0, and for
  \<open>n > 0\<close> it always returns when the timer runs: a division by zero, which would be no result,
  does not happen.
\<close>

theorem measured_frequency_exact:
  "(timer_live E \<and> 0 < n \<longrightarrow> measure_cpu_freq E n s \<noteq> None)
   \<and> (\<forall>f t. measure_cpu_freq E n s = Some (f, t) \<longrightarrow> (\<exists>m0 m1 m2 c0 c1 vs ws.
       t = logged ([RdW MTIME m0] @ map (RdW MTIME) (vs @ [m1]) @ [RdCsr Mcycle c0]
                   @ map (RdW MTIME) (ws @ [m2]) @ [RdCsr Mcycle c1]) s
       \<and> m1 \<noteq> m0 \<and> n \<le> m2 - m1 \<and> m2 - m1 \<noteq> 0
       \<and> (unat (m2 - m1) \<le> 2 ^ 17 \<longrightarrow> f = of_nat (unat (c1 - c0) * 32768 div unat (m2 - m1)))))"
proof (intro conjI impI allI)
  assume "timer_live E \<and> 0 < n"
  then show "measure_cpu_freq E n s \<noteq> None" using measure_cpu_freq_returns[of E n s] by auto
next
  fix f t
  assume "measure_cpu_freq E n s = Some (f, t)"
  from measure_events[OF this] scaled_quotient
  show "\<exists>m0 m1 m2 c0 c1 vs ws.
       t = logged ([RdW MTIME m0] @ map (RdW MTIME) (vs @ [m1]) @ [RdCsr Mcycle c0]
                   @ map (RdW MTIME) (ws @ [m2]) @ [RdCsr Mcycle c1]) s
       \<and> m1 \<noteq> m0 \<and> n \<le> m2 - m1 \<and> m2 - m1 \<noteq> 0
       \<and> (unat (m2 - m1) \<le> 2 ^ 17 \<longrightarrow> f = of_nat (unat (c1 - c0) * 32768 div unat (m2 - m1)))"
    by metis
qed

theorem measured_frequency_exact_witness:
  "\<exists>f t m1 m2 c0 c1. measure_cpu_freq cycle_env 10 sample_machine = Some (f, t) \<and> 10 \<le> m2 - m1 \<and> m2 - m1 \<noteq> 0
     \<and> (unat (m2 - m1) \<le> 2 ^ 17 \<longrightarrow> f = of_nat (unat (c1 - c0 :: u32) * 32768 div unat (m2 - m1 :: u32)))"
proof -
  have "timer_live cycle_env \<and> 0 < (10 :: u32)" using clock_polls(3)[OF cycle_env_live] by simp
  then obtain f t where r: "measure_cpu_freq cycle_env 10 sample_machine = Some (f, t)"
    using measured_frequency_exact[of cycle_env 10 sample_machine] by auto
  with measured_frequency_exact[of cycle_env 10 sample_machine] show ?thesis by blast
qed

text \<open>
  The frequency is measured once: a call that returned a nonzero value makes every later call
  return the same value without any access.
\<close>

theorem cpu_freq_cached:
  assumes "get_cpu_freq E s = Some (f, t)" "f \<noteq> 0"
  shows "get_cpu_freq E' t = Some (f, t)"
  using assms by (auto simp: get_cpu_freq_def bind_Some_iff split: if_splits)

theorem cpu_freq_cached_witness:
  "\<exists>f t. get_cpu_freq clock_env sample_machine = Some (f, t) \<and> f \<noteq> 0 \<and> get_cpu_freq one_slot_env t = Some (f, t)"
proof -
  have "case get_cpu_freq clock_env sample_machine of None \<Rightarrow> False | Some (f, t) \<Rightarrow> f \<noteq> 0" by code_simp
  then obtain f t where r: "get_cpu_freq clock_env sample_machine = Some (f, t)" "f \<noteq> 0"
    by (auto split: option.splits)
  from cpu_freq_cached[OF r] r show ?thesis by blast
qed

lemma get_cpu_freq_reads:
  assumes "get_cpu_freq E s = Some (f, t)"
  shows "\<exists>es. hist t = hist s @ es \<and> stores es = [] \<and> cpu_freq t = f"
proof (cases "cpu_freq s = 0")
  case True
  with assms obtain f1 s1 f2 s2 where r: "measure_cpu_freq E 1 s = Some (f1, s1)"
    "measure_cpu_freq E 10 s1 = Some (f2, s2)" "t = s2\<lparr>cpu_freq := f2\<rparr>" "f = f2"
    by (auto simp: get_cpu_freq_def bind_Some_iff)
  from measure_cpu_freq_reads[OF r(1)] measure_cpu_freq_reads[OF r(2)] r(3,4) show ?thesis by auto
next
  case False
  with assms show ?thesis by (auto simp: get_cpu_freq_def)
qed

lemma get_cpu_freq_returns:
  assumes "timer_live E"
  shows "\<exists>f t. get_cpu_freq E s = Some (f, t)"
proof -
  obtain f1 s1 where "measure_cpu_freq E 1 s = Some (f1, s1)"
    using measure_cpu_freq_returns[OF assms, of 1 s] by auto
  moreover obtain f2 s2 where "measure_cpu_freq E 10 s1 = Some (f2, s2)"
    using measure_cpu_freq_returns[OF assms, of 10 s1] by auto
  ultimately show ?thesis by (simp add: get_cpu_freq_def)
qed

section \<open>UART set-up\<close>

abbreviation UART_DIV :: u32 where
  "UART_DIV \<equiv> UART0_REG UART_REG_DIV"

lemma uart_init_events:
  assumes "uart_init E baud_rate s = Some t"
  shows "\<exists>v w x es f. hist t = hist s @
      [RdW (GPIO_REG GPIO_IOF_SEL) v, WrW (GPIO_REG GPIO_IOF_SEL) (v AND NOT IOF0_UART0_MASK),
       RdW (GPIO_REG GPIO_IOF_EN) w, WrW (GPIO_REG GPIO_IOF_EN) (w OR IOF0_UART0_MASK)] @ es @
      [WrW UART_DIV (f div baud_rate - 1), RdW (UART0_REG UART_REG_TXCTRL) x,
       WrW (UART0_REG UART_REG_TXCTRL) (x OR UART_TXEN)]
    \<and> stores es = [] \<and> cpu_freq t = f \<and> baud_rate \<noteq> 0"
proof -
  let ?s2 = "reg_or E (GPIO_REG GPIO_IOF_EN) IOF0_UART0_MASK (reg_and E (GPIO_REG GPIO_IOF_SEL) (NOT IOF0_UART0_MASK) s)"
  obtain f s3 where g: "get_cpu_freq E ?s2 = Some (f, s3)" and b: "baud_rate \<noteq> 0"
    and t: "t = reg_or E (UART0_REG UART_REG_TXCTRL) UART_TXEN (st32 UART_DIV (f div baud_rate - 1) s3)"
    using assms by (auto simp: uart_init_def Let_def bind_Some_iff split: if_splits)
  from get_cpu_freq_reads[OF g] obtain es where es: "hist s3 = hist ?s2 @ es" "stores es = []" "cpu_freq s3 = f"
    by blast
  then show ?thesis
    using b by (intro exI conjI) (simp_all add: t reg_or_def reg_and_def ld32_def st32_def Let_def)
qed

lemma divider_bounds:
  assumes "b \<noteq> 0" "b \<le> (f :: u32)"
  shows "unat b * (unat (f div b - 1) + 1) \<le> unat f \<and> unat f < unat b * (unat (f div b - 1) + 2)"
proof -
  have b: "0 < unat b" "unat b \<le> unat f" using assms by (simp_all add: unat_gt_0 word_le_nat_alt)
  then have q: "1 \<le> unat f div unat b" by (simp add: Suc_le_eq div_greater_zero_iff)
  have "unat (f div b - 1) = unat f div unat b - 1"
    using q by (simp add: unat_sub_if' unat_div)
  then have "unat (f div b - 1) + 1 = unat f div unat b" "unat (f div b - 1) + 2 = unat f div unat b + 1"
    using q by simp_all
  moreover have "unat b * (unat f div unat b) \<le> unat f" by (rule times_div_less_eq_dividend)
  moreover have "unat f < unat b * (unat f div unat b + 1)"
    using b(1) dividend_less_times_div[of "unat b" "unat f"] by simp
  ultimately show ?thesis by (simp only:)
qed

text \<open>
  \<open>uart_init\<close> connects the UART pins, programs the divider and then enables the transmitter,
  and stores to no other register. The divider is the quotient of frequency and baud rate less one, so
  the resulting rate is at least the requested one, and exceeds it by less than one part in
  \<open>divider + 1\<close>, whenever the core is at least as fast as the baud rate.
\<close>

theorem uart_init_programs_baud_rate:
  assumes "uart_init E baud_rate s = Some t"
  shows "\<exists>v w d x es. hist t = hist s @ es
    \<and> stores es = [WrW (GPIO_REG GPIO_IOF_SEL) (v AND NOT IOF0_UART0_MASK),
        WrW (GPIO_REG GPIO_IOF_EN) (w OR IOF0_UART0_MASK), WrW UART_DIV d,
        WrW (UART0_REG UART_REG_TXCTRL) (x OR UART_TXEN)]
    \<and> (baud_rate \<le> cpu_freq t \<longrightarrow> unat baud_rate * (unat d + 1) \<le> unat (cpu_freq t)
         \<and> unat (cpu_freq t) < unat baud_rate * (unat d + 2))"
proof -
  from uart_init_events[OF assms] obtain v w x es f where h: "hist t = hist s @
      [RdW (GPIO_REG GPIO_IOF_SEL) v, WrW (GPIO_REG GPIO_IOF_SEL) (v AND NOT IOF0_UART0_MASK),
       RdW (GPIO_REG GPIO_IOF_EN) w, WrW (GPIO_REG GPIO_IOF_EN) (w OR IOF0_UART0_MASK)] @ es @
      [WrW UART_DIV (f div baud_rate - 1), RdW (UART0_REG UART_REG_TXCTRL) x,
       WrW (UART0_REG UART_REG_TXCTRL) (x OR UART_TXEN)]"
    and es: "stores es = []" "cpu_freq t = f" "baud_rate \<noteq> 0" by blast
  have d: "unat baud_rate * (unat (f div baud_rate - 1) + 1) \<le> unat f
      \<and> unat f < unat baud_rate * (unat (f div baud_rate - 1) + 2)" if "baud_rate \<le> f"
    by (rule divider_bounds[OF es(3) that])
  show ?thesis
    by (rule exI[of _ v], rule exI[of _ w], rule exI[of _ "f div baud_rate - 1"], rule exI[of _ x],
        intro exI conjI, rule h) (use d es in simp_all)
qed

theorem uart_init_programs_baud_rate_witness:
  "\<exists>t d. uart_init clock_env 100 sample_machine = Some t \<and> WrW UART_DIV d \<in> set (hist t)"
proof -
  have "uart_init clock_env 100 sample_machine \<noteq> None" by code_simp
  then obtain t where r: "uart_init clock_env 100 sample_machine = Some t" by blast
  from uart_init_programs_baud_rate[OF r] obtain v w d x es where h: "hist t = hist sample_machine @ es"
    "stores es = [WrW (GPIO_REG GPIO_IOF_SEL) (v AND NOT IOF0_UART0_MASK),
        WrW (GPIO_REG GPIO_IOF_EN) (w OR IOF0_UART0_MASK), WrW UART_DIV d,
        WrW (UART0_REG UART_REG_TXCTRL) (x OR UART_TXEN)]" by blast
  then have "WrW UART_DIV d \<in> set (stores es)" by simp
  with r h(1) show ?thesis by (auto simp: stores_def)
qed

section \<open>Traps\<close>

lemma and_flag: "x AND 2 ^ n = (if bit x n then 2 ^ n else (0 :: u32))"
  by (rule bit_word_eqI) (auto simp: bit_and_iff bit_exp_iff)

lemma sign_split: "x = (x AND 0x80000000) OR (x AND 0x7FFFFFFF :: u32)"
proof -
  have "(x AND 0x80000000) OR (x AND 0x7FFFFFFF) = x AND (0x80000000 OR 0x7FFFFFFF)"
    by (rule bit.conj_disj_distrib[symmetric])
  also have "(0x80000000 OR 0x7FFFFFFF :: u32) = - 1" by simp
  finally show ?thesis by simp
qed

lemma cause_split:
  "(x :: u32) AND 0x80000000 \<noteq> 0 \<and> x AND 0x7FFFFFFF = 11 \<longleftrightarrow> x = 0x8000000B"
  "(x :: u32) AND 0x80000000 \<noteq> 0 \<and> x AND 0x7FFFFFFF = 7 \<longleftrightarrow> x = 0x80000007"
proof -
  have "x AND 0x80000000 \<noteq> 0 \<Longrightarrow> x AND 0x80000000 = 0x80000000"
    using and_flag[of x 31] by (auto split: if_splits)
  then show "x AND 0x80000000 \<noteq> 0 \<and> x AND 0x7FFFFFFF = 11 \<longleftrightarrow> x = 0x8000000B"
    "x AND 0x80000000 \<noteq> 0 \<and> x AND 0x7FFFFFFF = 7 \<longleftrightarrow> x = 0x80000007"
    using sign_split[of x] by auto
qed

lemma wrap_exit_transmits:
  assumes "tx_drains E"
  shows "\<exists>es. wrap_exit E code s = Some (logged es s)
    \<and> transmits (crlf exit_message @ hex_text code @ [LF, CR]) es"
proof -
  have fd: "STDERR_FILENO \<in> {STDOUT_FILENO, STDERR_FILENO}" by simp
  obtain r s1 where 1: "wrap_write E STDERR_FILENO exit_message s = Some (r, s1)"
    using wrap_write_total[OF assms] by blast
  obtain s2 where 2: "write_hex E STDERR_FILENO code s1 = Some s2" using write_hex_total[OF assms] by blast
  obtain q s3 where 3: "wrap_write E STDERR_FILENO [LF] s2 = Some (q, s3)"
    using wrap_write_total[OF assms] by blast
  from wrap_write_tty[OF fd 1] obtain e1 where e1: "s1 = logged e1 s" "transmits (crlf exit_message) e1" by blast
  from write_hex_transmits[OF fd 2] obtain e2 where e2: "s2 = logged e2 s1" "transmits (hex_text code) e2" by blast
  from wrap_write_tty[OF fd 3] obtain e3 where e3: "s3 = logged e3 s2" "transmits [LF, CR] e3"
    by (auto simp: render_def)
  have "transmits (crlf exit_message @ hex_text code @ [LF, CR]) (e1 @ e2 @ e3)"
    by (intro transmits_append e1 e2 e3)
  with 1 2 3 e1 e2 e3 show ?thesis by (auto simp: wrap_exit_def)
qed

text \<open>
  C30. The trap handler calls a compiled-in interrupt handler for exactly its cause and resumes at
  the interrupted instruction; every other trap prints \<open>trap\<close>, the exit message and, as eight hexadecimal
  digits that read back as \<open>mcause + 1\<close>, the exit code, and never resumes.
\<close>

theorem trap_dispatch:
  assumes "tx_drains E"
  shows "(use_plic \<and> mcause = 0x8000000B \<longrightarrow>
      handle_trap E use_plic use_m_time m_ext m_time mcause epc s = map_option (Resumes epc) (m_ext s))
    \<and> (use_m_time \<and> mcause = 0x80000007 \<longrightarrow>
      handle_trap E use_plic use_m_time m_ext m_time mcause epc s = map_option (Resumes epc) (m_time s))
    \<and> (\<not> (use_plic \<and> mcause = 0x8000000B) \<and> \<not> (use_m_time \<and> mcause = 0x80000007) \<longrightarrow>
      (\<exists>es cs. handle_trap E use_plic use_m_time m_ext m_time mcause epc s = Some (Halted (logged es s))
        \<and> transmits (c_str ''trap'' @ [LF, CR, LF, CR] @ c_str ''Progam has exited with code:0x'' @ cs @ [LF, CR]) es
        \<and> length cs = 8 \<and> hex_value cs = mcause + 1))"
proof -
  note c = cause_split[of mcause]
  have ext: "mcause AND MCAUSE_INT \<noteq> 0 \<and> mcause AND MCAUSE_CAUSE = IRQ_M_EXT \<longleftrightarrow> mcause = 0x8000000B"
    and tim: "mcause AND MCAUSE_INT \<noteq> 0 \<and> mcause AND MCAUSE_CAUSE = IRQ_M_TIMER \<longleftrightarrow> mcause = 0x80000007"
    using c by (simp_all add: MCAUSE_INT_def MCAUSE_CAUSE_def IRQ_M_EXT_def IRQ_M_TIMER_def)
  have some: "do { s \<leftarrow> f s; Some (Resumes epc s) } = map_option (Resumes epc) (f s)" for f :: "machine \<Rightarrow> machine option"
    by (cases "f s") simp_all
  have fd: "1 \<in> {STDOUT_FILENO, STDERR_FILENO}" by (simp add: STDOUT_FILENO_def)
  obtain r s1 where 1: "wrap_write E 1 (c_str ''trap'' @ [LF]) s = Some (r, s1)"
    using wrap_write_total[OF assms] by blast
  from wrap_write_tty[OF fd 1] obtain e1 where
    e1: "s1 = logged e1 s" "transmits (crlf (c_str ''trap'' @ [LF])) e1" by blast
  from wrap_exit_transmits[OF assms, of "1 + mcause" s1] obtain e2 where
    e2: "wrap_exit E (1 + mcause) s1 = Some (logged e2 s1)"
      "transmits (crlf exit_message @ hex_text (1 + mcause) @ [LF, CR]) e2" by blast
  define cs where "cs = drop 2 (hex_text (1 + mcause))"
  have hex: "hex_text (1 + mcause) = c_str ''0x'' @ cs" "length cs = 8" "hex_value cs = mcause + 1"
    using hex_text_value[of "1 + mcause"] by (simp_all add: cs_def hex_text_def add.commute)
  have msg: "crlf (c_str ''trap'' @ [LF]) = c_str ''trap'' @ [LF, CR]"
    "crlf exit_message = [LF, CR] @ c_str ''Progam has exited with code:''"
    by (simp_all add: render_def exit_message_def LF_def)
  have tx: "transmits (c_str ''trap'' @ [LF, CR, LF, CR] @ c_str ''Progam has exited with code:0x'' @ cs @ [LF, CR])
      (e1 @ e2)"
    using transmits_append[OF e1(2) e2(2)] hex(1) unfolding msg by simp
  have out: "do { (_, s) \<leftarrow> wrap_write E 1 (c_str ''trap'' @ [LF]) s; s \<leftarrow> wrap_exit E (1 + mcause) s; Some (Halted s) }
      = Some (Halted (logged (e1 @ e2) s))"
    using 1 e1(1) e2(1) by simp
  show ?thesis
  proof (intro conjI impI)
    assume h: "\<not> (use_plic \<and> mcause = 0x8000000B) \<and> \<not> (use_m_time \<and> mcause = 0x80000007)"
    then have "handle_trap E use_plic use_m_time m_ext m_time mcause epc s = Some (Halted (logged (e1 @ e2) s))"
      unfolding handle_trap_def ext tim out by auto
    with tx hex(2,3) show "\<exists>es cs. handle_trap E use_plic use_m_time m_ext m_time mcause epc s = Some (Halted (logged es s))
        \<and> transmits (c_str ''trap'' @ [LF, CR, LF, CR] @ c_str ''Progam has exited with code:0x'' @ cs @ [LF, CR]) es
        \<and> length cs = 8 \<and> hex_value cs = mcause + 1" by blast
  qed (auto simp: handle_trap_def reg_simps some)
qed

theorem trap_dispatch_witness:
  "\<exists>es cs. handle_trap one_slot_env False False Some Some 2 0x80000010 sample_machine = Some (Halted (logged es sample_machine))
     \<and> hex_value cs = 3 \<and> length cs = 8"
  using trap_dispatch[OF one_slot_drains, of False 2 False Some Some "0x80000010" sample_machine] by auto

section \<open>Start-up\<close>

text \<open>A call that sends nothing to the console and writes no control and status register.\<close>

fun csr_write :: "event \<Rightarrow> bool" where
  "csr_write (WrCsr c v) = True"
| "csr_write _ = False"

definition quiet :: "machine \<Rightarrow> machine \<Rightarrow> bool" where
  "quiet s t \<longleftrightarrow> (\<exists>es. hist t = hist s @ es \<and> word_writes TXFIFO es = [] \<and> filter csr_write es = [])"

lemma quiet_refl: "quiet s s"
  by (simp add: quiet_def)

lemma quiet_trans [trans]: "quiet s t \<Longrightarrow> quiet t u \<Longrightarrow> quiet s u"
  by (auto simp: quiet_def)

lemma quiet_sent: "quiet s t \<Longrightarrow> console_sent t = console_sent s"
  by (auto simp: quiet_def console_sent_def)

lemma no_csr_write: "stores es = [] \<Longrightarrow> filter csr_write es = []" "list_all tx_access es \<Longrightarrow> filter csr_write es = []"
proof -
  show "stores es = [] \<Longrightarrow> filter csr_write es = []"
    unfolding stores_def filter_empty_conv by (metis csr_write.elims(2) is_store.simps(3))
  show "list_all tx_access es \<Longrightarrow> filter csr_write es = []"
    unfolding list_all_iff filter_empty_conv by (metis csr_write.elims(2) tx_access.simps(6))
qed

lemma quiet_accesses:
  "a \<noteq> TXFIFO \<Longrightarrow> quiet s (st32 a v s)"
  "a \<noteq> TXFIFO \<Longrightarrow> quiet s (reg_and E a v s)" "a \<noteq> TXFIFO \<Longrightarrow> quiet s (reg_or E a v s)"
  "quiet s (snd (ld32 E a s))"
  by (auto simp: quiet_def bus_defs Let_def)

lemma quiet_poll: "poll E busy a s = Some (v, t) \<Longrightarrow> quiet s t"
  by (drule poll_reads) (auto simp: quiet_def word_writes_no_stores no_csr_write(1))

lemma txfifo_differs [simp]:
  "PLLCFG \<noteq> TXFIFO" "PLLDIV \<noteq> TXFIFO" "HFROSCCFG \<noteq> TXFIFO" "AON_REG AON_LFROSC \<noteq> TXFIFO"
  "SPI0_REG SPI_REG_SCKDIV \<noteq> TXFIFO" "GPIO_REG GPIO_IOF_SEL \<noteq> TXFIFO" "GPIO_REG GPIO_IOF_EN \<noteq> TXFIFO"
  "UART_DIV \<noteq> TXFIFO" "UART0_REG UART_REG_TXCTRL \<noteq> TXFIFO"
  by (simp_all add: reg_simps)

lemma quiet_use_hfrosc:
  assumes "PRCI_use_hfrosc E dv trim s = Some t"
  shows "quiet s t"
proof -
  let ?s1 = "st32 HFROSCCFG (ROSC_DIV dv OR ROSC_TRIM trim OR ROSC_EN 1) s"
  obtain v s2 where p: "poll E (\<lambda>x. x AND ROSC_RDY 1 = 0) HFROSCCFG ?s1 = Some (v, s2)"
    and t: "t = reg_and E PLLCFG (NOT (PLL_SEL 1)) s2"
    using assms by (auto simp: PRCI_use_hfrosc_def bind_Some_iff)
  have "quiet s ?s1" by (rule quiet_accesses) simp
  also have "quiet ?s1 s2" by (rule quiet_poll[OF p])
  also have "quiet s2 t" unfolding t by (rule quiet_accesses) simp
  finally show ?thesis .
qed

lemma quiet_program_pll:
  assumes "program_pll E cfg s = Some t"
  shows "quiet s t"
proof -
  let ?s2 = "reg_and E PLLCFG (NOT (PLL_BYPASS 1)) (st32 PLLCFG cfg s)"
  obtain now s3 where l: "ld32 E MTIME ?s2 = (now, s3)" by fastforce
  obtain x s4 y where p: "poll E (\<lambda>x. x - now < 4) MTIME s3 = Some (x, s4)"
    and q: "poll E (\<lambda>x. x AND PLL_LOCK 1 = 0) PLLCFG s4 = Some (y, t)"
    using assms by (auto simp: program_pll_def Let_def l bind_Some_iff)
  have "quiet s (st32 PLLCFG cfg s)" by (rule quiet_accesses) simp
  also have "quiet (st32 PLLCFG cfg s) ?s2" by (rule quiet_accesses) simp
  also have "quiet ?s2 s3" using quiet_accesses(4)[of ?s2 E MTIME] by (simp add: l)
  also have "quiet s3 s4" by (rule quiet_poll[OF p])
  also have "quiet s4 t" by (rule quiet_poll[OF q])
  finally show ?thesis .
qed

lemma spi_not_hfrosc: "SPI0_REG SPI_REG_SCKDIV \<noteq> HFROSCCFG" "HFROSCCFG \<noteq> SPI0_REG SPI_REG_SCKDIV"
  by (simp_all add: reg_simps)

lemma default_clocks_returns:
  assumes "clocks_live E"
  shows "\<exists>t. use_default_clocks E s = Some t \<and> quiet s t \<and> osc_on (hist t)"
proof -
  let ?s1 = "reg_and E (AON_REG AON_LFROSC) (NOT (ROSC_EN 1)) s"
  obtain t where t: "PRCI_use_hfrosc E 4 16 ?s1 = Some t" "osc_on (hist t)"
    using use_hfrosc_returns[OF assms] by blast
  have "quiet s ?s1" by (rule quiet_accesses) simp
  also have "quiet ?s1 t" by (rule quiet_use_hfrosc[OF t(1)])
  finally show ?thesis using t by (simp add: use_default_clocks_def use_hfrosc_driver)
qed

lemma use_pll_0_returns:
  assumes "clocks_live E" "osc_on (hist s)"
  shows "\<exists>t. use_pll E 0 0 r f q s = Some t \<and> quiet s t"
proof -
  obtain w s1 where l: "ld32 E PLLCFG s = (w, s1)" by fastforce
  have "osc_on (hist s1)" using assms(2) l by (auto simp: ld32_def osc_on_def)
  then obtain s2 where 2: "(if w AND PLL_SEL 1 \<noteq> 0 then PRCI_use_hfrosc E 4 16 s1 else Some s1) = Some s2"
    and on: "osc_on (hist s2)"
    using maybe_hfrosc_returns[OF assms(1)] by blast
  let ?s3 = "st32 (SPI0_REG SPI_REG_SCKDIV) 8 s2"
  let ?s4 = "st32 PLLDIV (PLL_FINAL_DIV_BY_1 1 OR PLL_FINAL_DIV 0) ?s3"
  have "osc_on (hist ?s4)" using on by (simp add: st32_def osc_on_def spi_not_hfrosc)
  from program_pll_returns[OF assms(1) this] obtain s5 where
    5: "program_pll E ((((PLL_REFSEL 0 OR PLL_BYPASS 1) OR PLL_R r) OR PLL_F f) OR PLL_Q q) ?s4 = Some s5"
    by blast
  have "quiet s s1" using quiet_accesses(4)[of s E PLLCFG] by (simp add: l)
  also have "quiet s1 s2" using 2 by (auto intro: quiet_refl quiet_use_hfrosc split: if_splits)
  also have "quiet s2 ?s3" by (rule quiet_accesses) simp
  also have "quiet ?s3 ?s4" by (rule quiet_accesses) simp
  also have "quiet ?s4 s5" by (rule quiet_program_pll[OF 5])
  also have "quiet s5 (reg_or E PLLCFG (PLL_SEL 1) s5)" by (rule quiet_accesses) simp
  finally show ?thesis
    using 5 by (simp add: use_pll_def Let_def l 2[folded use_hfrosc_driver] del: flag_tests)
qed

lemma get_cpu_freq_quiet: "get_cpu_freq E s = Some (f, t) \<Longrightarrow> quiet s t \<and> cpu_freq t = f"
  using get_cpu_freq_reads[of E s f t] by (auto simp: quiet_def word_writes_no_stores no_csr_write(1))

lemma uart_init_returns:
  assumes "timer_live E" "baud_rate \<noteq> 0"
  shows "\<exists>t. uart_init E baud_rate s = Some t \<and> quiet s t"
proof -
  let ?s1 = "reg_and E (GPIO_REG GPIO_IOF_SEL) (NOT IOF0_UART0_MASK) s"
  let ?s2 = "reg_or E (GPIO_REG GPIO_IOF_EN) IOF0_UART0_MASK ?s1"
  obtain f s3 where g: "get_cpu_freq E ?s2 = Some (f, s3)" using get_cpu_freq_returns[OF assms(1)] by blast
  let ?s4 = "st32 UART_DIV (f div baud_rate - 1) s3"
  have "quiet s ?s1" by (rule quiet_accesses) simp
  also have "quiet ?s1 ?s2" by (rule quiet_accesses) simp
  also have "quiet ?s2 s3" using get_cpu_freq_quiet[OF g] by simp
  also have "quiet s3 ?s4" by (rule quiet_accesses) simp
  also have "quiet ?s4 (reg_or E (UART0_REG UART_REG_TXCTRL) UART_TXEN ?s4)" by (rule quiet_accesses) simp
  finally show ?thesis using g assms(2) by (simp add: uart_init_def Let_def)
qed

text \<open>The text of the banner.\<close>

lemma decimal_digits_text:
  "\<exists>ds. num_chars n 10 (-1) (of_char CHR '' '') = Some (map ucast ds) \<and> dec_value ds = unat n \<and> LF \<notin> set ds"
proof -
  obtain xs where xs: "num_chars n 10 (-1) (of_char CHR '' '') = Some (map digit_char (rev xs))"
    "dec_value (map ucast (map digit_char (rev xs))) = unat n" "\<forall>d\<in>set xs. d < 10"
    using num_chars_dec[of "-1" n "of_char CHR '' ''"] by (auto simp del: map_map)
  let ?ds = "map ucast (map digit_char (rev xs)) :: u8 list"
  have ok: "ucast (ucast (digit_char d) :: u8) = digit_char d \<and> LF \<noteq> ucast (digit_char d)" if "d < 10" for d
  proof -
    have "d \<in> of_nat ` {..<10}"
      using that by (intro word_less_of_nat_cases) (simp add: word_less_nat_alt)
    then show ?thesis
      by (auto simp: lessThan_nat_numeral lessThan_Suc digit_char_def word_le_nat_alt LF_def)
  qed
  from xs(3) ok have "map ucast ?ds = map digit_char (rev xs)" by simp
  moreover from xs(3) ok have "LF \<notin> set ?ds" by (simp add: image_iff)
  ultimately have "map ucast ?ds = map digit_char (rev xs)" "LF \<notin> set ?ds" .
  with xs(1,2) show ?thesis by (intro exI[of _ ?ds]) (simp del: map_map)
qed

definition banner :: "u8 list \<Rightarrow> u8 list" where
  "banner ds = c_str ''core freq at '' @ ds @ c_str '' Hz'' @ [LF, CR]"

lemma banner_chars:
  "\<exists>cs ds. format_chars (c_str ''core freq at %lu Hz'' @ [LF]) [VInt n] = Some cs
    \<and> crlf (map ucast cs) = banner ds \<and> dec_value ds = unat n"
proof -
  obtain ds where ds: "num_chars n 10 (-1) (of_char CHR '' '') = Some (map ucast ds)"
    "dec_value ds = unat n" "LF \<notin> set ds" using decimal_digits_text by blast
  let ?tail = "c_str '' Hz'' @ [LF]"
  have "plain ?tail" by (simp add: plain_def LF_def)
  then have tail: "format_chars ?tail args = Some (map ucast ?tail)" for args
    using format_chars_plain[of ?tail "[]" args] by simp
  have "reswitch init_spec (c_str ''lu'' @ ?tail) [VInt n] = Some (init_spec, of_char CHR ''u'', ?tail, [VInt n])"
    by (subst reswitch.simps) (simp add: init_spec_simps reswitch_conv[simplified])
  then have num: "format_chars (of_char CHR ''%'' # c_str ''lu'' @ ?tail) [VInt n]
      = Some (map ucast ds @ map ucast ?tail)"
    using ds(1) tail by (simp add: format_chars_percent[simplified] conv_chars_def va_int_def init_spec_simps)
  have "plain (c_str ''core freq at '')" by (simp add: plain_def)
  from format_chars_plain[OF this, of "of_char CHR ''%'' # c_str ''lu'' @ ?tail" "[VInt n]"] num
  have "format_chars (c_str ''core freq at %lu Hz'' @ [LF]) [VInt n]
      = Some (map ucast (c_str ''core freq at '') @ map ucast ds @ map ucast ?tail)" by simp
  moreover have "crlf (map ucast (map ucast (c_str ''core freq at '') @ map ucast ds @ map ucast ?tail :: u32 list)) = banner ds"
    using crlf_no_LF[OF ds(3)] by (simp add: banner_def render_def LF_def)
  ultimately show ?thesis using ds(2) by blast
qed

lemma init_prints:
  assumes "clocks_live E" "tx_drains E"
  shows "\<exists>t ds es m. init_platform E trap_entry s = Some t
    \<and> console_sent t = console_sent s @ banner ds \<and> dec_value ds = unat (cpu_freq t)
    \<and> filter csr_write es = [] \<and> m = E (hist s @ es @ [WrCsr Mtvec trap_entry]) (LdCsr Misa)
    \<and> hist t = hist s @ es @ WrCsr Mtvec trap_entry # RdCsr Misa m
        # (if bit m 5 then [WrCsr Mstatus MSTATUS_FS, WrCsr Fcsr 0] else [])"
proof -
  note timer = clock_polls(3)[OF assms(1)]
  obtain s1 where 1: "use_default_clocks E s = Some s1" "quiet s s1" "osc_on (hist s1)"
    using default_clocks_returns[OF assms(1)] by blast
  obtain s2 where 2: "use_pll E 0 0 1 31 1 s1 = Some s2" "quiet s1 s2"
    using use_pll_0_returns[OF assms(1) 1(3)] by blast
  obtain s3 where 3: "uart_init E 115200 s2 = Some s3" "quiet s2 s3"
    using uart_init_returns[OF timer, of 115200] by auto
  obtain f s4 where 4: "get_cpu_freq E s3 = Some (f, s4)" "quiet s3 s4" "cpu_freq s4 = f"
    using get_cpu_freq_returns[OF timer] get_cpu_freq_quiet by blast
  obtain cs ds where f: "format_chars (c_str ''core freq at %lu Hz'' @ [LF]) [VInt f] = Some cs"
    "crlf (map ucast cs) = banner ds" "dec_value ds = unat f" using banner_chars by blast
  obtain pe where 5: "wrap_printf E (c_str ''core freq at %lu Hz'' @ [LF]) [VInt f] s4 = Some (0, logged pe s4)"
    "transmits (banner ds) pe" using wrap_printf_total[OF assms(2) f(1), of s4] f(2) by auto
  have "quiet s s4" using 1(2) 2(2) 3(2) 4(2) by (blast intro: quiet_trans)
  then obtain qe where q: "hist s4 = hist s @ qe" "word_writes TXFIFO qe = []" "filter csr_write qe = []"
    by (auto simp: quiet_def)
  let ?es = "qe @ pe"
  have es: "filter csr_write ?es = []" using q(3) no_csr_write(2)[OF transmits_access[OF 5(2)]] by simp
  have sent: "word_writes TXFIFO ?es = map ucast (banner ds)" using q(2) 5(2) by (simp add: transmits_word_writes)
  let ?s6 = "write_csr Mtvec trap_entry (logged pe s4)" and ?m = "E (hist s @ ?es @ [WrCsr Mtvec trap_entry]) (LdCsr Misa)"
  have 7: "read_csr E Misa ?s6 = (?m, logged [RdCsr Misa ?m] ?s6)"
    using q(1) by (simp add: read_csr_def write_csr_def)
  have "push_bit 5 1 = (2 ^ 5 :: u32)" by (simp add: push_bit_eq_mult)
  then have test: "?m AND push_bit 5 1 \<noteq> 0 \<longleftrightarrow> bit ?m 5" by (simp only: and_exp_eq_0_iff_not_bit not_not)
  let ?s7 = "logged [RdCsr Misa ?m] ?s6"
  let ?t = "if bit ?m 5 then write_csr Fcsr 0 (write_csr Mstatus MSTATUS_FS ?s7) else ?s7"
  have run: "init_platform E trap_entry s = Some ?t"
    unfolding init_platform_def 1(1) 2(1) 3(1) 4(1) 5(1) Option.bind.simps prod.case Let_def 7 test by simp
  have t: "hist ?t = hist s @ ?es @ WrCsr Mtvec trap_entry # RdCsr Misa ?m
        # (if bit ?m 5 then [WrCsr Mstatus MSTATUS_FS, WrCsr Fcsr 0] else [])"
    using q(1) by (simp add: write_csr_def)
  have "word_writes TXFIFO (hist ?t) = word_writes TXFIFO (hist s) @ map ucast (banner ds)"
    by (rule trans[OF arg_cong[OF t, of "word_writes TXFIFO"]]) (use sent in simp)
  then have "console_sent ?t = console_sent s @ banner ds" unfolding console_sent_def by simp
  moreover have "dec_value ds = unat (cpu_freq ?t)" using 4(3) f(3) by (simp add: write_csr_def)
  ultimately show ?thesis
    using run t es by (intro exI[of _ ?t] exI[of _ ds] exI[of _ ?es] exI[of _ ?m] conjI) (simp_all only:)
qed

text \<open>
  C6. On hardware that responds, \<open>_init\<close> returns. The only thing it prints is the banner, whose decimal
  number is the cached core frequency. Up to then it writes no control and status register; then it
  sets the trap vector and reads \<open>misa\<close>, and exactly when bit 5 of the answer is set, that is, when the core
  has the F extension, it turns the floating-point unit on and clears its control register.
\<close>

theorem init_announces_frequency:
  assumes "clocks_live E" "tx_drains E"
  shows "\<exists>t ds es m. init_platform E trap_entry s = Some t
    \<and> console_sent t = console_sent s @ banner ds \<and> dec_value ds = unat (cpu_freq t)
    \<and> filter csr_write es = [] \<and> m = E (hist s @ es @ [WrCsr Mtvec trap_entry]) (LdCsr Misa)
    \<and> hist t = hist s @ es @ WrCsr Mtvec trap_entry # RdCsr Misa m
        # (if bit m 5 then [WrCsr Mstatus MSTATUS_FS, WrCsr Fcsr 0] else [])"
  by (rule init_prints[OF assms])

text \<open>A board that responds: the UART takes a byte at any time.\<close>

definition board_env :: env where
  "board_env h acc = (if acc = LdW TXFIFO then 0 else cycle_env h acc)"

lemma board_drains: "tx_drains board_env"
  by (rule responsiveI) (simp add: board_env_def tx_full_def)

lemma mtime_not_txfifo: "MTIME \<noteq> TXFIFO"
  by (simp add: reg_simps)

lemma board_live: "clocks_live board_env"
  by (rule clock_reg_live)
    (auto simp: mtime_not_txfifo counting_def board_env_def cycle_env_def clk_regs_differ(7-9)[symmetric])

lemma board_misa: "E = board_env \<Longrightarrow> E h (LdCsr Misa) = 0"
  by (simp add: board_env_def cycle_env_def)

theorem init_announces_frequency_witness:
  "\<exists>t ds es. init_platform board_env 0x20400100 sample_machine = Some t
    \<and> console_sent t = c_str ''core freq at '' @ ds @ c_str '' Hz'' @ [LF, CR] \<and> dec_value ds = unat (cpu_freq t)
    \<and> filter csr_write es = [] \<and> hist t = es @ [WrCsr Mtvec 0x20400100, RdCsr Misa 0]"
  using init_announces_frequency[OF board_live board_drains, of "0x20400100" sample_machine]
  by (auto simp: banner_def console_sent_def sample_machine_def board_misa)

end
