(* ===== verification/Hello.thy ===== *)
theory Hello
  imports Init
begin

unbundle bit_operations_syntax

text \<open>
  The demonstration program (\<open>hello-world/hello.c\<close>): a factorial in \<open>int\<close> arithmetic and two
  calls of \<open>printf\<close>, run after \<open>_init\<close>.
\<close>

text \<open>
  The loop of \<open>factorial\<close>. The values are kept as integers in the range of \<open>int\<close>; a product or
  an increment outside it is undefined (\<open>None\<close>).
\<close>

function factorial_loop :: "int \<Rightarrow> int \<Rightarrow> int \<Rightarrow> int option" where
  "factorial_loop i ii result =
     (if ii \<le> i then
        if 2147483647 < result * ii \<or> 2147483647 < ii + 1 then None
        else factorial_loop i (ii + 1) (result * ii)
      else Some result)"
  by pat_completeness auto
termination
  by (relation "measure (\<lambda>(i, ii, result). nat (i + 1 - ii))") auto

declare factorial_loop.simps [simp del]

definition factorial :: "int \<Rightarrow> int option" where
  "factorial i = factorial_loop i 1 1"

definition main_c :: "env \<Rightarrow> machine \<Rightarrow> (u32 \<times> machine) option" where
  "main_c E s =
     do { let s = reg_and E (GPIO_CTRL_ADDR + GPIO_IOF_SEL) (NOT IOF0_UART0_MASK) s;
          let s = reg_or E (GPIO_CTRL_ADDR + GPIO_IOF_EN) IOF0_UART0_MASK s;
          result \<leftarrow> factorial 10;
          (_, s) \<leftarrow> wrap_printf E (c_str ''Factorial is %d'' @ [LF]) [VInt (of_int result)] s;
          (_, s) \<leftarrow> wrap_printf E (c_str ''End of execution'') [] s;
          Some (0, s) }"

text \<open>The order of \<open>start.S\<close>: \<open>_init\<close> as a constructor, then \<open>main\<close>.\<close>

definition boot :: "env \<Rightarrow> u32 \<Rightarrow> machine \<Rightarrow> (u32 \<times> machine) option" where
  "boot E trap_entry s = do { s \<leftarrow> init_platform E trap_entry s; main_c E s }"

section \<open>Factorial\<close>

lemma factorial_loop_fact:
  assumes "1 \<le> ii" "ii \<le> i + 1" "i \<le> 12" "r = fact (nat (ii - 1))"
  shows "factorial_loop i ii r = Some (fact (nat i))"
  using assms
proof (induction i ii r rule: factorial_loop.induct)
  case (1 i ii r)
  show ?case
  proof (cases "ii \<le> i")
    case True
    have p: "r * ii = fact (nat ii)"
      using "1.prems"(1,4) fact_reduce[of "nat ii", where 'a = int] by (simp add: nat_diff_distrib mult.commute)
    have "fact (nat ii) \<le> (fact 12 :: int)" using True "1.prems"(3) by (intro fact_mono) simp
    also have "(fact 12 :: int) = 479001600" by (simp add: fact_numeral)
    finally have small: "r * ii \<le> 479001600" using p by simp
    then have ih: "factorial_loop i (ii + 1) (r * ii) = Some (fact (nat i))"
      using True "1.prems" p by (intro "1.IH") auto
    show ?thesis using True small "1.prems"(3) ih by (subst factorial_loop.simps) simp
  next
    case False
    then have "ii = i + 1" using "1.prems"(2) by simp
    then show ?thesis using "1.prems"(4) by (subst factorial_loop.simps) simp
  qed
qed

text \<open>
  \<open>factorial\<close> computes the factorial of every argument from 0 to 12; for 13 the product
  overflows \<open>int\<close>.
\<close>

theorem factorial_correct:
  "(0 \<le> i \<and> i \<le> 12 \<longrightarrow> factorial i = Some (fact (nat i))) \<and> factorial 13 = None"
proof
  show "0 \<le> i \<and> i \<le> 12 \<longrightarrow> factorial i = Some (fact (nat i))"
    using factorial_loop_fact[of 1 i 1] by (simp add: factorial_def)
  show "factorial 13 = None" by (simp add: factorial_def factorial_loop.simps)
qed

theorem factorial_correct_witness: "factorial 10 = Some 3628800"
  using factorial_correct[of 10] by (simp add: fact_numeral)

section \<open>The whole program\<close>

lemma factorial_10: "factorial 10 = Some 3628800"
  by (simp add: factorial_def factorial_loop.simps)

lemma hello_text: "format_chars (c_str ''Factorial is %d'' @ [LF]) [VInt 3628800]
    = Some (map ucast (c_str ''Factorial is 3628800'' @ [LF]))"
  by code_simp

lemma end_text: "format_chars (c_str ''End of execution'') [] = Some (map ucast (c_str ''End of execution''))"
  by code_simp

lemma main_prints:
  assumes "tx_drains E"
  shows "\<exists>t. main_c E s = Some (0, t) \<and> cpu_freq t = cpu_freq s
    \<and> console_sent t = console_sent s @ c_str ''Factorial is 3628800'' @ [LF, CR] @ c_str ''End of execution''"
proof -
  let ?s1 = "reg_and E (GPIO_CTRL_ADDR + GPIO_IOF_SEL) (NOT IOF0_UART0_MASK) s"
  let ?s2 = "reg_or E (GPIO_CTRL_ADDR + GPIO_IOF_EN) IOF0_UART0_MASK ?s1"
  have q1: "quiet s ?s1" by (rule quiet_accesses) (simp add: reg_simps)
  have q2: "quiet ?s1 ?s2" by (rule quiet_accesses) (simp add: reg_simps)
  obtain e1 where 1: "wrap_printf E (c_str ''Factorial is %d'' @ [LF]) [VInt 3628800] ?s2 = Some (0, logged e1 ?s2)"
    "transmits (crlf (map ucast (map ucast (c_str ''Factorial is 3628800'' @ [LF]) :: u32 list))) e1"
    using wrap_printf_total[OF assms hello_text] by blast
  obtain e2 where 2: "wrap_printf E (c_str ''End of execution'') [] (logged e1 ?s2) = Some (0, logged e2 (logged e1 ?s2))"
    "transmits (crlf (map ucast (map ucast (c_str ''End of execution'') :: u32 list))) e2"
    using wrap_printf_total[OF assms end_text] by blast
  have run: "main_c E s = Some (0, logged e2 (logged e1 ?s2))"
    unfolding main_c_def Let_def factorial_10 Option.bind.simps using 1(1) 2(1) by simp
  have "console_sent (logged e2 (logged e1 ?s2)) = console_sent ?s2
      @ c_str ''Factorial is 3628800'' @ [LF, CR] @ c_str ''End of execution''"
    using 1(2) 2(2) by (simp add: console_sent_def transmits_word_writes render_def LF_def)
  moreover have "console_sent ?s2 = console_sent s" using q1 q2 by (blast intro: quiet_sent quiet_trans)
  moreover have "cpu_freq (logged e2 (logged e1 ?s2)) = cpu_freq s"
    by (simp add: reg_and_def reg_or_def ld32_def st32_def Let_def)
  ultimately show ?thesis using run by auto
qed

text \<open>
  C7. End to end: on a board that responds, start-up and \<open>main\<close> return 0, and the UART has
  transmitted the banner with the core frequency, the factorial of 10 and the closing line, and
  nothing else.
\<close>

theorem hello_world_output:
  assumes "clocks_live E" "tx_drains E"
  shows "\<exists>t ds. boot E trap_entry s = Some (0, t) \<and> dec_value ds = unat (cpu_freq t)
    \<and> console_sent t = console_sent s @ c_str ''core freq at '' @ ds @ c_str '' Hz'' @ [LF, CR]
        @ c_str ''Factorial is 3628800'' @ [LF, CR] @ c_str ''End of execution''"
proof -
  obtain u ds where u: "init_platform E trap_entry s = Some u" "console_sent u = console_sent s @ banner ds"
    "dec_value ds = unat (cpu_freq u)" using init_prints[OF assms] by blast
  obtain t where t: "main_c E u = Some (0, t)" "cpu_freq t = cpu_freq u"
    "console_sent t = console_sent u @ c_str ''Factorial is 3628800'' @ [LF, CR] @ c_str ''End of execution''"
    using main_prints[OF assms(2)] by blast
  show ?thesis
    using u t by (intro exI[of _ t] exI[of _ ds]) (simp add: boot_def banner_def)
qed

theorem hello_world_output_witness:
  "\<exists>t ds. boot board_env 0x20400100 sample_machine = Some (0, t) \<and> dec_value ds = unat (cpu_freq t)
    \<and> console_sent t = c_str ''core freq at '' @ ds @ c_str '' Hz'' @ [LF, CR]
        @ c_str ''Factorial is 3628800'' @ [LF, CR] @ c_str ''End of execution''"
  using hello_world_output[OF board_live board_drains, of "0x20400100" sample_machine]
  by (simp add: console_sent_def sample_machine_def)

end
