(* ===== verification/Irq.thy ===== *)
theory Irq
  imports Platform
begin

unbundle bit_operations_syntax

text \<open>
  What the two interrupt drivers share: the routine that clears a range of device bytes, and the
  contract of an enable bank, \<open>irq_ctl\<close>, on which the behaviour of any sequence of enable
  and disable calls rests. The providers are the PLIC and the CLIC driver.
\<close>

section \<open>Clearing device memory\<close>

text \<open>\<open>for (ptr = base; ptr < (base + size); ptr++) *ptr = 0;\<close>\<close>

function memzero_loop :: "u32 \<Rightarrow> u32 \<Rightarrow> machine \<Rightarrow> machine" where
  "memzero_loop ptr limit s = (if ptr < limit then memzero_loop (ptr + 1) limit (st8 ptr 0 s) else s)"
  by pat_completeness auto
termination
  by (relation "measure (\<lambda>(ptr, limit, s). unat limit - unat ptr)")
    (auto simp: word_less_add_one_unat word_less_nat_alt)

declare memzero_loop.simps [simp del]

definition volatile_memzero :: "u32 \<Rightarrow> u32 \<Rightarrow> machine \<Rightarrow> machine" where
  "volatile_memzero base sz s = memzero_loop base (base + sz) s"

definition zero_bytes :: "u32 \<Rightarrow> nat \<Rightarrow> event list" where
  "zero_bytes base n = map (\<lambda>i. WrB (base + of_nat i) 0) [0..<n]"

lemma zero_bytes_0 [simp]: "zero_bytes base 0 = []"
  by (simp add: zero_bytes_def)

lemma zero_bytes_Suc: "zero_bytes base (Suc n) = WrB base 0 # zero_bytes (base + 1) n"
  by (simp add: zero_bytes_def upt_conv_Cons map_Suc_upt[symmetric] add.assoc del: upt_Suc)

lemma stores_zero_bytes [simp]: "stores (zero_bytes base n) = zero_bytes base n"
  by (simp add: zero_bytes_def stores_def)

lemma memzero_loop_bytes:
  "unat base + n < 2 ^ 32 \<Longrightarrow> memzero_loop base (base + of_nat n) s = logged (zero_bytes base n) s"
proof (induction n arbitrary: base s)
  case 0
  then show ?case by (simp add: memzero_loop.simps)
next
  case (Suc n)
  have u: "unat (base + of_nat (Suc n)) = unat base + Suc n"
    using Suc.prems by (subst unat_plus_no_wrap) (simp_all add: unat_of_nat del: of_nat_Suc)
  then have lt: "base < base + of_nat (Suc n)" by (simp add: word_less_nat_alt)
  have "unat (base + 1) = Suc (unat base)" by (rule word_less_add_one_unat[OF lt])
  then have "memzero_loop (base + 1) (base + 1 + of_nat n) (st8 base 0 s)
      = logged (zero_bytes (base + 1) n) (st8 base 0 s)"
    using Suc.prems by (intro Suc.IH) simp
  with lt show ?case
    by (subst memzero_loop.simps) (simp add: zero_bytes_Suc st8_def add.assoc)
qed

lemma volatile_memzero_bytes:
  assumes "unat base + unat sz < 2 ^ 32"
  shows "volatile_memzero base sz s = logged (zero_bytes base (unat sz)) s"
  using memzero_loop_bytes[OF assms, of s] by (simp add: volatile_memzero_def)

lemma contents_zero_bytes:
  "n \<le> 2 ^ 32 \<Longrightarrow> contents m (zero_bytes base n) a = (if unat (a - base) < n then 0 else m a)"
proof (induction n)
  case (Suc n)
  have "unat (a - base) = n \<longleftrightarrow> a = base + of_nat n"
    using Suc.prems by (auto simp: unat_of_nat)
  with Suc show ?case
    by (auto simp: zero_bytes_def less_Suc_eq)
qed simp

text \<open>Stores of zero bytes only ever clear.\<close>

definition zero_store :: "event \<Rightarrow> bool" where
  "zero_store e \<longleftrightarrow> (\<exists>a. e = WrB a 0 \<or> e = WrW a 0)"

lemma byte_of_zero [simp]: "byte_of i 0 = 0"
  by (simp add: byte_of_def)

lemma zero_store_keeps:
  "\<forall>e\<in>set (stores es). zero_store e \<Longrightarrow> m a = 0 \<Longrightarrow> contents m es a = 0"
proof (induction es arbitrary: m)
  case (Cons e es)
  then have "store e m a = 0"
    by (cases e) (auto simp: zero_store_def)
  with Cons show ?case by (auto split: if_splits)
qed simp

lemma zero_store_zero_bytes: "\<forall>e\<in>set (zero_bytes base n). zero_store e"
  by (auto simp: zero_bytes_def zero_store_def)

section \<open>Tables of words\<close>

text \<open>Different slots of a table of words do not overlap.\<close>

lemma word_diff_not_wrapped:
  assumes "unat x < 1024" "unat y < 1024" "unat x \<noteq> unat (y :: u32)"
  shows "\<not> 2 ^ 30 dvd unat (x - y)"
proof (cases "unat y \<le> unat x")
  case True
  with assms show ?thesis by (auto simp: unat_sub_if' dest: dvd_imp_le)
next
  case False
  let ?k = "unat y - unat x"
  have "2 ^ 30 dvd 2 ^ 32 - (2 ^ 32 - ?k)" if "2 ^ 30 dvd 2 ^ 32 - ?k"
    by (rule dvd_diff_nat[OF _ that]) simp
  moreover have "\<not> 2 ^ 30 dvd ?k" using assms False by (auto dest: dvd_imp_le)
  ultimately have "\<not> 2 ^ 30 dvd 2 ^ 32 - ?k" using assms by auto
  moreover have "unat (x - y) = 2 ^ 32 - ?k"
    using assms False by (simp add: unat_sub_if')
  ultimately show ?thesis by simp
qed

lemma unat_push_bit_2: "unat (push_bit 2 (x :: u32)) = 4 * (unat x mod 2 ^ 30)"
proof -
  have "unat (push_bit 2 x) = (4 * unat x) mod 2 ^ 32"
    by (simp only: unsigned_push_bit_eq) (simp add: push_bit_eq_mult take_bit_eq_mod mult.commute)
  then show ?thesis using mult_mod_right[of 4 "unat x" "2 ^ 30"] by simp
qed

lemma apart_slots:
  assumes "i < 1024" "j < 1024" "i \<noteq> j"
  shows "apart (b + push_bit 2 i) (b + push_bit 2 j)"
proof -
  have u: "unat i < 1024" "unat j < 1024" "unat i \<noteq> unat j"
    using assms by (simp_all add: word_less_nat_alt word_unat_eq_iff)
  have d: "(b + push_bit 2 x) - (b + push_bit 2 y) = push_bit 2 (x - y)" for x y
    by (simp add: push_bit_eq_mult algebra_simps)
  have "4 \<le> unat (push_bit 2 (i - j))" "4 \<le> unat (push_bit 2 (j - i))"
    using word_diff_not_wrapped[OF u(1,2,3)] word_diff_not_wrapped[OF u(2,1)] u(3)
    by (simp_all only: unat_push_bit_2 dvd_eq_mod_eq_0) auto
  then show ?thesis by (simp only: apart_def d)
qed

section \<open>The contract of an enable bank\<close>

datatype irq_cmd = Enable u32 | Disable u32

fun cmd_source :: "irq_cmd \<Rightarrow> u32" where
  "cmd_source (Enable i) = i"
| "cmd_source (Disable i) = i"

text \<open>The abstract bank is the set of enabled sources.\<close>

fun bank_step :: "irq_cmd \<Rightarrow> u32 set \<Rightarrow> u32 set" where
  "bank_step (Enable i) S = insert i S"
| "bank_step (Disable i) S = S - {i}"

locale irq_ctl =
  fixes enable :: "u32 \<Rightarrow> machine \<Rightarrow> machine"
    and disable :: "u32 \<Rightarrow> machine \<Rightarrow> machine"
    and enabled :: "machine \<Rightarrow> u32 \<Rightarrow> bool"
    and valid :: "u32 \<Rightarrow> bool"
    and live :: "machine \<Rightarrow> bool"
  assumes live_enable: "live s \<Longrightarrow> live (enable i s)"
    and live_disable: "live s \<Longrightarrow> live (disable i s)"
    and enabled_enable: "live s \<Longrightarrow> valid i \<Longrightarrow> valid j \<Longrightarrow> enabled (enable i s) j \<longleftrightarrow> j = i \<or> enabled s j"
    and enabled_disable: "live s \<Longrightarrow> valid i \<Longrightarrow> valid j \<Longrightarrow> enabled (disable i s) j \<longleftrightarrow> j \<noteq> i \<and> enabled s j"
begin

fun exec :: "irq_cmd \<Rightarrow> machine \<Rightarrow> machine" where
  "exec (Enable i) s = enable i s"
| "exec (Disable i) s = disable i s"

definition bank :: "machine \<Rightarrow> u32 set" where
  "bank s = {j. valid j \<and> enabled s j}"

lemma exec_live: "live s \<Longrightarrow> live (exec c s)"
  by (cases c) (auto intro: live_enable live_disable)

lemma exec_refines: "live s \<Longrightarrow> valid (cmd_source c) \<Longrightarrow> bank (exec c s) = bank_step c (bank s)"
  by (cases c) (auto simp: bank_def enabled_enable enabled_disable)

lemma run_refines:
  "live s \<Longrightarrow> \<forall>c\<in>set cs. valid (cmd_source c) \<Longrightarrow> bank (fold exec cs s) = fold bank_step cs (bank s)"
  by (induction cs arbitrary: s) (auto simp: exec_refines exec_live)

end

end
