(* ===== verification/Plic.thy ===== *)
theory Plic
  imports Irq
begin

unbundle bit_operations_syntax

text \<open>
  The driver of the platform-level interrupt controller (\<open>drivers/plic/plic_driver.c\<close>).
  The PLIC keeps one enable bit per source and hart (bytes from \<open>PLIC_ENABLE_OFFSET\<close>, 128 bytes
  per hart), one priority word per source, and per hart a threshold and a claim/complete
  register (4096 bytes per hart). The driver reads its hart id from \<open>mhartid\<close> at every call.
\<close>

section \<open>The driver\<close>

record plic_instance =
  base_addr :: u32
  num_sources :: u32
  num_priorities :: u32

definition enable_base :: "plic_instance \<Rightarrow> u32 \<Rightarrow> u32" where
  "enable_base this_plic hart_id =
     base_addr this_plic + PLIC_ENABLE_OFFSET + push_bit PLIC_ENABLE_SHIFT_PER_TARGET hart_id"

definition threshold_ptr :: "plic_instance \<Rightarrow> u32 \<Rightarrow> u32" where
  "threshold_ptr this_plic hart_id =
     base_addr this_plic + PLIC_THRESHOLD_OFFSET + push_bit PLIC_THRESHOLD_SHIFT_PER_TARGET hart_id"

definition claim_addr :: "plic_instance \<Rightarrow> u32 \<Rightarrow> u32" where
  "claim_addr this_plic hart_id =
     base_addr this_plic + PLIC_CLAIM_OFFSET + push_bit PLIC_CLAIM_SHIFT_PER_TARGET hart_id"

definition priority_ptr :: "plic_instance \<Rightarrow> u32 \<Rightarrow> u32" where
  "priority_ptr this_plic source =
     base_addr this_plic + PLIC_PRIORITY_OFFSET + push_bit PLIC_PRIORITY_SHIFT_PER_SOURCE source"

definition PLIC_init ::
  "env \<Rightarrow> plic_instance \<Rightarrow> u32 \<Rightarrow> u32 \<Rightarrow> u32 \<Rightarrow> machine \<Rightarrow> plic_instance \<times> machine" where
  "PLIC_init E this_plic base sources priorities s =
     (let this_plic = this_plic\<lparr>base_addr := base\<rparr>;
          this_plic = this_plic\<lparr>num_sources := sources\<rparr>;
          this_plic = this_plic\<lparr>num_priorities := priorities\<rparr>;
          (hart_id, s) = read_csr E Mhartid s;
          s = volatile_memzero (enable_base this_plic hart_id) ((sources + 8) div 8) s;
          s = volatile_memzero (base_addr this_plic + PLIC_PRIORITY_OFFSET)
                (push_bit PLIC_PRIORITY_SHIFT_PER_SOURCE (sources + 1)) s;
          s = st32 (threshold_ptr this_plic hart_id) 0 s
      in (this_plic, s))"

definition PLIC_set_threshold :: "env \<Rightarrow> plic_instance \<Rightarrow> u32 \<Rightarrow> machine \<Rightarrow> machine" where
  "PLIC_set_threshold E this_plic threshold s =
     (let (hart_id, s) = read_csr E Mhartid s
      in st32 (threshold_ptr this_plic hart_id) threshold s)"

definition PLIC_enable_interrupt :: "env \<Rightarrow> plic_instance \<Rightarrow> u32 \<Rightarrow> machine \<Rightarrow> machine" where
  "PLIC_enable_interrupt E this_plic source s =
     (let (hart_id, s) = read_csr E Mhartid s;
          current_ptr = enable_base this_plic hart_id + drop_bit 3 source;
          (current, s) = ld8 E current_ptr s;
          current = current OR push_bit (unat (source AND 0x7)) 1
      in st8 current_ptr current s)"

definition PLIC_disable_interrupt :: "env \<Rightarrow> plic_instance \<Rightarrow> u32 \<Rightarrow> machine \<Rightarrow> machine" where
  "PLIC_disable_interrupt E this_plic source s =
     (let (hart_id, s) = read_csr E Mhartid s;
          current_ptr = enable_base this_plic hart_id + drop_bit 3 source;
          (current, s) = ld8 E current_ptr s;
          current = current AND NOT (push_bit (unat (source AND 0x7)) 1)
      in st8 current_ptr current s)"

definition PLIC_set_priority :: "plic_instance \<Rightarrow> u32 \<Rightarrow> u32 \<Rightarrow> machine \<Rightarrow> machine" where
  "PLIC_set_priority this_plic source priority s =
     (if num_priorities this_plic > 0 then st32 (priority_ptr this_plic source) priority s else s)"

definition PLIC_claim_interrupt :: "env \<Rightarrow> plic_instance \<Rightarrow> machine \<Rightarrow> u32 \<times> machine" where
  "PLIC_claim_interrupt E this_plic s =
     (let (hart_id, s) = read_csr E Mhartid s in ld32 E (claim_addr this_plic hart_id) s)"

definition PLIC_complete_interrupt :: "env \<Rightarrow> plic_instance \<Rightarrow> u32 \<Rightarrow> machine \<Rightarrow> machine" where
  "PLIC_complete_interrupt E this_plic source s =
     (let (hart_id, s) = read_csr E Mhartid s in st32 (claim_addr this_plic hart_id) source s)"

lemmas plic_addr_defs = enable_base_def threshold_ptr_def claim_addr_def priority_ptr_def
lemmas plic_irq_defs = PLIC_enable_interrupt_def PLIC_disable_interrupt_def

section \<open>Enable bits\<close>

text \<open>The enable bit of a source in what the stores so far have left in the controller.\<close>

definition plic_enabled :: "(u32 \<Rightarrow> u8) \<Rightarrow> plic_instance \<Rightarrow> u32 \<Rightarrow> machine \<Rightarrow> u32 \<Rightarrow> bool" where
  "plic_enabled m0 p hart s source =
     bit (contents m0 (hist s) (enable_base p hart + drop_bit 3 source)) (unat (source AND 0x7))"

text \<open>The PLIC has 1024 sources, so 128 enable bytes per hart.\<close>

definition plic_source_ok :: "u32 \<Rightarrow> bool" where
  "plic_source_ok source \<longleftrightarrow> source < 1024"

definition enable_bytes :: "plic_instance \<Rightarrow> u32 \<Rightarrow> u32 set" where
  "enable_bytes p hart = {enable_base p hart + drop_bit 3 source |source. plic_source_ok source}"

text \<open>
  What the driver relies on: it runs on the hart with this id, and the enable bytes hold what is
  written to them.
\<close>

definition on_hart :: "env \<Rightarrow> u32 \<Rightarrow> bool" where
  "on_hart E hart \<longleftrightarrow> (\<forall>h. E h (LdCsr Mhartid) = hart)"

definition plic_hw :: "env \<Rightarrow> (u32 \<Rightarrow> u8) \<Rightarrow> plic_instance \<Rightarrow> u32 \<Rightarrow> bool" where
  "plic_hw E m0 p hart \<longleftrightarrow>
     on_hart E hart \<and> backed E m0 (enable_bytes p hart)"


lemma and_7_take: "(x :: u32) AND 7 = take_bit 3 x"
  by (simp add: take_bit_eq_mask mask_eq_exp_minus_1)

lemma source_split: "drop_bit 3 i = drop_bit 3 j \<Longrightarrow> (i :: u32) AND 7 = j AND 7 \<Longrightarrow> i = j"
  by (metis and_7_take bits_ident)

lemma source_bit_less: "unat ((x :: u32) AND 7) < 8"
  by (simp add: and_7_take take_bit_eq_mod unat_mod)

lemma source_bit_eq_iff: "unat ((x :: u32) AND 7) = unat (y AND 7) \<longleftrightarrow> x AND 7 = y AND 7"
  by (rule word_unat_eq_iff[symmetric])

lemma bit_source_mask:
  "bit (2 ^ unat (i AND 7) :: u8) (unat (j AND 7)) \<longleftrightarrow> (i :: u32) AND 7 = j AND 7"
  using source_bit_less[of j]
  by (auto simp: bit_exp_iff source_bit_eq_iff[symmetric])

lemma enable_interrupt_events:
  assumes "plic_hw E m0 p hart" "plic_source_ok i"
  shows "PLIC_enable_interrupt E p i s =
    (let a = enable_base p hart + drop_bit 3 i; b = contents m0 (hist s) a
     in logged [RdCsr Mhartid hart, RdB a b, WrB a (b OR push_bit (unat (i AND 7)) 1)] s)"
proof -
  have "enable_base p hart + drop_bit 3 i \<in> enable_bytes p hart"
    using assms(2) by (auto simp: enable_bytes_def)
  with assms(1) have "E h (LdCsr Mhartid) = hart"
    "ucast (E h (LdB (enable_base p hart + drop_bit 3 i))) = contents m0 h (enable_base p hart + drop_bit 3 i)" for h
    by (auto simp: plic_hw_def on_hart_def intro: backedD8)
  then show ?thesis
    by (simp add: plic_irq_defs bus_defs Let_def)
qed

lemma disable_interrupt_events:
  assumes "plic_hw E m0 p hart" "plic_source_ok i"
  shows "PLIC_disable_interrupt E p i s =
    (let a = enable_base p hart + drop_bit 3 i; b = contents m0 (hist s) a
     in logged [RdCsr Mhartid hart, RdB a b, WrB a (b AND NOT (push_bit (unat (i AND 7)) 1))] s)"
proof -
  have "enable_base p hart + drop_bit 3 i \<in> enable_bytes p hart"
    using assms(2) by (auto simp: enable_bytes_def)
  with assms(1) have "E h (LdCsr Mhartid) = hart"
    "ucast (E h (LdB (enable_base p hart + drop_bit 3 i))) = contents m0 h (enable_base p hart + drop_bit 3 i)" for h
    by (auto simp: plic_hw_def on_hart_def intro: backedD8)
  then show ?thesis
    by (simp add: plic_irq_defs bus_defs Let_def)
qed

lemma plic_enabled_enable:
  assumes "plic_hw E m0 p hart" "plic_source_ok i"
  shows "plic_enabled m0 p hart (PLIC_enable_interrupt E p i s) j \<longleftrightarrow> j = i \<or> plic_enabled m0 p hart s j"
  using source_split[of i j]
  by (auto simp: enable_interrupt_events[OF assms] plic_enabled_def Let_def bit_or_iff bit_source_mask)

lemma plic_enabled_disable:
  assumes "plic_hw E m0 p hart" "plic_source_ok i"
  shows "plic_enabled m0 p hart (PLIC_disable_interrupt E p i s) j \<longleftrightarrow> j \<noteq> i \<and> plic_enabled m0 p hart s j"
  using source_split[of i j] source_bit_less[of j]
  by (auto simp: disable_interrupt_events[OF assms] plic_enabled_def Let_def bit_and_iff bit_not_iff
      bit_source_mask)

interpretation plic_bank: irq_ctl "PLIC_enable_interrupt E p" "PLIC_disable_interrupt E p"
    "plic_enabled m0 p hart" plic_source_ok "\<lambda>s. plic_hw E m0 p hart" for E p m0 hart
  by unfold_locales (simp_all add: plic_enabled_enable plic_enabled_disable)

fun plic_exec :: "env \<Rightarrow> plic_instance \<Rightarrow> irq_cmd \<Rightarrow> machine \<Rightarrow> machine" where
  "plic_exec E p (Enable i) s = PLIC_enable_interrupt E p i s"
| "plic_exec E p (Disable i) s = PLIC_disable_interrupt E p i s"

lemma plic_exec_bank: "plic_exec E p = plic_bank.exec E p"
proof (intro ext)
  fix c s
  show "plic_exec E p c s = plic_bank.exec E p c s" by (cases c) simp_all
qed

definition plic_bank_set :: "(u32 \<Rightarrow> u8) \<Rightarrow> plic_instance \<Rightarrow> u32 \<Rightarrow> machine \<Rightarrow> u32 set" where
  "plic_bank_set m0 p hart s = {j. plic_source_ok j \<and> plic_enabled m0 p hart s j}"

text \<open>
  C11. The enable bank of the PLIC refines a set of sources: whatever sequence of enable and
  disable calls is made, for sources that share bytes or not, the sources the controller has
  enabled afterwards are those of the set on which the same commands insert and delete.
\<close>

theorem plic_enables_refine_set:
  assumes "plic_hw E m0 p hart" "\<forall>c\<in>set cs. plic_source_ok (cmd_source c)"
  shows "plic_bank_set m0 p hart (fold (plic_exec E p) cs s)
       = fold bank_step cs (plic_bank_set m0 p hart s)"
  using plic_bank.run_refines[OF assms, of s]
  by (simp add: plic_exec_bank plic_bank.bank_def plic_bank_set_def)

definition plic0 :: plic_instance where
  "plic0 = \<lparr>base_addr = PLIC_CTRL_ADDR, num_sources = 52, num_priorities = 7\<rparr>"

lemma on_hart_ram [simp]: "on_hart (ram_env m0 (\<lambda>c. hart)) hart"
  by (simp add: on_hart_def ram_env_def)

lemma plic_hw_ram: "plic_hw (ram_env m0 (\<lambda>c. hart)) m0 p hart"
  by (simp add: plic_hw_def)

theorem plic_enables_refine_set_witness:
  "plic_bank_set (\<lambda>a. 0) plic0 0
     (fold (plic_exec (ram_env (\<lambda>a. 0) (\<lambda>c. 0)) plic0) [Enable 3, Enable 5, Disable 3] sample_machine)
   = fold bank_step [Enable 3, Enable 5, Disable 3] (plic_bank_set (\<lambda>a. 0) plic0 0 sample_machine)"
  by (rule plic_enables_refine_set[OF plic_hw_ram]) (simp add: plic_source_ok_def)

section \<open>Initialisation\<close>

text \<open>A PLIC whose 64 MiB register window lies in the address space, with the sources and harts it can have.\<close>

definition plic_fits :: "u32 \<Rightarrow> u32 \<Rightarrow> u32 \<Rightarrow> bool" where
  "plic_fits base sources hart \<longleftrightarrow>
     unat base + 0x4000000 \<le> 2 ^ 32 \<and> sources < 1024 \<and> hart \<le> 15871"

definition init_events :: "plic_instance \<Rightarrow> u32 \<Rightarrow> event list" where
  "init_events p hart =
     RdCsr Mhartid hart
     # zero_bytes (enable_base p hart) (unat ((num_sources p + 8) div 8))
     @ zero_bytes (base_addr p) (4 * unat (num_sources p + 1))
     @ [WrW (threshold_ptr p hart) 0]"

lemma unat_push_bit_u32:
  assumes "unat x * 2 ^ n < 2 ^ 32"
  shows "unat (push_bit n (x :: u32)) = unat x * 2 ^ n"
proof -
  have "take_bit 32 (push_bit n (unat x)) = unat x * 2 ^ n"
    using assms by (simp add: push_bit_eq_mult take_bit_eq_mod)
  then show ?thesis by (simp only: unsigned_push_bit_eq) simp
qed

lemma threshold_not_below:
  assumes "plic_fits (base_addr p) (num_sources p) hart"
  shows "unat (enable_base p hart) = unat (base_addr p) + 0x2000 + 128 * unat hart"
    "unat (threshold_ptr p hart) = unat (base_addr p) + 0x200000 + 4096 * unat hart"
    "unat ((num_sources p + 8) div 8) = (unat (num_sources p) + 8) div 8"
    "unat (num_sources p + 1) = unat (num_sources p) + 1"
proof -
  have b: "unat (base_addr p) + 0x4000000 \<le> 2 ^ 32" "unat (num_sources p) < 1024" "unat hart \<le> 15871"
    using assms by (simp_all add: plic_fits_def word_less_nat_alt word_le_nat_alt)
  have "unat (push_bit 7 hart) = 128 * unat hart" "unat (push_bit 12 hart) = 4096 * unat hart"
    using b by (subst unat_push_bit_u32; simp)+
  with b show "unat (enable_base p hart) = unat (base_addr p) + 0x2000 + 128 * unat hart"
    "unat (threshold_ptr p hart) = unat (base_addr p) + 0x200000 + 4096 * unat hart"
    unfolding plic_addr_defs reg_simps by (subst unat_plus_no_wrap; simp; subst unat_plus_no_wrap; simp)+
  show s: "unat (num_sources p + 1) = unat (num_sources p) + 1"
    using b by (subst unat_plus_no_wrap) simp_all
  have "unat (num_sources p + 8) = unat (num_sources p) + 8"
    using b by (subst unat_plus_no_wrap) simp_all
  then show "unat ((num_sources p + 8) div 8) = (unat (num_sources p) + 8) div 8"
    by (simp add: unat_div)
qed

lemma PLIC_init_events:
  assumes "plic_fits base sources hart" "on_hart E hart"
  shows "PLIC_init E p0 base sources priorities s =
    (let p = p0\<lparr>base_addr := base, num_sources := sources, num_priorities := priorities\<rparr>
     in (p, logged (init_events p hart) s))"
proof -
  let ?p = "p0\<lparr>base_addr := base, num_sources := sources, num_priorities := priorities\<rparr>"
  have fits: "plic_fits (base_addr ?p) (num_sources ?p) hart" using assms(1) by simp
  note u = threshold_not_below[OF fits]
  have b: "unat base + 0x4000000 \<le> 2 ^ 32" "unat sources < 1024" "unat hart \<le> 15871"
    using assms(1) by (simp_all add: plic_fits_def word_less_nat_alt word_le_nat_alt)
  have p: "unat (push_bit 2 (sources + 1)) = 4 * unat (sources + 1)"
    using u(4) b by (subst unat_push_bit_u32) simp_all
  have 1: "volatile_memzero (enable_base ?p hart) ((sources + 8) div 8) t
      = logged (zero_bytes (enable_base ?p hart) (unat ((sources + 8) div 8))) t" for t
    using u b by (intro volatile_memzero_bytes) simp
  have 2: "volatile_memzero base (push_bit 2 (sources + 1)) t
      = logged (zero_bytes base (4 * unat (sources + 1))) t" for t
    using volatile_memzero_bytes[of base "push_bit 2 (sources + 1)" t] u b p by simp
  show ?thesis using assms(2)
    by (simp add: PLIC_init_def Let_def read_csr_def on_hart_def 1 2 init_events_def st32_def
        PLIC_PRIORITY_OFFSET_def PLIC_PRIORITY_SHIFT_PER_SOURCE_def)
qed

lemma byte_offset_less_4: "unat (a - b) < 4 \<longleftrightarrow> a \<in> {b, b + 1, b + 2, b + (3 :: u32)}"
proof
  assume "unat (a - b) < 4"
  then have "a - b \<in> of_nat ` {..<4}" by (rule word_less_of_nat_cases)
  also have "{..<4} = {0, 1, 2, 3 :: nat}" by auto
  finally show "a \<in> {b, b + 1, b + 2, b + 3}" by (auto simp: algebra_simps)
qed auto

lemma zero_word_store: "store (WrW b 0) m a = (if unat (a - b) < 4 then 0 else m a)"
  by (simp add: byte_offset_less_4)

lemma init_events_contents:
  assumes "plic_fits (base_addr p) (num_sources p) hart"
  shows "contents m (init_events p hart) a =
    (if unat (a - enable_base p hart) < (unat (num_sources p) + 8) div 8
       \<or> unat (a - base_addr p) < 4 * (unat (num_sources p) + 1)
       \<or> unat (a - threshold_ptr p hart) < 4
     then 0 else m a)"
proof -
  have "unat (num_sources p) < 1024"
    using assms by (simp add: plic_fits_def word_less_nat_alt)
  then show ?thesis
    by (simp add: init_events_def threshold_not_below[OF assms] zero_word_store contents_zero_bytes
        del: store.simps)
qed

definition source_off :: "u32 \<Rightarrow> nat \<Rightarrow> nat" where
  "source_off i k = 4 * unat i + k"

lemma priority_byte_offset:
  assumes "i < 1024" "k < 4"
  shows "unat (priority_ptr p i + of_nat k - base_addr p) = source_off i k"
proof -
  have "unat (push_bit 2 i) = 4 * unat i"
    using assms by (subst unat_push_bit_u32) (simp_all add: word_less_nat_alt)
  moreover have "priority_ptr p i + of_nat k - base_addr p = push_bit 2 i + of_nat k"
    by (simp add: priority_ptr_def reg_simps algebra_simps)
  ultimately show ?thesis
    using assms unfolding source_off_def
    by (simp only:) (subst unat_plus_no_wrap; simp add: unat_of_nat word_less_nat_alt)
qed

text \<open>
  C22. After \<open>PLIC_init\<close> no source is enabled on the calling hart, every priority and the
  threshold are zero, and the instance holds the three arguments; no other byte of the
  controller is changed, whatever its registers held before.
\<close>

theorem plic_init_clears:
  assumes "plic_fits base sources hart" "on_hart E hart"
    and "PLIC_init E p0 base sources priorities s = (p, t)"
  shows "base_addr p = base \<and> num_sources p = sources \<and> num_priorities p = priorities
    \<and> (\<forall>i \<le> sources. \<not> plic_enabled m0 p hart t i
          \<and> word_at (contents m0 (hist t)) (priority_ptr p i) = 0)
    \<and> word_at (contents m0 (hist t)) (threshold_ptr p hart) = 0
    \<and> (\<forall>a. unat (a - enable_base p hart) < (unat sources + 8) div 8
          \<or> unat (a - base) < 4 * (unat sources + 1) \<or> unat (a - threshold_ptr p hart) < 4
          \<or> contents m0 (hist t) a = contents m0 (hist s) a)"
proof -
  have p: "base_addr p = base" "num_sources p = sources" "num_priorities p = priorities"
    and t: "hist t = hist s @ init_events p hart"
    using assms(3) by (auto simp: PLIC_init_events[OF assms(1,2)] Let_def)
  have fits: "plic_fits (base_addr p) (num_sources p) hart" using assms(1) p by simp
  note c = init_events_contents[OF fits, unfolded p]
  have en: "\<not> plic_enabled m0 p hart t i" if "i \<le> sources" for i
  proof -
    have "unat (drop_bit 3 i) < (unat sources + 8) div 8"
      using that by (simp add: word_le_nat_alt drop_bit_eq_div unat_div)
    then show ?thesis by (simp add: plic_enabled_def t c)
  qed
  have pr: "word_at (contents m0 (hist t)) (priority_ptr p i) = 0" if "i \<le> sources" for i
  proof -
    have i: "i < 1024" "unat i \<le> unat sources"
      using that assms(1) by (auto simp: plic_fits_def word_le_nat_alt word_less_nat_alt)
    have "contents m0 (hist t) (priority_ptr p i + of_nat k) = 0" if "k < 4" for k
      using priority_byte_offset[OF i(1) that, of p] i(2) that by (simp add: t c p source_off_def)
    from this[of 0] this[of 1] this[of 2] this[of 3] show ?thesis by (simp add: word_at_def)
  qed
  have "contents m0 (hist t) a = 0" if "unat (a - threshold_ptr p hart) < 4" for a
    using that by (simp add: t c)
  then have th: "word_at (contents m0 (hist t)) (threshold_ptr p hart) = 0"
    by (simp add: word_at_def byte_offset_less_4)
  show ?thesis using p en pr th by (simp add: t c)
qed

theorem plic_init_clears_witness:
  "let (p, t) = PLIC_init (ram_env (\<lambda>a. 255) (\<lambda>c. 1)) plic0 PLIC_CTRL_ADDR 52 7 sample_machine
   in \<not> plic_enabled (\<lambda>a. 255) p 1 t 52 \<and> word_at (contents (\<lambda>a. 255) (hist t)) (threshold_ptr p 1) = 0"
proof -
  have fits: "plic_fits PLIC_CTRL_ADDR 52 1" by (simp add: plic_fits_def reg_simps)
  have "on_hart (ram_env (\<lambda>a. 255) (\<lambda>c. 1)) 1" by simp
  from plic_init_clears[OF fits this, of plic0 7 sample_machine _ _ "\<lambda>a. 255"]
  show ?thesis by (auto split: prod.splits)
qed

section \<open>Priorities and the claim handshake\<close>

lemma priority_ptr_apart:
  "i < 1024 \<Longrightarrow> j < 1024 \<Longrightarrow> i \<noteq> j \<Longrightarrow> apart (priority_ptr p i) (priority_ptr p j)"
  using apart_slots[of i j "base_addr p"] by (simp add: priority_ptr_def reg_simps)

text \<open>
  A priority that is set is the one the controller holds for that source, and no other source's
  priority changes; on an instance with no priorities the call does nothing.
\<close>

theorem plic_priority_set:
  assumes "i < 1024" "j < 1024"
  shows "word_at (contents m0 (hist (PLIC_set_priority p i v s))) (priority_ptr p j) =
    (if num_priorities p > 0 \<and> j = i then v else word_at (contents m0 (hist s)) (priority_ptr p j))"
  using priority_ptr_apart[OF assms(2,1), of p]
  by (cases "j = i") (simp_all add: PLIC_set_priority_def st32_def word_at_store_apart del: store.simps)

theorem plic_priority_set_witness:
  "word_at (contents (\<lambda>a. 0) (hist (PLIC_set_priority plic0 3 5 sample_machine))) (priority_ptr plic0 3) = 5"
  using plic_priority_set[of 3 3 "\<lambda>a. 0" plic0 5 sample_machine] by (simp add: plic0_def)

text \<open>
  The claim handshake: a claim is one load and a completion one store, both of the claim
  register of the calling hart; so completing the source a claim returned writes
  that source back to the register it was read from and touches nothing else, in particular not
  the threshold register that lies next to it.
\<close>

theorem plic_claim_handshake:
  assumes "on_hart E hart" "PLIC_claim_interrupt E p s = (source, t)"
  shows "hist (PLIC_complete_interrupt E p source t) = hist s @
      [RdCsr Mhartid hart, RdW (claim_addr p hart) source, RdCsr Mhartid hart, WrW (claim_addr p hart) source]
    \<and> claim_addr p hart = threshold_ptr p hart + 4
    \<and> word_at (contents m0 (hist (PLIC_complete_interrupt E p source t))) (threshold_ptr p hart)
      = word_at (contents m0 (hist s)) (threshold_ptr p hart)"
proof -
  have h: "hist (PLIC_complete_interrupt E p source t) = hist s @
      [RdCsr Mhartid hart, RdW (claim_addr p hart) source, RdCsr Mhartid hart, WrW (claim_addr p hart) source]"
    using assms by (auto simp: PLIC_complete_interrupt_def PLIC_claim_interrupt_def on_hart_def bus_defs)
  have c: "claim_addr p hart = threshold_ptr p hart + 4"
    by (simp add: claim_addr_def threshold_ptr_def reg_simps algebra_simps)
  have "apart (threshold_ptr p hart) (claim_addr p hart)"
    by (simp add: apart_def c)
  with h c show ?thesis by (simp add: word_at_store_apart del: store.simps)
qed

theorem plic_claim_handshake_witness:
  "let (source, t) = PLIC_claim_interrupt (ram_env (\<lambda>a. 9) (\<lambda>c. 0)) plic0 sample_machine
   in source = 0x09090909
    \<and> word_at (contents (\<lambda>a. 9) (hist (PLIC_complete_interrupt (ram_env (\<lambda>a. 9) (\<lambda>c. 0)) plic0 source t)))
        (threshold_ptr plic0 0) = 0x09090909"
proof -
  let ?E = "ram_env (\<lambda>a. 9) (\<lambda>c. 0)"
  obtain t where c: "PLIC_claim_interrupt ?E plic0 sample_machine = (0x09090909, t)"
    by (simp add: PLIC_claim_interrupt_def bus_defs ram_env_def word_at_def sample_machine_def word_of_def)
  from plic_claim_handshake[OF on_hart_ram c, of "\<lambda>a. 9"] c show ?thesis
    by (simp add: sample_machine_def word_at_def word_of_def)
qed

end
