(* ===== verification/Board.thy ===== *)
theory Board
  imports Plic
begin

unbundle bit_operations_syntax

text \<open>
  The board of the virtual platform: the address ranges its router forwards
  (\<open>gen/platform_mmap.h\<close>, \<open>tgc_vp::system\<close>), the interrupt and pin wiring of
  \<open>system.cpp\<close>, and the register, interrupt and pin numbers of the firmware headers that have to
  agree with them. The router itself, \<open>scc::router\<close>, is a library: a claim about an address is a
  claim about the ranges set for it.
\<close>

section \<open>Address ranges\<close>

datatype target = Clint | Plic_dev | Aon | Prci_dev | Gpio0 | Uart0 | Qspi0 | Pwm0 | Uart1 | Qspi1
  | Pwm1 | Qspi2 | Pwm2 | Mem_qspi | Mem_ram

text \<open>\<open>platfrom_mmap\<close>, spelled as in the source.\<close>

definition platfrom_mmap :: "(target \<times> int \<times> int) list" where
  "platfrom_mmap =
    [(Clint, 0x2000000, 0xc000), (Plic_dev, 0xc000000, 0x200008), (Aon, 0x10000000, 0x150),
     (Prci_dev, 0x10008000, 0x14), (Gpio0, 0x10012000, 0x44), (Uart0, 0x10013000, 0x1c),
     (Qspi0, 0x10014000, 0x78), (Pwm0, 0x10015000, 0x30), (Uart1, 0x10023000, 0x1c),
     (Qspi1, 0x10024000, 0x78), (Pwm1, 0x10025000, 0x30), (Qspi2, 0x10034000, 0x78),
     (Pwm2, 0x10035000, 0x30)]"

text \<open>The constructor of \<open>system\<close> sets these ranges and adds the two memories.\<close>

definition target_ranges :: "(target \<times> int \<times> int) list" where
  "target_ranges =
     platfrom_mmap @ [(Mem_qspi, 0x20000000, 512 * 1024 * 1024), (Mem_ram, 0x80000000, 128 * 1024)]"

definition in_range :: "int \<Rightarrow> target \<times> int \<times> int \<Rightarrow> bool" where
  "in_range a r \<longleftrightarrow> (case r of (_, b, n) \<Rightarrow> b \<le> a \<and> a < b + n)"

text \<open>The targets whose range contains an address.\<close>

definition targets_at :: "int \<Rightarrow> target list" where
  "targets_at a = map fst (filter (in_range a) target_ranges)"

text \<open>An access of \<open>n\<close> bytes that lies within one range.\<close>

definition reaches :: "target \<Rightarrow> u32 \<Rightarrow> int \<Rightarrow> bool" where
  "reaches t a n \<longleftrightarrow>
     list_ex (\<lambda>(t', b, m). t' = t \<and> b \<le> uint a \<and> uint a + n \<le> b + m) target_ranges"

definition mapped :: "u32 \<Rightarrow> int \<Rightarrow> bool" where
  "mapped a n \<longleftrightarrow> list_ex (\<lambda>(_, b, m). b \<le> uint a \<and> uint a + n \<le> b + m) target_ranges"

section \<open>Registers of the device headers\<close>

definition clint_registers :: "u32 list" where
  "clint_registers = [0x0000, 0x4000, 0xBFF8]"

definition clint_sizes :: "int list" where
  "clint_sizes = [0x4, 0x8, 0x8]"

definition aon_registers :: "u32 list" where
  "aon_registers =
    [0x000, 0x008, 0x010, 0x018, 0x01C, 0x020,
     0x040, 0x048, 0x04C, 0x050, 0x060,
     0x080, 0x084, 0x088, 0x08C, 0x090, 0x094, 0x098, 0x09C,
     0x0A0, 0x0A4, 0x0A8, 0x0AC, 0x0B0, 0x0B4, 0x0B8, 0x0BC,
     0x100, 0x104, 0x108, 0x10C, 0x110, 0x114, 0x118, 0x11C,
     0x120, 0x124, 0x128, 0x12C, 0x130, 0x134, 0x138, 0x13C,
     0x140, 0x144, 0x148, 0x14C, 0x070]"

definition prci_registers :: "u32 list" where
  "prci_registers = [0x0000, 0x0004, 0x0008, 0x000C, 0x00F0]"

definition gpio_registers :: "u32 list" where
  "gpio_registers = [0x00, 0x04, 0x08, 0x0C, 0x10, 0x14, 0x18, 0x1C, 0x20, 0x24, 0x28, 0x2C, 0x30,
     0x34, 0x38, 0x3C, 0x40]"

definition uart_registers :: "u32 list" where
  "uart_registers = [0x00, 0x04, 0x08, 0x0c, 0x10, 0x14, 0x18]"

definition spi_registers :: "u32 list" where
  "spi_registers = [0x00, 0x04, 0x10, 0x14, 0x18, 0x28, 0x2a, 0x2c, 0x2e, 0x40, 0x48, 0x4c, 0x50,
     0x54, 0x60, 0x64, 0x70, 0x74]"

definition pwm_registers :: "u32 list" where
  "pwm_registers = [0x00, 0x08, 0x10, 0x20, 0x24, 0x28, 0x2C]"

definition otp_registers :: "u32 list" where
  "otp_registers = [0x00, 0x04, 0x08, 0x0C, 0x10, 0x14, 0x18, 0x1C, 0x20, 0x24, 0x28, 0x2C, 0x30, 0x34]"

lemmas register_defs = aon_registers_def prci_registers_def gpio_registers_def uart_registers_def
  spi_registers_def pwm_registers_def otp_registers_def

text \<open>The blocks that \<open>platform.h\<close> gives a base address and a register accessor, with their registers.\<close>

definition device_blocks :: "(target \<times> u32 \<times> u32 list) list" where
  "device_blocks =
    [(Aon, AON_CTRL_ADDR, aon_registers), (Prci_dev, PRCI_CTRL_ADDR, prci_registers),
     (Gpio0, GPIO_CTRL_ADDR, gpio_registers), (Uart0, UART0_CTRL_ADDR, uart_registers),
     (Qspi0, SPI0_CTRL_ADDR, spi_registers), (Pwm0, PWM0_CTRL_ADDR, pwm_registers),
     (Uart1, UART1_CTRL_ADDR, uart_registers), (Qspi1, SPI1_CTRL_ADDR, spi_registers),
     (Pwm1, PWM1_CTRL_ADDR, pwm_registers), (Qspi2, SPI2_CTRL_ADDR, spi_registers),
     (Pwm2, PWM2_CTRL_ADDR, pwm_registers)]"

section \<open>Interrupt and pin numbers of platform.h\<close>

definition INT_WDOGCMP :: nat where "INT_WDOGCMP = 1"

definition INT_RTCCMP :: nat where "INT_RTCCMP = 2"

definition INT_UART0_BASE :: nat where "INT_UART0_BASE = 3"

definition INT_UART1_BASE :: nat where "INT_UART1_BASE = 4"

definition INT_SPI0_BASE :: nat where "INT_SPI0_BASE = 5"

definition INT_SPI1_BASE :: nat where "INT_SPI1_BASE = 6"

definition INT_SPI2_BASE :: nat where "INT_SPI2_BASE = 7"

definition INT_GPIO_BASE :: nat where "INT_GPIO_BASE = 8"

definition INT_PWM0_BASE :: nat where "INT_PWM0_BASE = 40"

definition INT_PWM1_BASE :: nat where "INT_PWM1_BASE = 44"

definition INT_PWM2_BASE :: nat where "INT_PWM2_BASE = 48"

definition NUM_GPIO :: nat where "NUM_GPIO = 32"

definition PLIC_NUM_INTERRUPTS :: nat where "PLIC_NUM_INTERRUPTS = 52"

lemmas int_defs = INT_WDOGCMP_def INT_RTCCMP_def INT_UART0_BASE_def INT_UART1_BASE_def
  INT_SPI0_BASE_def INT_SPI1_BASE_def INT_SPI2_BASE_def INT_GPIO_BASE_def INT_PWM0_BASE_def
  INT_PWM1_BASE_def INT_PWM2_BASE_def NUM_GPIO_def PLIC_NUM_INTERRUPTS_def

text \<open>The first interrupt source of a device; the devices without one have none.\<close>

fun int_base :: "target \<Rightarrow> nat option" where
  "int_base Uart0 = Some INT_UART0_BASE"
| "int_base Uart1 = Some INT_UART1_BASE"
| "int_base Qspi0 = Some INT_SPI0_BASE"
| "int_base Qspi1 = Some INT_SPI1_BASE"
| "int_base Qspi2 = Some INT_SPI2_BASE"
| "int_base Gpio0 = Some INT_GPIO_BASE"
| "int_base Pwm0 = Some INT_PWM0_BASE"
| "int_base Pwm1 = Some INT_PWM1_BASE"
| "int_base Pwm2 = Some INT_PWM2_BASE"
| "int_base _ = None"

definition IOF0_SPI1_MASK :: u32 where "IOF0_SPI1_MASK = 0x000007FC"

definition IOF0_SPI2_MASK :: u32 where "IOF0_SPI2_MASK = 0xFC000000"

definition IOF0_UART1_MASK :: u32 where "IOF0_UART1_MASK = 0x03000000"

definition IOF1_PWM0_MASK :: u32 where "IOF1_PWM0_MASK = 0x0000000F"

definition IOF1_PWM1_MASK :: u32 where "IOF1_PWM1_MASK = 0x00780000"

definition IOF1_PWM2_MASK :: u32 where "IOF1_PWM2_MASK = 0x00003C00"

lemmas iof_defs = IOF0_SPI1_MASK_def IOF0_SPI2_MASK_def IOF0_UART0_MASK_def IOF0_UART1_MASK_def
  IOF1_PWM0_MASK_def IOF1_PWM1_MASK_def IOF1_PWM2_MASK_def

text \<open>Signals at the pins, with the pin numbers \<open>IOF_SPI1_*\<close> and \<open>IOF_UART0_*\<close>.\<close>

datatype signal = Sck | Mosi | Miso | Scs nat | Tx | Rx

definition iof_spi1_pins :: "(nat \<times> signal) list" where
  "iof_spi1_pins = [(2, Scs 0), (8, Scs 1), (9, Scs 2), (10, Scs 3), (3, Mosi), (4, Miso), (5, Sck)]"

definition iof_uart0_pins :: "(nat \<times> signal) list" where
  "iof_uart0_pins = [(16, Rx), (17, Tx)]"

section \<open>Wiring of system.cpp\<close>

text \<open>Output number of a device and the global interrupt it drives.\<close>

definition irq_wiring :: "(target \<times> nat \<times> nat) list" where
  "irq_wiring =
    [(Uart0, 0, 3), (Qspi0, 0, 5), (Qspi1, 0, 6), (Qspi2, 0, 7), (Uart1, 0, 4),
     (Pwm0, 0, 40), (Pwm0, 1, 41), (Pwm0, 2, 42), (Pwm0, 3, 43),
     (Pwm1, 0, 44), (Pwm1, 1, 45), (Pwm1, 2, 46), (Pwm1, 3, 47),
     (Pwm2, 0, 48), (Pwm2, 1, 49), (Pwm2, 2, 50), (Pwm2, 3, 51)]"

definition iof0_wiring :: "(target \<times> nat \<times> signal) list" where
  "iof0_wiring =
    [(Qspi1, 5, Sck), (Qspi1, 3, Mosi), (Qspi1, 4, Miso), (Qspi1, 2, Scs 0), (Qspi1, 9, Scs 2),
     (Qspi1, 10, Scs 3), (Uart1, 16, Tx), (Uart1, 17, Rx)]"

text \<open>Pin and comparator output of the PWM units.\<close>

definition iof1_wiring :: "(target \<times> nat \<times> nat) list" where
  "iof1_wiring =
    [(Pwm0, 0, 0), (Pwm0, 1, 1), (Pwm0, 2, 2), (Pwm0, 3, 3),
     (Pwm2, 10, 0), (Pwm2, 11, 1), (Pwm2, 12, 2), (Pwm2, 13, 3),
     (Pwm1, 19, 0), (Pwm1, 20, 1), (Pwm1, 21, 2), (Pwm1, 22, 3)]"

text \<open>The pins a device is connected to, as a mask.\<close>

definition pin_mask :: "(target \<times> nat \<times> 'a) list \<Rightarrow> target \<Rightarrow> u32" where
  "pin_mask wiring t = foldr (\<lambda>(_, pin, _) m. push_bit pin 1 OR m) (filter (\<lambda>(t', _, _). t' = t) wiring) 0"

lemmas wiring_defs = irq_wiring_def iof0_wiring_def iof1_wiring_def iof_spi1_pins_def iof_uart0_pins_def

section \<open>Ranges\<close>

text \<open>A list of ranges in ascending order without overlap claims an address at most once.\<close>

definition ascending :: "(target \<times> int \<times> int) list \<Rightarrow> bool" where
  "ascending = sorted_wrt (\<lambda>(_, b, n) (_, b', _). b + n \<le> b')"

lemma ascending_claims_once:
  assumes "ascending rs"
  shows "length (filter (in_range a) rs) \<le> 1"
  using assms
proof (induction rs)
  case (Cons r rs)
  have "\<not> in_range a r'" if "in_range a r" "r' \<in> set rs" for r'
    using Cons.prems that by (fastforce simp: ascending_def in_range_def)
  then have "filter (in_range a) rs = []" if "in_range a r" using that by (simp add: filter_empty_conv)
  moreover have "ascending rs" using Cons.prems by (simp add: ascending_def)
  ultimately show ?case using Cons.IH by auto
qed simp

lemma ranges_ascending: "ascending target_ranges"
  by (simp add: ascending_def target_ranges_def platfrom_mmap_def)

lemma claimed_once: "length (targets_at a) \<le> 1"
  using ascending_claims_once[OF ranges_ascending] by (simp add: targets_at_def)

text \<open>
  No address belongs to two targets of the router: the thirteen devices of the generated
  map and the two memories have disjoint ranges.
\<close>

theorem address_has_one_target: "length (targets_at a) \<le> 1"
  by (rule claimed_once)

lemma reaches_targets_at:
  assumes "reaches t a n" "0 < n"
  shows "targets_at (uint a) = [t]"
proof -
  have "t \<in> set (targets_at (uint a))"
    using assms by (force simp: reaches_def list_ex_iff targets_at_def in_range_def image_iff)
  with claimed_once[of "uint a"] show ?thesis
    by (cases "targets_at (uint a)") auto
qed

lemma reaches_mapped: "reaches t a n \<Longrightarrow> mapped a n"
  by (force simp: reaches_def mapped_def list_ex_iff)

section \<open>Registers and ranges\<close>

text \<open>The registers of the blocks, and those whose four bytes are not in the range of the block.\<close>

definition block_registers :: "(target \<times> u32) list" where
  "block_registers = concat (map (\<lambda>(t, base, rs). map (\<lambda>r. (t, base + r)) rs) device_blocks)"

text \<open>
  The firmware headers and the address map of the platform agree on the device registers:
  of all registers that the headers declare for the blocks of \<open>platform.h\<close>, exactly one is out
  of the range of its device, \<open>PRCI_PROCMONCFG\<close>; the timer registers are in range with the
  sizes \<open>clint.h\<close> gives; and no register of the OTP block is in any range.
\<close>

theorem device_registers_routed:
  "filter (\<lambda>(t, a). \<not> reaches t a 4) block_registers = [(Prci_dev, PRCI_CTRL_ADDR + 0xF0)]
   \<and> list_all2 (\<lambda>r n. reaches Clint (CLINT_CTRL_ADDR + r) n) clint_registers clint_sizes
   \<and> list_all (\<lambda>r. targets_at (uint (OTP_CTRL_ADDR + r)) = []) otp_registers"
  by code_simp

lemma irq_wiring_numbers:
  "list_all (\<lambda>(t, k, i). map_option (\<lambda>b. b + k) (int_base t) = Some i \<and> i < PLIC_NUM_INTERRUPTS) irq_wiring
   \<and> distinct (map (snd \<circ> snd) irq_wiring)
   \<and> filter (\<lambda>i. i \<notin> snd ` snd ` set irq_wiring) [1..<PLIC_NUM_INTERRUPTS]
       = [INT_WDOGCMP, INT_RTCCMP] @ [INT_GPIO_BASE..<INT_GPIO_BASE + NUM_GPIO]"
  by code_simp

lemma pwm_and_spi_pins:
  "pin_mask iof1_wiring Pwm0 = IOF1_PWM0_MASK \<and> pin_mask iof1_wiring Pwm1 = IOF1_PWM1_MASK
   \<and> pin_mask iof1_wiring Pwm2 = IOF1_PWM2_MASK
   \<and> list_all (\<lambda>(_, pin, sig). (pin, sig) \<in> set iof_spi1_pins) (filter (\<lambda>(t, _, _). t = Qspi1) iof0_wiring)"
  by code_simp

lemma uart_pins:
  "pin_mask iof0_wiring Uart1 = IOF0_UART0_MASK \<and> pin_mask iof0_wiring Uart0 = 0
   \<and> list_all (\<lambda>(pin, sig). (Uart1, pin, if sig = Rx then Tx else Rx) \<in> set iof0_wiring) iof_uart0_pins
   \<and> (pin_mask iof0_wiring Uart1 OR pin_mask iof0_wiring Qspi1) AND IOF0_UART1_MASK = 0"
  by code_simp

text \<open>
  The wiring of the platform against the numbers of \<open>platform.h\<close>. Every wire to the
  interrupt controller carries the number of its device plus the number of the output, no two
  wires share a number, and all are below \<open>PLIC_NUM_INTERRUPTS\<close>; of the declared numbers, those of the
  watchdog, the real-time clock and all GPIO pins are not connected. The pins of the PWM units and
  the connected signals of SPI 1 are those of the headers. The UARTs disagree: the pins that the
  firmware switches to UART 0 are those of UART 1, with transmit and receive exchanged, and neither UART 0
  nor the pins of \<open>IOF0_UART1_MASK\<close> are connected.
\<close>

theorem wiring_agrees_except_uart:
  "(list_all (\<lambda>(t, k, i). map_option (\<lambda>b. b + k) (int_base t) = Some i \<and> i < PLIC_NUM_INTERRUPTS) irq_wiring
    \<and> distinct (map (snd \<circ> snd) irq_wiring)
    \<and> filter (\<lambda>i. i \<notin> snd ` snd ` set irq_wiring) [1..<PLIC_NUM_INTERRUPTS]
        = [INT_WDOGCMP, INT_RTCCMP] @ [INT_GPIO_BASE..<INT_GPIO_BASE + NUM_GPIO])
   \<and> (pin_mask iof1_wiring Pwm0 = IOF1_PWM0_MASK \<and> pin_mask iof1_wiring Pwm1 = IOF1_PWM1_MASK
    \<and> pin_mask iof1_wiring Pwm2 = IOF1_PWM2_MASK
    \<and> list_all (\<lambda>(_, pin, sig). (pin, sig) \<in> set iof_spi1_pins) (filter (\<lambda>(t, _, _). t = Qspi1) iof0_wiring))
   \<and> (pin_mask iof0_wiring Uart1 = IOF0_UART0_MASK \<and> pin_mask iof0_wiring Uart0 = 0
    \<and> list_all (\<lambda>(pin, sig). (Uart1, pin, if sig = Rx then Tx else Rx) \<in> set iof0_wiring) iof_uart0_pins
    \<and> (pin_mask iof0_wiring Uart1 OR pin_mask iof0_wiring Qspi1) AND IOF0_UART1_MASK = 0)"
  by (intro conjI[OF irq_wiring_numbers conjI[OF pwm_and_spi_pins uart_pins]])

section \<open>The interrupt controller and harts\<close>

definition PLIC_MAX_SOURCE :: u32 where "PLIC_MAX_SOURCE = 1023"

definition PLIC_MAX_TARGET :: u32 where "PLIC_MAX_TARGET = 15871"

lemma reaches_plic: "reaches Plic_dev a n \<longleftrightarrow> 0xc000000 \<le> uint a \<and> uint a + n \<le> 0xc200008"
  by (simp add: reaches_def target_ranges_def platfrom_mmap_def)

lemma uint_offset:
  assumes "uint (b :: u32) + uint x * 2 ^ k < 2 ^ 32"
  shows "uint (b + push_bit k x) = uint b + uint x * 2 ^ k"
proof -
  have "uint x * 2 ^ k < 2 ^ 32" using assms uint_nonnegative[of b] by linarith
  then have "uint (push_bit k x) = uint x * 2 ^ k"
    by (simp only: unsigned_push_bit_eq) (simp add: take_bit_eq_mod push_bit_eq_mult)
  with assms show ?thesis by (simp add: uint_plus_if_size word_size)
qed

text \<open>Where the driver finds the registers of a source and of a hart, without wrap-around.\<close>

lemma plic_addresses:
  assumes "base_addr p = PLIC_CTRL_ADDR" "h \<le> PLIC_MAX_TARGET" "i \<le> PLIC_MAX_SOURCE"
  shows "uint h \<le> 15871" "uint i \<le> 1023" "uint (drop_bit 3 i) \<le> 127"
    "uint (priority_ptr p i) = 0xc000000 + uint i * 4"
    "uint (enable_base p h + drop_bit 3 i) = 0xc002000 + uint h * 128 + uint (drop_bit 3 i)"
    "uint (threshold_ptr p h) = 0xc200000 + uint h * 4096"
    "uint (claim_addr p h) = 0xc200004 + uint h * 4096"
proof -
  show h: "uint h \<le> 15871" and i: "uint i \<le> 1023"
    using assms(2,3) by (simp_all add: PLIC_MAX_TARGET_def PLIC_MAX_SOURCE_def word_le_def)
  show d: "uint (drop_bit 3 i) \<le> 127" using i by (simp add: drop_bit_eq_div uint_div)
  have e: "uint (enable_base p h) = 0xc002000 + uint h * 128"
    using uint_offset[of "0xc002000" h 7] h by (simp add: enable_base_def assms(1) reg_simps)
  show "uint (enable_base p h + drop_bit 3 i) = 0xc002000 + uint h * 128 + uint (drop_bit 3 i)"
    using e h d by (simp add: uint_plus_if_size word_size)
  show "uint (priority_ptr p i) = 0xc000000 + uint i * 4"
    using uint_offset[of "0xc000000" i 2] i by (simp add: priority_ptr_def assms(1) reg_simps)
  show "uint (threshold_ptr p h) = 0xc200000 + uint h * 4096"
    using uint_offset[of "0xc200000" h 12] h by (simp add: threshold_ptr_def assms(1) reg_simps)
  show "uint (claim_addr p h) = 0xc200004 + uint h * 4096"
    using uint_offset[of "0xc200004" h 12] h by (simp add: claim_addr_def assms(1) reg_simps)
qed

text \<open>
  C40. On the address map of the platform, a driver instance at \<open>PLIC_CTRL_ADDR\<close> reaches the
  priority register of every source and the enable bytes of every hart up to \<open>PLIC_MAX_TARGET\<close>,
  but the threshold and the claim register of hart 0 only: those of any other hart are not routed.
\<close>

theorem plic_routed_for_hart_0_only:
  assumes "base_addr p = PLIC_CTRL_ADDR" "h \<le> PLIC_MAX_TARGET" "i \<le> PLIC_MAX_SOURCE"
  shows "reaches Plic_dev (priority_ptr p i) 4 \<and> reaches Plic_dev (enable_base p h + drop_bit 3 i) 1
     \<and> (reaches Plic_dev (threshold_ptr p h) 4 \<longleftrightarrow> h = 0) \<and> (reaches Plic_dev (claim_addr p h) 4 \<longleftrightarrow> h = 0)"
proof -
  have "1 \<le> uint h" if "h \<noteq> 0"
    using that uint_nonnegative[of h] uint_0_iff[of h] by linarith
  moreover have "0 \<le> uint i" "0 \<le> uint h" "0 \<le> uint (drop_bit 3 i)" by simp_all
  ultimately show ?thesis using plic_addresses[OF assms] unfolding reaches_plic by (cases "h = 0") auto
qed

theorem plic_routed_for_hart_0_only_witness:
  "reaches Plic_dev (priority_ptr plic0 52) 4 \<and> \<not> reaches Plic_dev (threshold_ptr plic0 1) 4"
  using plic_routed_for_hart_0_only[of plic0 1 52]
  by (simp add: plic0_def PLIC_CTRL_ADDR_def PLIC_MAX_TARGET_def PLIC_MAX_SOURCE_def)

end
