(* ===== verification/Access.thy ===== *)
theory Access
  imports Hello Board
begin

unbundle bit_operations_syntax

text \<open>
  Where the firmware reaches: every load and store of the start-up code, the clock driver, the
  console, the trap handler and the demonstration program is aligned and falls into a range that the
  router of the platform forwards. Each routine of the firmware has one preservation rule, and the rule of a routine rests on those of
  the routines it calls.
\<close>

section \<open>Accesses on the map\<close>

definition word_ok :: "u32 \<Rightarrow> bool" where
  "word_ok a \<longleftrightarrow> mapped a 4 \<and> 4 dvd uint a"

fun routed :: "event \<Rightarrow> bool" where
  "routed (RdW a v) = word_ok a"
| "routed (WrW a v) = word_ok a"
| "routed (RdB a v) = mapped a 1"
| "routed (WrB a v) = mapped a 1"
| "routed _ = True"

definition on_map :: "machine \<Rightarrow> bool" where
  "on_map s \<longleftrightarrow> list_all routed (hist s)"

lemma on_map_logged: "on_map (logged es s) \<longleftrightarrow> on_map s \<and> list_all routed es"
  by (simp add: on_map_def)

lemma on_map_cpu_freq [simp]: "on_map (s\<lparr>cpu_freq := f\<rparr>) = on_map s"
  by (simp add: on_map_def)

lemma mapped_in: "mapped a n \<longleftrightarrow> (\<exists>(t, b, m) \<in> set target_ranges. b \<le> uint a \<and> uint a + n \<le> b + m)"
  by (auto simp: mapped_def list_ex_iff)

lemma firmware_registers:
  "word_ok TXFIFO" "word_ok HFROSCCFG" "word_ok PLLCFG" "word_ok PLLDIV" "word_ok MTIME"
  "word_ok (AON_REG AON_LFROSC)" "word_ok (SPI0_REG SPI_REG_SCKDIV)"
  "word_ok (GPIO_REG GPIO_IOF_SEL)" "word_ok (GPIO_REG GPIO_IOF_EN)"
  "word_ok (UART0_REG UART_REG_DIV)" "word_ok (UART0_REG UART_REG_TXCTRL)"
  by (simp_all add: word_ok_def mapped_def target_ranges_def platfrom_mmap_def reg_simps)

section \<open>Primitive accesses\<close>

lemma ld32_on_map: "ld32 E a s = (v, t) \<Longrightarrow> on_map s \<Longrightarrow> word_ok a \<Longrightarrow> on_map t"
  by (auto simp: ld32_def on_map_logged)

lemma read_csr_on_map: "read_csr E c s = (v, t) \<Longrightarrow> on_map s \<Longrightarrow> on_map t"
  by (auto simp: read_csr_def on_map_logged)

lemma store_on_map [simp]:
  "on_map (st32 a v s) \<longleftrightarrow> on_map s \<and> word_ok a"
  "on_map (write_csr c v s) \<longleftrightarrow> on_map s"
  "on_map (reg_or E a m s) \<longleftrightarrow> on_map s \<and> word_ok a"
  "on_map (reg_and E a m s) \<longleftrightarrow> on_map s \<and> word_ok a"
  by (auto simp: st32_def write_csr_def reg_or_def reg_and_def ld32_def on_map_logged)

lemma poll_on_map: "poll E busy a s = Some (v, t) \<Longrightarrow> on_map s \<Longrightarrow> word_ok a \<Longrightarrow> on_map t"
  by (auto simp: poll_Some_iff on_map_logged list_all_iff dest!: polls_reads)

section \<open>Console\<close>

lemma tx_byte_on_map: "tx_byte E c s = Some t \<Longrightarrow> on_map s \<Longrightarrow> on_map t"
  by (auto simp: tx_byte_def firmware_registers elim!: bind_eq_SomeE dest: poll_on_map)

lemma tx_loop_on_map: "tx_loop E cs s = Some t \<Longrightarrow> on_map s \<Longrightarrow> on_map t"
  by (induction cs arbitrary: s) (auto elim!: bind_eq_SomeE split: if_splits dest!: tx_byte_on_map)

lemma wrap_write_on_map: "wrap_write E fd buf s = Some (r, t) \<Longrightarrow> on_map s \<Longrightarrow> on_map t"
  by (auto simp: wrap_write_def elim!: bind_eq_SomeE split: if_splits dest: tx_loop_on_map)

lemma console_putch_on_map: "console_putch E ch s = Some t \<Longrightarrow> on_map s \<Longrightarrow> on_map t"
  by (auto simp: console_putch_def putchar_def elim!: bind_eq_SomeE dest: wrap_write_on_map)

lemma run_all_on_map:
  assumes "\<And>x s t. f x s = Some t \<Longrightarrow> on_map s \<Longrightarrow> on_map t" "run_all f xs s = Some t" "on_map s"
  shows "on_map t"
  using assms(2,3) by (induction xs arbitrary: s) (auto elim!: bind_eq_SomeE dest: assms(1))

lemma wrap_printf_on_map: "wrap_printf E fmt args s = Some (r, t) \<Longrightarrow> on_map s \<Longrightarrow> on_map t"
  by (auto simp: wrap_printf_def vprintfmt_format elim!: bind_eq_SomeE
      intro: run_all_on_map[OF console_putch_on_map])

lemma hex_loop_on_map: "hex_loop E fd hex n s = Some t \<Longrightarrow> on_map s \<Longrightarrow> on_map t"
  by (induction n arbitrary: s) (auto elim!: bind_eq_SomeE dest: wrap_write_on_map)

lemma wrap_exit_on_map: "wrap_exit E code s = Some t \<Longrightarrow> on_map s \<Longrightarrow> on_map t"
  by (auto simp: wrap_exit_def write_hex_def elim!: bind_eq_SomeE
      dest!: wrap_write_on_map hex_loop_on_map)

section \<open>Clocks\<close>

lemma use_hfrosc_on_map: "PRCI_use_hfrosc E dv trim s = Some t \<Longrightarrow> on_map s \<Longrightarrow> on_map t"
  by (auto simp: PRCI_use_hfrosc_def firmware_registers elim!: bind_eq_SomeE dest!: poll_on_map)

lemma program_pll_on_map: "program_pll E cfg s = Some t \<Longrightarrow> on_map s \<Longrightarrow> on_map t"
  by (auto simp: program_pll_def firmware_registers Let_def split: prod.splits elim!: bind_eq_SomeE
      dest!: poll_on_map ld32_on_map)

lemma use_pll_on_map: "use_pll E refsel bypass r f q s = Some t \<Longrightarrow> on_map s \<Longrightarrow> on_map t"
  by (auto simp: use_pll_def use_hfrosc_driver firmware_registers Let_def split: prod.splits if_splits
      elim!: bind_eq_SomeE dest!: ld32_on_map use_hfrosc_on_map program_pll_on_map)

lemma driver_use_pll_on_map:
  "PRCI_use_pll E refsel bypass r f q finaldiv dv trim s = Some t \<Longrightarrow> on_map s \<Longrightarrow> on_map t"
  by (auto simp: PRCI_use_pll_def select_pll_def firmware_registers Let_def split: prod.splits if_splits
      elim!: bind_eq_SomeE dest!: ld32_on_map use_hfrosc_on_map program_pll_on_map)

lemma use_default_clocks_on_map: "use_default_clocks E s = Some t \<Longrightarrow> on_map s \<Longrightarrow> on_map t"
  by (auto simp: use_default_clocks_def use_hfrosc_driver firmware_registers dest!: use_hfrosc_on_map)

section \<open>Measurements\<close>

lemma measure_cpu_freq_on_map: "measure_cpu_freq E n s = Some (v, t) \<Longrightarrow> on_map s \<Longrightarrow> on_map t"
  by (auto simp: measure_cpu_freq_def mtime_lo_def mtime_addr firmware_registers Let_def
      split: prod.splits if_splits elim!: bind_eq_SomeE dest!: ld32_on_map read_csr_on_map poll_on_map)

lemma get_cpu_freq_on_map: "get_cpu_freq E s = Some (v, t) \<Longrightarrow> on_map s \<Longrightarrow> on_map t"
  by (auto simp: get_cpu_freq_def split: if_splits elim!: bind_eq_SomeE dest!: measure_cpu_freq_on_map)

lemma wide_read_on_map:
  assumes "\<And>s v t. hi s = (v, t) \<Longrightarrow> on_map s \<Longrightarrow> on_map t" "\<And>s v t. lo s = (v, t) \<Longrightarrow> on_map s \<Longrightarrow> on_map t"
    and "wide_read hi lo s = Some r" "on_map s"
  shows "on_map (snd r)"
proof (rule wide_read.raw_induct[where P = "\<lambda>h l s r. h = hi \<longrightarrow> l = lo \<longrightarrow> on_map s \<longrightarrow> on_map (snd r)",
      OF _ assms(3), rule_format, OF _ refl refl assms(4)])
  fix f and h l :: "machine \<Rightarrow> u32 \<times> machine" and s r
  assume IH: "\<And>h l s r. f h l s = Some r \<Longrightarrow> h = hi \<Longrightarrow> l = lo \<Longrightarrow> on_map s \<Longrightarrow> on_map (snd r)"
    and eq: "(let (hi, s) = h s; (lo, s) = l s; (hi2, s) = h s
      in if hi \<noteq> hi2 then f h l s else Some (ucast lo OR push_bit 32 (ucast hi), s)) = Some r"
    and h: "h = hi" "l = lo" "on_map s"
  obtain a s1 b s2 c s3 where 1: "hi s = (a, s1)" "lo s1 = (b, s2)" "hi s2 = (c, s3)" by (metis surj_pair)
  have "on_map s3" using assms(1)[OF 1(3) assms(2)[OF 1(2) assms(1)[OF 1(1) h(3)]]] .
  with eq IH[of hi lo s3 r] 1 h show "on_map (snd r)" by (auto split: if_splits)
qed

lemma rdmcycle_on_map: "rdmcycle E s = Some (v, t) \<Longrightarrow> on_map s \<Longrightarrow> on_map t"
  using wide_read_on_map[of "read_csr E Mcycleh" "read_csr E Mcycle" s "(v, t)"]
  by (auto simp: rdmcycle_def dest: read_csr_on_map)

lemma measure_mcycle_on_map: "PRCI_measure_mcycle_freq E n f s = Some (v, t) \<Longrightarrow> on_map s \<Longrightarrow> on_map t"
  by (auto simp: PRCI_measure_mcycle_freq_def firmware_registers Let_def
      split: prod.splits if_splits elim!: bind_eq_SomeE dest!: poll_on_map rdmcycle_on_map)

lemma trim_loop_on_map:
  "trim_loop E rtc d dv c tr pt pf s = Some (r, t) \<Longrightarrow> on_map s \<Longrightarrow> on_map t"
proof (induction E rtc d dv c tr pt pf s rule: trim_loop.induct)
  case (1 E rtc d dv c tr pt pf s)
  show ?case
  proof (cases "c < d \<and> tr < 0x1F")
    case True
    with "1.prems"(1) obtain s1 c1 s2 where s: "PRCI_use_hfrosc E dv (tr + 1) s = Some s1"
      "PRCI_measure_mcycle_freq E 3000 rtc s1 = Some (c1, s2)"
      "trim_loop E rtc d dv c1 (tr + 1) tr c s2 = Some (r, t)"
      by (subst (asm) trim_loop.simps) (auto simp: Let_def elim!: bind_eq_SomeE)
    have "on_map s2" using s(1,2) "1.prems"(2) by (blast intro: use_hfrosc_on_map measure_mcycle_on_map)
    then show ?thesis using "1.IH"[OF True refl refl refl s(1,2) refl s(3)] by simp
  next
    case False
    with "1.prems" show ?thesis by (subst (asm) trim_loop.simps) simp
  qed
qed

lemma set_hfrosctrim_on_map:
  "PRCI_set_hfrosctrim_for_f_cpu E rtc f target s = Some (v, t) \<Longrightarrow> on_map s \<Longrightarrow> on_map t"
  by (auto simp: PRCI_set_hfrosctrim_for_f_cpu_def Let_def
      split: prod.splits if_splits PRCI_freq_target.splits elim!: bind_eq_SomeE
      dest!: use_hfrosc_on_map measure_mcycle_on_map trim_loop_on_map driver_use_pll_on_map)

section \<open>Start-up, traps and the program\<close>

lemma uart_init_on_map: "uart_init E baud s = Some t \<Longrightarrow> on_map s \<Longrightarrow> on_map t"
  by (auto simp: uart_init_def firmware_registers Let_def split: if_splits elim!: bind_eq_SomeE
      dest!: get_cpu_freq_on_map)

lemma init_platform_on_map: "init_platform E trap_entry s = Some t \<Longrightarrow> on_map s \<Longrightarrow> on_map t"
  by (auto simp: init_platform_def Let_def split: prod.splits if_splits elim!: bind_eq_SomeE
      dest!: use_default_clocks_on_map use_pll_on_map uart_init_on_map get_cpu_freq_on_map
        wrap_printf_on_map read_csr_on_map)

lemma main_on_map: "main_c E s = Some (r, t) \<Longrightarrow> on_map s \<Longrightarrow> on_map t"
  by (auto simp: main_c_def Let_def firmware_registers[unfolded GPIO_REG_def]
      elim!: bind_eq_SomeE dest!: wrap_printf_on_map)

lemma boot_returns:
  assumes "clocks_live E" "tx_drains E"
  shows "\<exists>t. boot E trap_entry s = Some (0, t)"
proof -
  obtain u where "init_platform E trap_entry s = Some u" using init_prints[OF assms] by blast
  moreover obtain t where "main_c E u = Some (0, t)" using main_prints[OF assms(2)] by blast
  ultimately show ?thesis by (simp add: boot_def)
qed

text \<open>
  C8. Start-up and \<open>main\<close> keep to the address map of the platform, whatever the hardware answers:
  in a completed run every word access is aligned and lies in one of the ranges that the router forwards.
\<close>

theorem boot_stays_on_the_map:
  assumes "boot E trap_entry s = Some (r, t)" "on_map s"
  shows "on_map t"
  using assms by (auto simp: boot_def elim!: bind_eq_SomeE dest!: init_platform_on_map main_on_map)

theorem boot_stays_on_the_map_witness:
  "\<exists>t. boot board_env 0x20400100 sample_machine = Some (0, t) \<and> on_map t"
proof -
  have "on_map sample_machine" by (simp add: on_map_def sample_machine_def)
  moreover obtain t where "boot board_env 0x20400100 sample_machine = Some (0, t)"
    using boot_returns[OF board_live board_drains] by blast
  ultimately show ?thesis using boot_stays_on_the_map by blast
qed

lemma unhandled_trap_on_map:
  "handle_trap E False False ext tim mcause epc s = Some (Halted u) \<Longrightarrow> on_map s \<Longrightarrow> on_map u"
  by (auto simp: handle_trap_def elim!: bind_eq_SomeE dest!: wrap_write_on_map wrap_exit_on_map)

end
