(* ===== verification/Register_Fields.thy ===== *)
theory Register_Fields
  imports Platform
begin

unbundle bit_operations_syntax

text \<open>
  Register fields. \<open>include/platform/bits.h\<close> reads and writes a field given by its mask; the
  device headers (\<open>prci.h\<close>, \<open>spi.h\<close>, \<open>uart.h\<close>) build register values from macros
  \<open>((x) & mask) << shift\<close>. The macros of one register are a layout, a list of fields, and a
  register value is packed from one value per field.
\<close>

section \<open>Macros of bits.h\<close>

text \<open>
  The macros are modelled at \<open>unsigned long\<close>, the type of the address and mask constants. A division
  by zero (an alignment of 0, an empty mask) has no result.
\<close>

definition ROUNDUP :: "u32 \<Rightarrow> u32 \<Rightarrow> u32 option" where
  "ROUNDUP a b = (if b = 0 then None else Some (((a - 1) div b + 1) * b))"

definition ROUNDDOWN :: "u32 \<Rightarrow> u32 \<Rightarrow> u32 option" where
  "ROUNDDOWN a b = (if b = 0 then None else Some (a div b * b))"

definition EXTRACT_FIELD :: "u32 \<Rightarrow> u32 \<Rightarrow> u32 option" where
  "EXTRACT_FIELD val which =
     (let lowest = which AND NOT (which - 1)
      in if lowest = 0 then None else Some ((val AND which) div lowest))"

definition INSERT_FIELD :: "u32 \<Rightarrow> u32 \<Rightarrow> u32 \<Rightarrow> u32" where
  "INSERT_FIELD val which fieldval =
     (val AND NOT which) OR (fieldval * (which AND NOT (which - 1)))"

section \<open>Fields and layouts\<close>

record field =
  fmask :: u32
  fshift :: nat

definition put :: "field \<Rightarrow> u32 \<Rightarrow> u32" where
  "put f x = push_bit (fshift f) (x AND fmask f)"

definition fld :: "u32 \<Rightarrow> nat \<Rightarrow> field" where
  "fld m k = \<lparr>fmask = m, fshift = k\<rparr>"

definition which :: "field \<Rightarrow> u32" where
  "which f = push_bit (fshift f) (fmask f)"

text \<open>A register value packed from the values of its fields.\<close>

fun pack :: "field list \<Rightarrow> u32 list \<Rightarrow> u32" where
  "pack (f # fs) (x # xs) = put f x OR pack fs xs"
| "pack _ _ = 0"

text \<open>\<open>prci.h\<close>: oscillators, PLL, PLL output divider and process monitor.\<close>

definition hfrosccfg_fields :: "field list" where
  "hfrosccfg_fields = [fld 0x2F 0, fld 0x1F 16, fld 0x1 30, fld 0x1 31]"

definition hfxosccfg_fields :: "field list" where
  "hfxosccfg_fields = [fld 0x1 30, fld 0x1 31]"

definition pllcfg_fields :: "field list" where
  "pllcfg_fields = [fld 0x7 0, fld 0x3F 4, fld 0x3 10, fld 0x1 16, fld 0x1 17, fld 0x1 18, fld 0x1 31]"

definition plldiv_fields :: "field list" where
  "plldiv_fields = [fld 0x3F 0, fld 0x1 8]"

definition procmoncfg_fields :: "field list" where
  "procmoncfg_fields = [fld 0x1F 0, fld 0x1F 8, fld 0x1 16, fld 0x3 24, fld 0x1 28]"

text \<open>\<open>spi.h\<close>: frame format, and the flash instruction format with its enable bit first.\<close>

definition spi_fmt_fields :: "field list" where
  "spi_fmt_fields = [fld 0x3 0, fld 0x1 2, fld 0x1 3, fld 0xf 16]"

definition spi_insn_fields :: "field list" where
  "spi_insn_fields = [fld 0x1 0, fld 0x7 1, fld 0xf 4, fld 0x3 8, fld 0x3 10, fld 0x3 12, fld 0xff 16, fld 0xff 24]"

text \<open>\<open>uart.h\<close>: enable bit and watermark, of the transmitter and of the receiver.\<close>

definition uart_txctrl_fields :: "field list" where
  "uart_txctrl_fields = [fld 0x1 0, fld 0xffff 16]"

definition uart_rxctrl_fields :: "field list" where
  "uart_rxctrl_fields = [fld 0x1 0, fld 0xffff 16]"

definition register_layouts :: "field list list" where
  "register_layouts = [hfrosccfg_fields, hfxosccfg_fields, pllcfg_fields, plldiv_fields, procmoncfg_fields,
     spi_fmt_fields, spi_insn_fields, uart_txctrl_fields, uart_rxctrl_fields]"

lemmas layout_defs = hfrosccfg_fields_def hfxosccfg_fields_def pllcfg_fields_def plldiv_fields_def
  procmoncfg_fields_def spi_fmt_fields_def spi_insn_fields_def uart_txctrl_fields_def
  uart_rxctrl_fields_def

text \<open>\<open>pwm.h\<close> and \<open>aon.h\<close> give the masks of a configuration register themselves.\<close>

definition pwm_cfg_masks :: "u32 list" where
  "pwm_cfg_masks = [0x0000000F, 0x00000100, 0x00000200, 0x00000400, 0x00001000, 0x00002000,
     0x00010000, 0x00020000, 0x00040000, 0x00080000, 0x01000000, 0x02000000, 0x04000000, 0x08000000,
     0x10000000, 0x20000000, 0x40000000, 0x80000000]"

definition wdogcfg_masks :: "u32 list" where
  "wdogcfg_masks = [0x0000000F, 0x00000100, 0x00000200, 0x00001000, 0x00002000, 0x10000000]"

definition rtccfg_masks :: "u32 list" where
  "rtccfg_masks = [0x0000000F, 0x00001000, 0x10000000]"

definition pmucause_masks :: "u32 list" where
  "pmucause_masks = [0x00FF, 0xFF00]"

text \<open>The macros of the register map are fields of these layouts.\<close>

lemma prci_macros:
  "ROSC_DIV x = put (hfrosccfg_fields ! 0) x" "ROSC_TRIM x = put (hfrosccfg_fields ! 1) x"
  "ROSC_EN x = put (hfrosccfg_fields ! 2) x" "ROSC_RDY x = put (hfrosccfg_fields ! 3) x"
  "PLL_R x = put (pllcfg_fields ! 0) x" "PLL_F x = put (pllcfg_fields ! 1) x"
  "PLL_Q x = put (pllcfg_fields ! 2) x" "PLL_SEL x = put (pllcfg_fields ! 3) x"
  "PLL_REFSEL x = put (pllcfg_fields ! 4) x" "PLL_BYPASS x = put (pllcfg_fields ! 5) x"
  "PLL_LOCK x = put (pllcfg_fields ! 6) x"
  "PLL_FINAL_DIV x = put (plldiv_fields ! 0) x" "PLL_FINAL_DIV_BY_1 x = put (plldiv_fields ! 1) x"
  by (simp_all add: reg_simps layout_defs put_def fld_def)

section \<open>The lowest set bit\<close>

lemma odd_and_minus: "odd (v :: u32) \<Longrightarrow> v AND - v = 1"
proof (rule bit_eqI)
  fix n assume v: "odd v" and n: "possible_bit TYPE(u32) n"
  have e: "v - 1 = push_bit 1 (drop_bit 1 v)"
    using v div_mult_mod_eq[of v 2]
    by (simp add: push_bit_eq_mult drop_bit_eq_div odd_iff_mod_2_eq_one) (metis add_diff_cancel_right')
  then have "bit (v - 1) n = (1 \<le> n \<and> bit v n)" using n unfolding e by (auto simp only: bit_simps o_apply le_add_diff_inverse)
  then show "bit (v AND - v) n = bit 1 n" using v n by (cases n) (auto simp: bit_simps bit_0 even_and_iff)
qed

lemma minus_push_bit: "- push_bit k (v :: u32) = push_bit k (- v)"
  by (simp add: push_bit_eq_mult)

lemma low_bit_push: "odd (v :: u32) \<Longrightarrow> push_bit k v AND - push_bit k v = push_bit k 1"
  by (simp add: minus_push_bit odd_and_minus flip: push_bit_and)

lemma not_minus_1: "NOT (w - 1) = - (w :: u32)"
  by (simp add: minus_eq_not_minus_1)

text \<open>A non-zero mask is an odd number shifted to the position of the field.\<close>

lemma mask_shape:
  assumes "w \<noteq> (0 :: u32)"
  obtains k v where "k < 32" "odd v" "w = push_bit k v" "v = drop_bit k w"
proof -
  have "\<exists>k. bit w k" using assms by (auto simp: bit_eq_iff)
  then obtain k where k: "bit w k" "\<And>j. j < k \<Longrightarrow> \<not> bit w j"
    by (metis exists_least_iff)
  show ?thesis
  proof (rule that[of k "drop_bit k w"])
    show "k < 32" using k(1) bit_imp_le_length by fastforce
    show "odd (drop_bit k w)" using k(1) by (simp add: bit_iff_odd_drop_bit)
    have "k \<le> n" if "bit w n" for n using k(2) that not_le by blast
    then show "w = push_bit k (drop_bit k w)" by (intro bit_eqI) (auto simp: bit_simps)
  qed simp
qed

lemma lowest_bit:
  assumes "odd (v :: u32)"
  shows "push_bit k v AND NOT (push_bit k v - 1) = push_bit k 1"
  by (simp only: not_minus_1 low_bit_push[OF assms])

lemma div_push_1: "k < 32 \<Longrightarrow> (w :: u32) div push_bit k 1 = drop_bit k w"
  by (simp add: push_bit_of_1 drop_bit_eq_div)

section \<open>Reading a field back\<close>

text \<open>A mask \<open>m\<close> at shift \<open>k\<close>: its lowest bit is set and none of it is shifted out.\<close>

definition proper :: "field \<Rightarrow> bool" where
  "proper f \<longleftrightarrow> odd (fmask f) \<and> fshift f < 32 \<and> drop_bit (fshift f) (push_bit (fshift f) (fmask f)) = fmask f"

lemma push_1_nonzero: "k < 32 \<Longrightarrow> push_bit k 1 \<noteq> (0 :: u32)"
  by (simp add: push_bit_of_1)

lemma extract_shifted:
  assumes "odd v" "k < 32"
  shows "EXTRACT_FIELD w (push_bit k v) = Some (drop_bit k (w AND push_bit k v))"
  unfolding EXTRACT_FIELD_def Let_def lowest_bit[OF assms(1)] div_push_1[OF assms(2)]
  using push_1_nonzero[OF assms(2)] by (simp only: if_False)

lemma extract_which:
  assumes "proper f"
  shows "EXTRACT_FIELD w (which f) = Some (drop_bit (fshift f) (w AND which f))"
  unfolding which_def using assms by (intro extract_shifted) (simp_all add: proper_def)

lemma put_and_which: "put f x AND which f = put f x"
  by (simp add: put_def which_def ac_simps flip: push_bit_and)

lemma drop_put:
  assumes "proper f"
  shows "drop_bit (fshift f) (put f x) = x AND fmask f"
proof (rule bit_eqI)
  fix n assume n: "possible_bit TYPE(u32) n"
  have "bit (drop_bit (fshift f) (push_bit (fshift f) (fmask f))) n = bit (fmask f) n"
    using assms by (simp add: proper_def)
  with n show "bit (drop_bit (fshift f) (put f x)) n = bit (x AND fmask f) n"
    by (auto simp: put_def bit_simps)
qed

lemma put_disjoint:
  assumes "which g AND which f = 0"
  shows "put g x AND which f = 0"
proof -
  have "put g x AND which f = put g x AND (which g AND which f)"
    by (metis and.assoc put_and_which)
  then show ?thesis using assms by simp
qed

definition disjoint_masks :: "u32 list \<Rightarrow> bool" where
  "disjoint_masks ms \<longleftrightarrow> sorted_wrt (\<lambda>m m'. m AND m' = 0) ms"

lemma pack_disjoint:
  assumes "\<And>g. g \<in> set fs \<Longrightarrow> which g AND which f = 0"
  shows "pack fs xs AND which f = 0"
  using assms by (induction fs xs rule: pack.induct) (auto simp: bit.conj_disj_distrib2 put_disjoint)

lemma pack_and_which:
  assumes "disjoint_masks (map which fs)" "i < length fs" "length xs = length fs"
  shows "pack fs xs AND which (fs ! i) = put (fs ! i) (xs ! i)"
  using assms
proof (induction fs xs arbitrary: i rule: pack.induct)
  case (1 f fs x xs)
  have d: "which f AND which g = 0" if "g \<in> set fs" for g
    using "1.prems"(1) that by (simp add: disjoint_masks_def)
  show ?case
  proof (cases i)
    case 0
    have "pack fs xs AND which f = 0" using d by (intro pack_disjoint) (simp add: ac_simps)
    with 0 show ?thesis by (simp add: bit.conj_disj_distrib2 put_and_which)
  next
    case (Suc j)
    with "1.prems" have "pack fs xs AND which (fs ! j) = put (fs ! j) (xs ! j)"
      by (intro "1.IH") (auto simp: disjoint_masks_def)
    moreover have "put f x AND which (fs ! j) = 0"
      using Suc "1.prems"(2) by (intro put_disjoint d) simp
    ultimately show ?thesis using Suc by (simp add: bit.conj_disj_distrib2)
  qed
qed auto

lemma layouts_proper: "list_all (list_all proper) register_layouts"
  by (simp add: register_layouts_def layout_defs proper_def fld_def)

lemma layouts_disjoint: "list_all (\<lambda>fs. disjoint_masks (map which fs)) register_layouts"
  by (simp add: register_layouts_def layout_defs disjoint_masks_def which_def fld_def)

text \<open>
  The field macros of a register do not interfere: whatever values are packed into a
  register of the clock controller, the SPI or the UART headers, \<open>EXTRACT_FIELD\<close> with the mask of
  one field gives back the value stored there, cut to the mask of its macro.
\<close>

theorem packed_fields_read_back:
  assumes "fs \<in> set register_layouts" "length xs = length fs" "i < length fs"
  shows "EXTRACT_FIELD (pack fs xs) (which (fs ! i)) = Some (xs ! i AND fmask (fs ! i))"
proof -
  have "proper (fs ! i)" "disjoint_masks (map which fs)"
    using assms layouts_proper layouts_disjoint by (auto simp: list_all_iff)
  then show ?thesis using pack_and_which[OF _ assms(3,2)] by (simp add: extract_which drop_put)
qed

theorem packed_fields_read_back_witness:
  "EXTRACT_FIELD (pack pllcfg_fields [1, 31, 1, 1, 0, 0, 0]) (which (pllcfg_fields ! 1)) = Some 31"
proof -
  have "pllcfg_fields \<in> set register_layouts" "length pllcfg_fields = 7" "fmask (pllcfg_fields ! 1) = 0x3F"
    by (simp_all add: register_layouts_def layout_defs fld_def)
  then show ?thesis
    using packed_fields_read_back[of pllcfg_fields "[1, 31, 1, 1, 0, 0, 0]" 1] by simp
qed

section \<open>Copying a field\<close>

text \<open>
  A field given by any non-zero mask can be copied from one register value to another:
  after \<open>INSERT_FIELD\<close> of the value that \<open>EXTRACT_FIELD\<close> read from \<open>u\<close>, the field of
  the result reads as that value, and no bit outside the mask has changed.
\<close>

theorem insert_extract_roundtrip:
  assumes "w \<noteq> 0"
  shows "\<exists>x. EXTRACT_FIELD u w = Some x \<and> EXTRACT_FIELD (INSERT_FIELD val w x) w = Some x
     \<and> INSERT_FIELD val w x AND NOT w = val AND NOT w"
proof -
  obtain k v where k: "k < 32" "odd v" "w = push_bit k v" using mask_shape[OF assms] by metis
  have ex: "EXTRACT_FIELD x w = Some (drop_bit k (x AND w))" for x
    unfolding k(3) by (rule extract_shifted[OF k(2,1)])
  have "push_bit k (drop_bit k (u AND w)) = u AND w"
    using k(3) by (intro bit_eqI) (auto simp: bit_simps)
  moreover have "x * push_bit k 1 = push_bit k x" for x :: u32 by (simp add: push_bit_eq_mult)
  ultimately have ins: "INSERT_FIELD val w (drop_bit k (u AND w)) = (val AND NOT w) OR (u AND w)"
    unfolding INSERT_FIELD_def using lowest_bit[OF k(2), of k] k(3) by simp
  have "((val AND NOT w) OR (u AND w)) AND w = u AND w"
    "((val AND NOT w) OR (u AND w)) AND NOT w = val AND NOT w"
    by (auto intro!: bit_eqI simp: bit_simps)
  then show ?thesis by (simp only: ex ins option.inject simp_thms)
qed

theorem insert_extract_roundtrip_witness:
  "EXTRACT_FIELD 0x1F0 0x3F0 = Some 0x1F \<and> EXTRACT_FIELD (INSERT_FIELD 0xFFFFFFFF 0x3F0 0x1F) 0x3F0 = Some 0x1F
     \<and> INSERT_FIELD 0xFFFFFFFF 0x3F0 0x1F AND NOT 0x3F0 = 0xFFFFFC0F"
  using insert_extract_roundtrip[of "0x3F0" "0x1F0" "0xFFFFFFFF"] by (simp add: EXTRACT_FIELD_def Let_def)

text \<open>The masks that \<open>pwm.h\<close> and \<open>aon.h\<close> give for one register are pairwise disjoint.\<close>

lemma config_masks_disjoint:
  "list_all disjoint_masks [pwm_cfg_masks, wdogcfg_masks, rtccfg_masks, pmucause_masks]"
  by (simp add: disjoint_masks_def pwm_cfg_masks_def wdogcfg_masks_def rtccfg_masks_def pmucause_masks_def)

section \<open>The divider of the oscillator\<close>

text \<open>
  \<open>ROSC_DIV\<close> masks its argument with \<open>0x2F\<close>, not with a mask of consecutive bits: of the six
  bits of a divider it drops bit 4. The dividers 16 to 31 and 48 to 63 are programmed as a divider
  that is smaller by 16; all others are programmed as they are.
\<close>

theorem rosc_div_drops_bit_4:
  "EXTRACT_FIELD (ROSC_DIV d) 0x3F = Some (if bit d 4 then (d AND 0x3F) - 16 else d AND 0x3F)"
proof -
  have "bit (push_bit 4 1 :: u32) n \<longleftrightarrow> n = 4" for n
    by (simp only: bit_push_bit_iff bit_1_iff) auto
  then have "d AND push_bit 4 1 = (if bit d 4 then push_bit 4 1 else 0)"
    by (intro bit_eqI) (auto simp only: bit_and_iff bit_0_eq bot_apply bot_bool_def split: if_splits)
  then have "d AND 16 = (if bit d 4 then 16 else 0)" by simp
  moreover have "d AND 0x3F = (d AND 0x2F) OR (d AND 16)" by (simp flip: bit.conj_disj_distrib)
  moreover have "(d AND 0x2F) + 16 = (d AND 0x2F) OR 16"
    by (rule disjunctive_add_eq_or) (simp add: ac_simps)
  moreover have "EXTRACT_FIELD (ROSC_DIV d) 0x3F = Some (d AND 0x2F)"
    by (simp add: EXTRACT_FIELD_def ROSC_DIV_def ac_simps Let_def)
  ultimately show ?thesis by (simp add: eq_diff_eq)
qed

end
