(* ===== verification/Clic.thy ===== *)
theory Clic
  imports Irq
begin

unbundle bit_operations_syntax

text \<open>
  The driver of the core-local interrupt controller (\<open>drivers/clic/clic_driver.c\<close>).
  The CLIC keeps one byte per source for pending, enable and configuration, and the byte
  \<open>cliccfg\<close>, whose bits 1 to 3 (\<open>nlbits\<close>) split the top \<open>num_config_bits\<close> bits of a
  configuration byte into an interrupt level and a priority.
\<close>

section \<open>The driver\<close>

record clic_instance =
  hart_addr :: u32
  vect_table :: u32
  num_config_bits :: u32
  num_sources :: u32

text \<open>
  \<open>for(int i=0;i++;i<num_irq) table[i] = default_handler;\<close> tests and increments \<open>i\<close> in its
  condition; the comparison is evaluated after each round and dropped. \<open>None\<close>: \<open>i\<close> overflows.
\<close>

partial_function (option) vector_loop :: "u32 \<Rightarrow> u32 \<Rightarrow> u32 \<Rightarrow> machine \<Rightarrow> machine option" where
  "vector_loop table default_handler i s =
     (if i = 0x7FFFFFFF then None
      else if i = 0 then Some s
      else vector_loop table default_handler (i + 1) (st32 (table + push_bit 2 (i + 1)) default_handler s))"

declare vector_loop.simps [code]

definition clic_init ::
  "clic_instance \<Rightarrow> u32 \<Rightarrow> u32 \<Rightarrow> u32 \<Rightarrow> u32 \<Rightarrow> u32 \<Rightarrow> machine \<Rightarrow> (clic_instance \<times> machine) option" where
  "clic_init this_clic hart table default_handler num_irq config_bits s =
     do { let this_clic = this_clic\<lparr>hart_addr := hart\<rparr>;
          let this_clic = this_clic\<lparr>vect_table := table\<rparr>;
          let this_clic = this_clic\<lparr>num_config_bits := config_bits\<rparr>;
          s \<leftarrow> vector_loop (vect_table this_clic) default_handler 0 s;
          let s = write_csr Mtvt table s;
          let s = volatile_memzero (hart_addr this_clic + CLIC_INTIE) num_irq s;
          let s = volatile_memzero (hart_addr this_clic + CLIC_INTIP) num_irq s;
          let s = st8 (hart_addr this_clic + CLIC_CFG) 0 s;
          Some (this_clic, s) }"

definition clic_install_handler :: "clic_instance \<Rightarrow> u32 \<Rightarrow> u32 \<Rightarrow> machine \<Rightarrow> machine" where
  "clic_install_handler this_clic source handler s =
     st32 (vect_table this_clic + push_bit 2 source) handler s"

definition clic_enable_interrupt :: "clic_instance \<Rightarrow> u32 \<Rightarrow> machine \<Rightarrow> machine" where
  "clic_enable_interrupt this_clic source s = st8 (hart_addr this_clic + CLIC_INTIE + source) 1 s"

definition clic_disable_interrupt :: "clic_instance \<Rightarrow> u32 \<Rightarrow> machine \<Rightarrow> machine" where
  "clic_disable_interrupt this_clic source s = st8 (hart_addr this_clic + CLIC_INTIE + source) 0 s"

definition clic_set_pending :: "clic_instance \<Rightarrow> u32 \<Rightarrow> machine \<Rightarrow> machine" where
  "clic_set_pending this_clic source s = st8 (hart_addr this_clic + CLIC_INTIP + source) 1 s"

definition clic_clear_pending :: "clic_instance \<Rightarrow> u32 \<Rightarrow> machine \<Rightarrow> machine" where
  "clic_clear_pending this_clic source s = st8 (hart_addr this_clic + CLIC_INTIP + source) 0 s"

definition clic_set_intcfg :: "clic_instance \<Rightarrow> u32 \<Rightarrow> u32 \<Rightarrow> machine \<Rightarrow> machine" where
  "clic_set_intcfg this_clic source intcfg s =
     st8 (hart_addr this_clic + CLIC_INTCFG + source) (ucast intcfg) s"

definition clic_get_intcfg :: "env \<Rightarrow> clic_instance \<Rightarrow> u32 \<Rightarrow> machine \<Rightarrow> u8 \<times> machine" where
  "clic_get_intcfg E this_clic source s = ld8 E (hart_addr this_clic + CLIC_INTCFG + source) s"

definition clic_set_cliccfg :: "clic_instance \<Rightarrow> u32 \<Rightarrow> machine \<Rightarrow> machine" where
  "clic_set_cliccfg this_clic cfg s = st8 (hart_addr this_clic + CLIC_CFG) (ucast cfg) s"

definition clic_get_cliccfg :: "env \<Rightarrow> clic_instance \<Rightarrow> machine \<Rightarrow> u8 \<times> machine" where
  "clic_get_cliccfg E this_clic s = ld8 E (hart_addr this_clic + CLIC_CFG) s"

text \<open>
  The level and priority accessors. \<open>num_config_bits\<close> is unsigned, so the shift counts are
  computed modulo \<open>2 ^ 32\<close>; \<open>None\<close> is a count that C does not define.
\<close>

definition clic_set_int_level ::
  "env \<Rightarrow> clic_instance \<Rightarrow> u32 \<Rightarrow> u8 \<Rightarrow> machine \<Rightarrow> (u8 \<times> machine) option" where
  "clic_set_int_level E this_clic source level s =
     do { let (nlbits, s) = clic_get_cliccfg E this_clic s;
          let nlbits = drop_bit 1 nlbits AND 0x7;
          level \<leftarrow> c_shr (ucast level) (num_config_bits this_clic - ucast nlbits);
          let level = (ucast level :: u8);
          level \<leftarrow> c_shl (ucast level)
            ((8 - num_config_bits this_clic) + (num_config_bits this_clic - ucast nlbits));
          let level = (ucast level :: u8);
          let (current_intcfg, s) = clic_get_intcfg E this_clic source s;
          let s = clic_set_intcfg this_clic source (ucast (current_intcfg OR level)) s;
          Some (level, s) }"

definition clic_get_int_level ::
  "env \<Rightarrow> clic_instance \<Rightarrow> u32 \<Rightarrow> machine \<Rightarrow> (u8 \<times> machine) option" where
  "clic_get_int_level E this_clic source s =
     do { let (level, s) = clic_get_intcfg E this_clic source s;
          let (nlbits, s) = clic_get_cliccfg E this_clic s;
          let nlbits = drop_bit 1 nlbits AND 0x7;
          level \<leftarrow> c_shr (ucast level) (8 - num_config_bits this_clic);
          let level = (ucast level :: u8);
          level \<leftarrow> c_shr (ucast level) (num_config_bits this_clic - ucast nlbits);
          let level = (ucast level :: u8);
          Some (level, s) }"

text \<open>
  \<open>if(priority_bits = 0)\<close> is an assignment: the branch is never taken and \<open>priority_bits\<close> is
  0 afterwards.
\<close>

definition clic_set_int_priority ::
  "env \<Rightarrow> clic_instance \<Rightarrow> u32 \<Rightarrow> u8 \<Rightarrow> machine \<Rightarrow> (u8 \<times> machine) option" where
  "clic_set_int_priority E this_clic source prio s =
     do { let (nlbits, s) = clic_get_cliccfg E this_clic s;
          let nlbits = drop_bit 1 nlbits AND 0x7;
          let priority_bits = (ucast (num_config_bits this_clic - ucast nlbits) :: u8);
          let priority_bits = (0 :: u8);
          if priority_bits \<noteq> 0 then Some (0, s)
          else do {
            prio \<leftarrow> c_shr (ucast prio) (8 - ucast priority_bits);
            let prio = (ucast prio :: u8);
            prio \<leftarrow> c_shl (ucast prio) (8 - num_config_bits this_clic);
            let prio = (ucast prio :: u8);
            let (current_intcfg, s) = clic_get_intcfg E this_clic source s;
            let s = clic_set_intcfg this_clic source (ucast (current_intcfg OR prio)) s;
            Some (current_intcfg, s) } }"

definition clic_get_int_priority ::
  "env \<Rightarrow> clic_instance \<Rightarrow> u32 \<Rightarrow> machine \<Rightarrow> (u8 \<times> machine) option" where
  "clic_get_int_priority E this_clic source s =
     do { let (prio, s) = clic_get_intcfg E this_clic source s;
          let (nlbits, s) = clic_get_cliccfg E this_clic s;
          let nlbits = drop_bit 1 nlbits AND 0x7;
          prio \<leftarrow> c_shl (ucast prio) (ucast nlbits);
          let prio = (ucast prio :: u8);
          prio \<leftarrow> c_shr (ucast prio) (8 - (num_config_bits this_clic + ucast nlbits));
          let prio = (ucast prio :: u8);
          Some (prio, s) }"

lemmas clic_access_defs = clic_install_handler_def clic_enable_interrupt_def clic_disable_interrupt_def
  clic_set_pending_def clic_clear_pending_def clic_set_intcfg_def clic_get_intcfg_def
  clic_set_cliccfg_def clic_get_cliccfg_def

section \<open>The controller as a register file\<close>

record clic_regs =
  ip :: "u32 \<Rightarrow> u8"
  ie :: "u32 \<Rightarrow> u8"
  intcfg :: "u32 \<Rightarrow> u8"
  cliccfg :: u8

text \<open>The register window has room for 1024 sources.\<close>

definition per_source :: "(u32 \<Rightarrow> u8) \<Rightarrow> u32 \<Rightarrow> u32 \<Rightarrow> u8" where
  "per_source m a i = (if i < 1024 then m (a + i) else 0)"

definition clic_abs :: "(u32 \<Rightarrow> u8) \<Rightarrow> clic_instance \<Rightarrow> machine \<Rightarrow> clic_regs" where
  "clic_abs m0 c s = (let m = contents m0 (hist s) in
     \<lparr>ip = per_source m (hart_addr c + CLIC_INTIP), ie = per_source m (hart_addr c + CLIC_INTIE),
      intcfg = per_source m (hart_addr c + CLIC_INTCFG), cliccfg = m (hart_addr c + CLIC_CFG)\<rparr>)"

datatype clic_cmd = Irq irq_cmd | SetPending u32 | ClearPending u32 | SetIntcfg u32 u32 | SetCliccfg u32

fun clic_exec :: "clic_instance \<Rightarrow> clic_cmd \<Rightarrow> machine \<Rightarrow> machine" where
  "clic_exec c (Irq (Enable i)) s = clic_enable_interrupt c i s"
| "clic_exec c (Irq (Disable i)) s = clic_disable_interrupt c i s"
| "clic_exec c (SetPending i) s = clic_set_pending c i s"
| "clic_exec c (ClearPending i) s = clic_clear_pending c i s"
| "clic_exec c (SetIntcfg i v) s = clic_set_intcfg c i v s"
| "clic_exec c (SetCliccfg v) s = clic_set_cliccfg c v s"

fun clic_spec :: "clic_cmd \<Rightarrow> clic_regs \<Rightarrow> clic_regs" where
  "clic_spec (Irq (Enable i)) r = r\<lparr>ie := (ie r)(i := 1)\<rparr>"
| "clic_spec (Irq (Disable i)) r = r\<lparr>ie := (ie r)(i := 0)\<rparr>"
| "clic_spec (SetPending i) r = r\<lparr>ip := (ip r)(i := 1)\<rparr>"
| "clic_spec (ClearPending i) r = r\<lparr>ip := (ip r)(i := 0)\<rparr>"
| "clic_spec (SetIntcfg i v) r = r\<lparr>intcfg := (intcfg r)(i := ucast v)\<rparr>"
| "clic_spec (SetCliccfg v) r = r\<lparr>cliccfg := ucast v\<rparr>"

fun clic_source_ok :: "clic_cmd \<Rightarrow> bool" where
  "clic_source_ok (Irq c) = (cmd_source c < 1024)"
| "clic_source_ok (SetPending i) = (i < 1024)"
| "clic_source_ok (ClearPending i) = (i < 1024)"
| "clic_source_ok (SetIntcfg i v) = (i < 1024)"
| "clic_source_ok (SetCliccfg v) = True"

lemma clic_offset_eq_iff:
  assumes "a \<in> {CLIC_INTIP, CLIC_INTIE, CLIC_INTCFG}" "b \<in> {CLIC_INTIP, CLIC_INTIE, CLIC_INTCFG}"
    "i < 1024" "j < 1024"
  shows "h + a + i = h + b + j \<longleftrightarrow> a = b \<and> i = j"
    and "h + a + i \<noteq> h + CLIC_CFG"
proof -
  have u: "unat (a + i) = unat a + unat i" "unat (b + j) = unat b + unat j"
    using assms by (auto simp: reg_simps word_less_nat_alt intro!: unat_plus_no_wrap)
  show "h + a + i = h + b + j \<longleftrightarrow> a = b \<and> i = j"
  proof
    assume "h + a + i = h + b + j"
    then have "unat (a + i) = unat (b + j)" by (simp add: add.assoc)
    with u assms show "a = b \<and> i = j"
      by (auto simp: reg_simps word_less_nat_alt word_unat_eq_iff)
  qed simp
  show "h + a + i \<noteq> h + CLIC_CFG"
  proof
    assume "h + a + i = h + CLIC_CFG"
    then have "unat (a + i) = unat CLIC_CFG" by (simp add: add.assoc)
    with u assms show False by (auto simp: reg_simps word_less_nat_alt)
  qed
qed

lemma per_source_upd:
  assumes "a \<in> {CLIC_INTIP, CLIC_INTIE, CLIC_INTCFG}" "b \<in> {CLIC_INTIP, CLIC_INTIE, CLIC_INTCFG}" "i < 1024"
  shows "per_source (m(h + a + i := v)) (h + b)
       = (if a = b then (per_source m (h + b))(i := v) else per_source m (h + b))"
  using assms by (auto simp: per_source_def fun_eq_iff clic_offset_eq_iff(1))

lemma per_source_upd_cfg:
  assumes "b \<in> {CLIC_INTIP, CLIC_INTIE, CLIC_INTCFG}"
  shows "per_source (m(h + CLIC_CFG := v)) (h + b) = per_source m (h + b)"
  using clic_offset_eq_iff(2)[OF assms] assms by (auto simp: per_source_def fun_eq_iff)

lemma clic_banks_differ [simp]:
  "CLIC_INTIP \<noteq> CLIC_INTIE" "CLIC_INTIE \<noteq> CLIC_INTIP" "CLIC_INTIP \<noteq> CLIC_INTCFG"
  "CLIC_INTCFG \<noteq> CLIC_INTIP" "CLIC_INTIE \<noteq> CLIC_INTCFG" "CLIC_INTCFG \<noteq> CLIC_INTIE"
  by (simp_all add: reg_simps)

lemma clic_cfg_not_source:
  "i < 1024 \<Longrightarrow> CLIC_CFG \<noteq> CLIC_INTIP + i" "i < 1024 \<Longrightarrow> CLIC_CFG \<noteq> CLIC_INTIE + i"
  "i < 1024 \<Longrightarrow> CLIC_CFG \<noteq> CLIC_INTCFG + i"
  using clic_offset_eq_iff(2)[of CLIC_INTIP CLIC_INTIP i 0 0] clic_offset_eq_iff(2)[of CLIC_INTIE CLIC_INTIP i 0 0]
    clic_offset_eq_iff(2)[of CLIC_INTCFG CLIC_INTIP i 0 0]
  by auto

lemmas clic_abs_upds = clic_abs_def Let_def per_source_upd per_source_upd_cfg clic_cfg_not_source

lemma ucast_1_u8 [simp]: "ucast (1 :: u32) = (1 :: u8)"
  by simp

lemma clic_exec_refines:
  assumes "clic_source_ok cmd"
  shows "clic_abs m0 c (clic_exec c cmd s) = clic_spec cmd (clic_abs m0 c s)"
proof (cases cmd)
  case (Irq x)
  then show ?thesis using assms
    by (cases x) (simp_all add: clic_access_defs st8_def clic_abs_upds)
next
  case (SetPending i)
  then show ?thesis using assms by (simp add: clic_access_defs st8_def clic_abs_upds)
next
  case (ClearPending i)
  then show ?thesis using assms by (simp add: clic_access_defs st8_def clic_abs_upds)
next
  case (SetIntcfg i v)
  then show ?thesis using assms by (simp add: clic_access_defs st8_def clic_abs_upds)
next
  case (SetCliccfg v)
  then show ?thesis by (simp add: clic_access_defs st8_def clic_abs_upds)
qed

lemma clic_ie_exec:
  assumes "clic_source_ok (Irq cmd)"
  shows "ie (clic_abs m0 c (clic_exec c (Irq cmd) s)) = ie (clic_spec (Irq cmd) (clic_abs m0 c s))"
  using clic_exec_refines[OF assms, of m0 c s] by simp

interpretation clic_bank: irq_ctl "clic_enable_interrupt c" "clic_disable_interrupt c"
    "\<lambda>s i. bit (ie (clic_abs m0 c s) i) 0" "\<lambda>i. i < 1024" "\<lambda>s. True" for c m0
proof unfold_locales
  fix i j :: u32 and s :: machine
  assume "i < 1024"
  with clic_ie_exec[of "Enable i" m0 c s] clic_ie_exec[of "Disable i" m0 c s]
  show "bit (ie (clic_abs m0 c (clic_enable_interrupt c i s)) j) 0 \<longleftrightarrow> j = i \<or> bit (ie (clic_abs m0 c s) j) 0"
    and "bit (ie (clic_abs m0 c (clic_disable_interrupt c i s)) j) 0 \<longleftrightarrow> j \<noteq> i \<and> bit (ie (clic_abs m0 c s) j) 0"
    by auto
qed simp_all

definition clic_bank_set :: "(u32 \<Rightarrow> u8) \<Rightarrow> clic_instance \<Rightarrow> machine \<Rightarrow> u32 set" where
  "clic_bank_set m0 c s = {j. j < 1024 \<and> bit (ie (clic_abs m0 c s) j) 0}"

lemma clic_irq_bank: "(\<lambda>cmd. clic_exec c (Irq cmd)) = clic_bank.exec c"
proof (intro ext)
  fix cmd s
  show "clic_exec c (Irq cmd) s = clic_bank.exec c cmd s" by (cases cmd) simp_all
qed

text \<open>
  C12. Every sequence of the byte-register operations of the CLIC driver (enable, disable, pending,
  configuration of any source, and \<open>cliccfg\<close>) does to the controller what the same updates do to
  an abstract register file with one entry per source.
\<close>

theorem clic_ops_refine_registers:
  assumes "\<forall>cmd\<in>set cmds. clic_source_ok cmd"
  shows "clic_abs m0 c (fold (clic_exec c) cmds s) = fold clic_spec cmds (clic_abs m0 c s)"
  using assms by (induction cmds arbitrary: s) (simp_all add: clic_exec_refines)

definition clic0 :: clic_instance where
  "clic0 = \<lparr>hart_addr = 0x02800000, vect_table = 0x80000100, num_config_bits = 4, num_sources = 0\<rparr>"

theorem clic_ops_refine_registers_witness:
  "clic_abs (\<lambda>a. 0) clic0 (fold (clic_exec clic0) [Irq (Enable 7), SetIntcfg 7 0x4f, SetCliccfg 6] sample_machine)
   = fold clic_spec [Irq (Enable 7), SetIntcfg 7 0x4f, SetCliccfg 6] (clic_abs (\<lambda>a. 0) clic0 sample_machine)"
  by (rule clic_ops_refine_registers) simp

text \<open>
  The enable bank of the CLIC refines a set of sources, as that of the PLIC does: any
  sequence of enable and disable calls leaves enabled what inserting and deleting leaves in the set.
\<close>

theorem clic_enables_refine_set:
  assumes "\<forall>cmd\<in>set cmds. cmd_source cmd < 1024"
  shows "clic_bank_set m0 c (fold (\<lambda>cmd. clic_exec c (Irq cmd)) cmds s)
       = fold bank_step cmds (clic_bank_set m0 c s)"
  using clic_bank.run_refines[OF TrueI assms, of m0 c s]
  by (simp add: clic_irq_bank clic_bank.bank_def clic_bank_set_def)

theorem clic_enables_refine_set_witness:
  "clic_bank_set (\<lambda>a. 0) clic0 (fold (\<lambda>cmd. clic_exec clic0 (Irq cmd)) [Enable 7, Enable 9, Disable 7] sample_machine)
   = fold bank_step [Enable 7, Enable 9, Disable 7] (clic_bank_set (\<lambda>a. 0) clic0 sample_machine)"
  by (rule clic_enables_refine_set) simp

section \<open>Initialisation\<close>

lemma vector_loop_0: "vector_loop table h 0 s = Some s"
  by (subst vector_loop.simps) simp

definition clic_fits :: "u32 \<Rightarrow> u32 \<Rightarrow> bool" where
  "clic_fits hart num_irq \<longleftrightarrow> unat hart + 0x1000 \<le> 2 ^ 32 \<and> num_irq \<le> 1024"

definition clic_init_events :: "u32 \<Rightarrow> u32 \<Rightarrow> u32 \<Rightarrow> event list" where
  "clic_init_events hart table num_irq =
     WrCsr Mtvt table # zero_bytes (hart + CLIC_INTIE) (unat num_irq)
     @ zero_bytes (hart + CLIC_INTIP) (unat num_irq) @ [WrB (hart + CLIC_CFG) 0]"

lemma clic_init_run:
  assumes "clic_fits hart num_irq"
  shows "clic_init c hart table h num_irq config_bits s =
    Some (c\<lparr>hart_addr := hart, vect_table := table, num_config_bits := config_bits\<rparr>,
          logged (clic_init_events hart table num_irq) s)"
proof -
  have b: "unat hart + 0x1000 \<le> 2 ^ 32" "unat num_irq \<le> 1024"
    using assms by (simp_all add: clic_fits_def word_le_nat_alt)
  have ie: "unat (hart + CLIC_INTIE) = unat hart + 0x400"
    using b by (subst unat_plus_no_wrap) (simp_all add: reg_simps)
  have "volatile_memzero (hart + CLIC_INTIE) num_irq t
      = logged (zero_bytes (hart + CLIC_INTIE) (unat num_irq)) t"
    "volatile_memzero (hart + CLIC_INTIP) num_irq t
      = logged (zero_bytes (hart + CLIC_INTIP) (unat num_irq)) t" for t
    using b ie by (auto intro!: volatile_memzero_bytes simp: CLIC_INTIP_def)
  then show ?thesis
    by (simp add: clic_init_def vector_loop_0 clic_init_events_def write_csr_def st8_def Let_def)
qed

lemma clic_bank_offset:
  assumes "a \<in> {CLIC_INTIP, CLIC_INTIE, CLIC_INTCFG}" "b \<in> {CLIC_INTIP, CLIC_INTIE, CLIC_INTCFG}"
    "i < 1024" "n \<le> 1024"
  shows "unat ((h + a + i) - (h + b)) < n \<longleftrightarrow> a = b \<and> unat i < n"
proof
  assume lt: "unat ((h + a + i) - (h + b)) < n"
  let ?d = "(h + a + i) - (h + b)"
  have "?d < 1024" using lt assms(4) by (simp add: word_less_nat_alt)
  moreover have "h + a + i = h + b + ?d" by simp
  ultimately have "a = b \<and> i = ?d" using clic_offset_eq_iff(1)[OF assms(1-3), of ?d h] by blast
  with lt show "a = b \<and> unat i < n" by simp
qed auto

lemma clic_cfg_offset:
  assumes "b \<in> {CLIC_INTIP, CLIC_INTIE}" "n \<le> 1024"
  shows "\<not> unat ((h + CLIC_CFG) - (h + b)) < n"
  using assms by (auto simp: reg_simps)

lemma clic_init_contents:
  assumes "num_irq \<le> 1024"
  shows "contents m (clic_init_events hart table num_irq) a =
    (if a = hart + CLIC_CFG \<or> unat (a - (hart + CLIC_INTIP)) < unat num_irq
        \<or> unat (a - (hart + CLIC_INTIE)) < unat num_irq then 0 else m a)"
  using assms by (simp add: clic_init_events_def contents_zero_bytes word_le_nat_alt)

lemma clic_init_bank:
  assumes "num_irq \<le> 1024" "b \<in> {CLIC_INTIP, CLIC_INTIE, CLIC_INTCFG}"
  shows "per_source (contents m (clic_init_events hart table num_irq)) (hart + b)
    = (\<lambda>i. if b \<noteq> CLIC_INTCFG \<and> i < num_irq then 0 else per_source m (hart + b) i)"
proof
  fix i
  have n: "unat num_irq \<le> 1024" using assms(1) by (simp add: word_le_nat_alt)
  show "per_source (contents m (clic_init_events hart table num_irq)) (hart + b) i
    = (if b \<noteq> CLIC_INTCFG \<and> i < num_irq then 0 else per_source m (hart + b) i)"
  proof (cases "i < 1024")
    case True
    then have "contents m (clic_init_events hart table num_irq) (hart + b + i)
        = (if b = CLIC_INTIP \<and> unat i < unat num_irq \<or> b = CLIC_INTIE \<and> unat i < unat num_irq
           then 0 else m (hart + b + i))"
      by (simp only: clic_init_contents[OF assms(1)] clic_offset_eq_iff(2)[OF assms(2,2) True True]
          clic_bank_offset[OF assms(2) _ True n] insert_iff simp_thms)
    with True assms(2) show ?thesis by (auto simp: per_source_def word_less_nat_alt)
  qed (simp add: per_source_def)
qed

text \<open>
  \<open>clic_init\<close> clears the enable and pending byte of each of the \<open>num_irq\<close> sources and
  \<open>cliccfg\<close>, and leaves the configuration bytes and the other sources as they were.
\<close>

theorem clic_init_resets_registers:
  assumes "clic_fits hart num_irq" "clic_init c0 hart table h num_irq config_bits s = Some (c, t)"
  shows "clic_abs m0 c t = (let r = clic_abs m0 c s in
    r\<lparr>ip := (\<lambda>i. if i < num_irq then 0 else ip r i), ie := (\<lambda>i. if i < num_irq then 0 else ie r i),
      cliccfg := 0\<rparr>)"
proof -
  have n: "num_irq \<le> 1024" using assms(1) by (simp add: clic_fits_def)
  have c: "hart_addr c = hart" and t: "t = logged (clic_init_events hart table num_irq) s"
    using assms by (auto simp: clic_init_run)
  show ?thesis
    by (simp add: clic_abs_def Let_def c t clic_init_bank[OF n] clic_init_contents[OF n] fun_eq_iff)
qed

theorem clic_init_resets_registers_witness:
  "\<exists>c t. clic_init clic0 0x02800000 0x80000100 0x80000400 32 4 sample_machine = Some (c, t)
     \<and> ie (clic_abs (\<lambda>a. 255) c t) 31 = 0 \<and> ie (clic_abs (\<lambda>a. 255) c t) 32 = 255"
proof -
  have f: "clic_fits 0x02800000 32" by (simp add: clic_fits_def)
  obtain c t where r: "clic_init clic0 0x02800000 0x80000100 0x80000400 32 4 sample_machine = Some (c, t)"
    using clic_init_run[OF f] by blast
  have "ie (clic_abs (\<lambda>a. 255) c sample_machine) 32 = 255"
    by (simp add: Let_def clic_abs_def per_source_def sample_machine_def)
  with clic_init_resets_registers[OF f r, of "\<lambda>a. 255"] r show ?thesis by (simp add: Let_def)
qed

lemma clic_offset_small:
  assumes "b \<in> {CLIC_INTIP, CLIC_INTIE}" "unat (d :: u32) < 1024"
  shows "unat (d + b) < 0x1000"
proof -
  have b: "unat b \<le> 1024" using assms(1) by (auto simp: reg_simps)
  then have "unat (d + b) = unat d + unat b" using assms(2) by (intro unat_plus_no_wrap) simp
  with b assms(2) show ?thesis by simp
qed

text \<open>
  \<open>clic_init\<close> never stores the default handler: its vector loop ends before the first
  round. Every slot of a vector table outside the register window holds after the call what it
  held before, although \<open>mtvt\<close> now points to the table, and \<open>num_sources\<close> is not set.
\<close>

theorem clic_init_leaves_vector_table:
  assumes "clic_fits hart num_irq" "\<forall>k\<in>{0, 1, 2, 3}. 0x1000 \<le> table + push_bit 2 i + k - hart"
  shows "\<exists>c t. clic_init c0 hart table default_handler num_irq config_bits s = Some (c, t)
    \<and> word_at (contents m0 (hist t)) (vect_table c + push_bit 2 i)
      = word_at (contents m0 (hist s)) (table + push_bit 2 i)
    \<and> WrCsr Mtvt (vect_table c) \<in> set (hist t) \<and> num_sources c = num_sources c0"
proof -
  let ?t = "logged (clic_init_events hart table num_irq) s"
  have n: "num_irq \<le> 1024" "unat num_irq \<le> 1024"
    using assms(1) by (simp_all add: clic_fits_def word_le_nat_alt)
  have same: "contents m0 (hist ?t) a = contents m0 (hist s) a" if "0x1000 \<le> a - hart" for a
  proof -
    have "\<not> unat (a - (hart + b)) < unat num_irq" if "b \<in> {CLIC_INTIP, CLIC_INTIE}" for b
    proof
      assume "unat (a - (hart + b)) < unat num_irq"
      then have "unat (a - (hart + b) + b) < 0x1000"
        using n by (intro clic_offset_small) (use that in auto)
      moreover have "a - (hart + b) + b = a - hart" by (simp add: algebra_simps)
      ultimately show False using \<open>0x1000 \<le> a - hart\<close> by (simp add: word_le_nat_alt)
    qed
    moreover have "a \<noteq> hart + CLIC_CFG" using that by (auto simp: reg_simps word_le_nat_alt)
    ultimately show ?thesis by (simp add: clic_init_contents[OF n(1)])
  qed
  have "WrCsr Mtvt table \<in> set (hist ?t)" by (simp add: clic_init_events_def)
  moreover have "word_at (contents m0 (hist ?t)) (table + push_bit 2 i)
      = word_at (contents m0 (hist s)) (table + push_bit 2 i)"
    using assms(2) same unfolding word_at_def by simp
  ultimately show ?thesis by (simp add: clic_init_run[OF assms(1)] del: hist_logged)
qed

theorem clic_init_leaves_vector_table_witness:
  "\<exists>c t. clic_init clic0 0x02800000 0x80000100 0x80000400 32 4 sample_machine = Some (c, t)
     \<and> word_at (contents (\<lambda>a. 0) (hist t)) (vect_table c + push_bit 2 7) = 0"
proof -
  have f: "clic_fits 0x02800000 32" by (simp add: clic_fits_def)
  have "\<forall>k\<in>{0, 1, 2, 3}. 0x1000 \<le> (0x80000100 + push_bit 2 7 + k - 0x02800000 :: u32)" by simp
  from clic_init_leaves_vector_table[OF f this, of clic0 "0x80000400" 4 sample_machine "\<lambda>a. 0"]
  show ?thesis by (auto simp: sample_machine_def word_at_def)
qed

section \<open>Levels and priorities\<close>

text \<open>The configuration byte of the source and \<open>cliccfg\<close> hold what is written to them.\<close>

definition clic_hw :: "env \<Rightarrow> (u32 \<Rightarrow> u8) \<Rightarrow> clic_instance \<Rightarrow> u32 \<Rightarrow> bool" where
  "clic_hw E m0 c i \<longleftrightarrow> i < 1024
     \<and> backed E m0 {hart_addr c + CLIC_CFG, hart_addr c + CLIC_INTCFG + i}"

definition nlbits_of :: "u8 \<Rightarrow> nat" where
  "nlbits_of cfg = unat (drop_bit 1 cfg AND 0x7)"

definition nlbits :: "clic_regs \<Rightarrow> nat" where
  "nlbits r = nlbits_of (cliccfg r)"

lemma nlbits_intcfg [simp]: "nlbits (r\<lparr>intcfg := f\<rparr>) = nlbits r"
  by (simp add: nlbits_def)

lemma nlbits_less: "nlbits r < 8"
proof -
  have "drop_bit 1 x AND 7 = take_bit 3 (drop_bit 1 x)" for x :: u8
    by (simp add: take_bit_eq_mask mask_eq_exp_minus_1)
  then show ?thesis by (simp add: nlbits_def nlbits_of_def take_bit_eq_mod unat_mod)
qed

lemma u8_shr: "ucast (drop_bit n (ucast (x :: u8) :: u32)) = drop_bit n x"
  by (rule bit_word_eqI) (auto simp: bit_ucast_iff bit_drop_bit_eq dest: bit_imp_le_length)

lemma u8_shl: "ucast (push_bit n (ucast (x :: u8) :: u32)) = push_bit n x"
  by (rule bit_word_eqI) (auto simp: bit_ucast_iff bit_push_bit_iff dest: bit_imp_le_length)

lemma unat_ucast_u8 [simp]: "unat (ucast (x :: u8) :: u32) = unat x"
proof -
  have "unat x < 2 ^ 8" using unsigned_less[of x] by simp
  then show ?thesis by (simp add: unsigned_ucast_eq take_bit_eq_mod)
qed

text \<open>The shift count \<open>num_config_bits - nlbits\<close>: in range exactly when it is not negative.\<close>

lemma config_shift:
  assumes "unat (k :: u32) \<le> 8" "unat (n :: u8) < 8"
  shows "k - ucast n < 32 \<longleftrightarrow> unat n \<le> unat k"
    and "unat n \<le> unat k \<Longrightarrow> unat (k - ucast n) = unat k - unat n"
  using assms by (auto simp: word_less_nat_alt unat_sub_if')

lemma level_shift:
  assumes "unat (n :: u8) < 8"
  shows "(8 - k) + (k - ucast n) < (32 :: u32)" "unat ((8 - k) + (k - ucast n) :: u32) = 8 - unat n"
proof -
  have e: "(8 - k) + (k - ucast n) = (8 - ucast n :: u32)" by simp
  have "unat (8 - ucast n :: u32) = 8 - unat n" using assms by (simp add: unat_sub_if')
  then show "(8 - k) + (k - ucast n) < (32 :: u32)" "unat ((8 - k) + (k - ucast n) :: u32) = 8 - unat n"
    by (simp_all add: e word_less_nat_alt)
qed

lemma c_shr_config:
  assumes "unat k \<le> 8" "unat (n :: u8) < 8"
  shows "c_shr x (k - ucast n) = (if unat n \<le> unat k then Some (drop_bit (unat k - unat n) x) else None)"
  using config_shift[OF assms] by (simp add: c_shr_def)

lemma c_shl_level:
  "unat (n :: u8) < 8 \<Longrightarrow> c_shl x ((8 - k) + (k - ucast n)) = Some (push_bit (8 - unat n) x)"
  by (simp only: c_shl_def level_shift if_True)

lemma clic_read_cfg:
  assumes "clic_hw E m0 c i"
  shows "clic_get_cliccfg E c s = (let v = cliccfg (clic_abs m0 c s) in
      (v, logged [RdB (hart_addr c + CLIC_CFG) v] s))"
    and "clic_get_intcfg E c i s = (let v = intcfg (clic_abs m0 c s) i in
      (v, logged [RdB (hart_addr c + CLIC_INTCFG + i) v] s))"
proof -
  have "ucast (E h (LdB (hart_addr c + CLIC_CFG))) = contents m0 h (hart_addr c + CLIC_CFG)"
    "ucast (E h (LdB (hart_addr c + CLIC_INTCFG + i))) = contents m0 h (hart_addr c + CLIC_INTCFG + i)" for h
    using assms by (auto simp: clic_hw_def intro: backedD8)
  with assms show "clic_get_cliccfg E c s = (let v = cliccfg (clic_abs m0 c s) in
      (v, logged [RdB (hart_addr c + CLIC_CFG) v] s))"
    and "clic_get_intcfg E c i s = (let v = intcfg (clic_abs m0 c s) i in
      (v, logged [RdB (hart_addr c + CLIC_INTCFG + i) v] s))"
    by (simp_all add: clic_access_defs ld8_def clic_abs_def Let_def per_source_def clic_hw_def)
qed

lemma clic_abs_read [simp]: "clic_abs m0 c (logged [RdB a v] s) = clic_abs m0 c s"
  by (simp add: clic_abs_def)

lemma clic_abs_set_intcfg [simp]:
  "i < 1024 \<Longrightarrow> clic_abs m0 c (clic_set_intcfg c i v s)
    = (clic_abs m0 c s)\<lparr>intcfg := (intcfg (clic_abs m0 c s))(i := ucast v)\<rparr>"
  using clic_exec_refines[of "SetIntcfg i v" m0 c s] by simp

lemma set_level_run:
  fixes s :: machine
  assumes "clic_hw E m0 c i" "unat (num_config_bits c) \<le> 8"
  defines "n \<equiv> nlbits (clic_abs m0 c s)" and "k \<equiv> unat (num_config_bits c)"
    and "old \<equiv> intcfg (clic_abs m0 c s) i"
  shows "clic_set_int_level E c i level s =
    (if n \<le> k then
       let lv = push_bit (8 - n) (drop_bit (k - n) level) in
       Some (lv, clic_set_intcfg c i (ucast (old OR lv))
         (logged [RdB (hart_addr c + CLIC_CFG) (cliccfg (clic_abs m0 c s)),
                  RdB (hart_addr c + CLIC_INTCFG + i) old] s))
     else None)"
proof -
  define nl where "nl = drop_bit 1 (cliccfg (clic_abs m0 c s)) AND 7"
  have n: "n = unat nl" by (simp add: n_def nlbits_def nlbits_of_def nl_def)
  have b: "unat nl < 8" using nlbits_less[of "clic_abs m0 c s"] n n_def by simp
  show ?thesis
    unfolding clic_set_int_level_def clic_read_cfg[OF assms(1)] Let_def prod.case nl_def[symmetric]
      c_shr_config[OF assms(2) b] c_shl_level[OF b]
    by (simp add: u8_shr u8_shl n k_def old_def clic_read_cfg[OF assms(1)] Let_def)
qed

lemma c_shift_config:
  assumes "unat (k :: u32) \<le> 8"
  shows "c_shr x (8 - k) = Some (drop_bit (8 - unat k) x)" "c_shl x (8 - k) = Some (push_bit (8 - unat k) x)"
  using assms by (auto simp: c_shr_def c_shl_def word_less_nat_alt unat_sub_if')

lemma c_shl_nlbits: "unat (n :: u8) < 8 \<Longrightarrow> c_shl x (ucast n) = Some (push_bit (unat n) x)"
  by (simp add: c_shl_def word_less_nat_alt)

lemma c_shr_priority:
  assumes "unat (k :: u32) \<le> 8" "unat (n :: u8) < 8"
  shows "c_shr x (8 - (k + ucast n))
    = (if unat k + unat n \<le> 8 then Some (drop_bit (8 - (unat k + unat n)) x) else None)"
proof -
  have "unat (k + ucast n) = unat k + unat n" using assms by (subst unat_plus_no_wrap) simp_all
  then have "unat (8 - (k + ucast n)) =
      (if unat k + unat n \<le> 8 then 8 - (unat k + unat n) else 2 ^ 32 + 8 - (unat k + unat n))"
    by (simp add: unat_sub_if')
  with assms show ?thesis
    by (cases "unat k + unat n \<le> 8") (simp_all add: c_shr_def word_less_nat_alt)
qed

lemma get_level_run:
  fixes s :: machine
  assumes "clic_hw E m0 c i" "unat (num_config_bits c) \<le> 8"
  defines "n \<equiv> nlbits (clic_abs m0 c s)" and "k \<equiv> unat (num_config_bits c)"
    and "v \<equiv> intcfg (clic_abs m0 c s) i"
  shows "clic_get_int_level E c i s =
    (if n \<le> k then Some (drop_bit (8 - n) v,
         logged [RdB (hart_addr c + CLIC_INTCFG + i) v,
                 RdB (hart_addr c + CLIC_CFG) (cliccfg (clic_abs m0 c s))] s)
     else None)"
proof -
  define nl where "nl = drop_bit 1 (cliccfg (clic_abs m0 c s)) AND 7"
  have n: "n = unat nl" by (simp add: n_def nlbits_def nlbits_of_def nl_def)
  have b: "unat nl < 8" using nlbits_less[of "clic_abs m0 c s"] n n_def by simp
  show ?thesis
    unfolding clic_get_int_level_def clic_read_cfg[OF assms(1)] Let_def prod.case clic_abs_read nl_def[symmetric]
      c_shr_config[OF assms(2) b] c_shift_config[OF assms(2)]
    using assms(2) by (simp add: u8_shr n k_def v_def drop_bit_drop_bit)
qed

lemma set_priority_run:
  fixes s :: machine
  assumes "clic_hw E m0 c i" "unat (num_config_bits c) \<le> 8"
  defines "old \<equiv> intcfg (clic_abs m0 c s) i"
  shows "clic_set_int_priority E c i prio s =
    Some (old, clic_set_intcfg c i (ucast old)
      (logged [RdB (hart_addr c + CLIC_CFG) (cliccfg (clic_abs m0 c s)),
               RdB (hart_addr c + CLIC_INTCFG + i) old] s))"
proof -
  have z: "c_shr (ucast prio) (8 - ucast (0 :: u8)) = Some 0"
    by (simp add: c_shr_def) (rule bit_word_eqI; auto simp: bit_ucast_iff bit_drop_bit_eq dest: bit_imp_le_length)
  show ?thesis
    unfolding clic_set_int_priority_def clic_read_cfg[OF assms(1)] Let_def prod.case clic_abs_read z
    by (simp add: c_shift_config[OF assms(2)] old_def clic_read_cfg[OF assms(1)] Let_def)
qed

lemma get_priority_run:
  fixes s :: machine
  assumes "clic_hw E m0 c i" "unat (num_config_bits c) \<le> 8"
  defines "n \<equiv> nlbits (clic_abs m0 c s)" and "k \<equiv> unat (num_config_bits c)"
    and "v \<equiv> intcfg (clic_abs m0 c s) i"
  shows "clic_get_int_priority E c i s =
    (if k + n \<le> 8 then Some (drop_bit (8 - (k + n)) (push_bit n v),
         logged [RdB (hart_addr c + CLIC_INTCFG + i) v,
                 RdB (hart_addr c + CLIC_CFG) (cliccfg (clic_abs m0 c s))] s)
     else None)"
proof -
  define nl where "nl = drop_bit 1 (cliccfg (clic_abs m0 c s)) AND 7"
  have n: "n = unat nl" by (simp add: n_def nlbits_def nlbits_of_def nl_def)
  have b: "unat nl < 8" using nlbits_less[of "clic_abs m0 c s"] n n_def by simp
  show ?thesis
    unfolding clic_get_int_priority_def clic_read_cfg[OF assms(1)] Let_def prod.case clic_abs_read nl_def[symmetric]
      c_shr_priority[OF assms(2) b] c_shl_nlbits[OF b]
    by (simp add: u8_shr u8_shl n k_def v_def)
qed

text \<open>
  C23. The level and priority accessors have a defined result exactly when their shift counts are
  in range: the level ones if \<open>nlbits \<le> num_config_bits\<close>, reading a priority only
  if \<open>num_config_bits + nlbits \<le> 8\<close>, although a priority exists whenever \<open>nlbits < num_config_bits\<close>.
  This is for a controller with at most 8 configuration bits per interrupt whose byte registers hold what
  is stored in them (\<open>clic_hw\<close>).
\<close>

theorem clic_accessors_defined_iff:
  assumes "clic_hw E m0 c i" "unat (num_config_bits c) \<le> 8"
  shows "(clic_set_int_level E c i level s \<noteq> None
           \<longleftrightarrow> nlbits (clic_abs m0 c s) \<le> unat (num_config_bits c))
    \<and> (clic_get_int_level E c i s \<noteq> None \<longleftrightarrow> nlbits (clic_abs m0 c s) \<le> unat (num_config_bits c))
    \<and> (clic_get_int_priority E c i s \<noteq> None
           \<longleftrightarrow> unat (num_config_bits c) + nlbits (clic_abs m0 c s) \<le> 8)"
  by (simp add: set_level_run[OF assms] get_level_run[OF assms] get_priority_run[OF assms] Let_def)

definition clic_sample_bytes :: "u32 \<Rightarrow> u8" where
  "clic_sample_bytes a = (if a = hart_addr clic0 + CLIC_CFG then 6 else 0x2f)"

definition clic_sample_env :: env where
  "clic_sample_env = ram_env clic_sample_bytes (\<lambda>c. 0)"

lemma clic_sample_hw: "clic_hw clic_sample_env clic_sample_bytes clic0 5"
  by (simp add: clic_hw_def clic_sample_env_def)

lemma clic_sample_values [simp]:
  "nlbits (clic_abs clic_sample_bytes clic0 sample_machine) = 3"
  "intcfg (clic_abs clic_sample_bytes clic0 sample_machine) 5 = 0x2f"
  "num_config_bits clic0 = 4"
  by (simp_all add: clic_abs_def Let_def nlbits_def nlbits_of_def clic_sample_bytes_def per_source_def
      sample_machine_def clic0_def reg_simps)

theorem clic_accessors_defined_iff_witness:
  "clic_set_int_level clic_sample_env clic0 5 7 sample_machine \<noteq> None
   \<and> clic_get_int_priority clic_sample_env clic0 5 sample_machine \<noteq> None"
  using clic_accessors_defined_iff[OF clic_sample_hw, of 7 sample_machine] by simp

text \<open>
  C24. What \<open>clic_get_int_level\<close> returns after \<open>clic_set_int_level\<close>: the level bits
  of the argument (its top \<open>nlbits\<close> of \<open>num_config_bits\<close> bits), joined by OR with the level
  the source had before. A source whose level was 0 reads back exactly the level set.
\<close>

theorem clic_level_roundtrip:
  fixes s :: machine
  assumes "clic_hw E m0 c i" "unat (num_config_bits c) \<le> 8"
    and "nlbits (clic_abs m0 c s) \<le> unat (num_config_bits c)"
  shows "\<exists>lv t u. clic_set_int_level E c i level s = Some (lv, t)
    \<and> clic_get_int_level E c i t =
        Some (drop_bit (8 - nlbits (clic_abs m0 c s)) (intcfg (clic_abs m0 c s) i)
              OR take_bit (nlbits (clic_abs m0 c s))
                  (drop_bit (unat (num_config_bits c) - nlbits (clic_abs m0 c s)) level), u)"
proof -
  let ?n = "nlbits (clic_abs m0 c s)" and ?k = "unat (num_config_bits c)"
  let ?old = "intcfg (clic_abs m0 c s) i" and ?lv = "push_bit (8 - ?n) (drop_bit (?k - ?n) level)"
  have i: "i < 1024" using assms(1) by (simp add: clic_hw_def)
  obtain t where t: "clic_set_int_level E c i level s = Some (?lv, t)"
    and a: "clic_abs m0 c t = (clic_abs m0 c s)\<lparr>intcfg := (intcfg (clic_abs m0 c s))(i := ?old OR ?lv)\<rparr>"
    using assms(3) i by (simp add: set_level_run[OF assms(1,2)] Let_def) (simp add: clic_abs_def)
  have n: "nlbits (clic_abs m0 c t) = ?n" by (simp add: a nlbits_def)
  have "drop_bit (8 - ?n) (?old OR ?lv) = drop_bit (8 - ?n) ?old OR take_bit ?n (drop_bit (?k - ?n) level)"
    using nlbits_less[of "clic_abs m0 c s"]
    by (intro bit_word_eqI)
      (auto simp: bit_drop_bit_eq bit_or_iff bit_push_bit_iff bit_take_bit_iff dest: bit_imp_le_length)
  then show ?thesis
    using t assms(3) by (simp add: get_level_run[OF assms(1,2), of t] n a)
qed

theorem clic_level_roundtrip_witness:
  "\<exists>lv t u. clic_set_int_level clic_sample_env clic0 5 0xe sample_machine = Some (lv, t)
     \<and> clic_get_int_level clic_sample_env clic0 5 t = Some (7, u)"
  using clic_level_roundtrip[OF clic_sample_hw, of sample_machine "0xe"] by simp

text \<open>
  \<open>clic_set_int_level\<close> never lowers a level: setting level 0 is defined and reports 0, but the
  configuration byte keeps every level bit it had.
\<close>

theorem clic_level_never_lowered:
  fixes s :: machine
  assumes "clic_hw E m0 c i" "unat (num_config_bits c) \<le> 8"
    and "nlbits (clic_abs m0 c s) \<le> unat (num_config_bits c)"
  shows "\<exists>lv t. clic_set_int_level E c i level s = Some (lv, t)
    \<and> intcfg (clic_abs m0 c t) i AND intcfg (clic_abs m0 c s) i = intcfg (clic_abs m0 c s) i
    \<and> (level = 0 \<longrightarrow> lv = 0 \<and> clic_abs m0 c t = clic_abs m0 c s)"
proof -
  have i: "i < 1024" using assms(1) by (simp add: clic_hw_def)
  have "(x OR y) AND x = (x :: u8)" for x y by (rule bit_word_eqI) (auto simp: bit_simps)
  moreover have "clic_abs m0 c (logged [RdB a x, RdB b y] s) = clic_abs m0 c s" for a b x y
    by (simp add: clic_abs_def)
  ultimately show ?thesis
    using assms(3) i by (simp add: set_level_run[OF assms(1,2)] Let_def)
qed

theorem clic_level_never_lowered_witness:
  "\<exists>lv t. clic_set_int_level clic_sample_env clic0 5 0 sample_machine = Some (lv, t) \<and> lv = 0
     \<and> intcfg (clic_abs clic_sample_bytes clic0 t) 5 = 0x2f"
  using clic_level_never_lowered[OF clic_sample_hw, of sample_machine 0] by auto

text \<open>
  \<open>clic_set_int_priority\<close> has no effect: whatever priority is given, the call rewrites the
  configuration byte with its old value, which it returns, and the controller is unchanged.
\<close>

theorem clic_priority_never_set:
  assumes "clic_hw E m0 c i" "unat (num_config_bits c) \<le> 8"
  shows "\<exists>t. clic_set_int_priority E c i prio s = Some (intcfg (clic_abs m0 c s) i, t)
    \<and> clic_abs m0 c t = clic_abs m0 c s"
proof -
  have i: "i < 1024" using assms(1) by (simp add: clic_hw_def)
  have "clic_abs m0 c (logged [RdB a x, RdB b y] s) = clic_abs m0 c s" for a b x y
    by (simp add: clic_abs_def)
  with i show ?thesis by (simp add: set_priority_run[OF assms])
qed

theorem clic_priority_never_set_witness:
  "\<exists>t. clic_set_int_priority clic_sample_env clic0 5 0xff sample_machine = Some (0x2f, t)
     \<and> intcfg (clic_abs clic_sample_bytes clic0 t) 5 = 0x2f"
  using clic_priority_never_set[OF clic_sample_hw, of "0xff" sample_machine] by auto

text \<open>
  \<open>clic_get_int_priority\<close> shifts by \<open>2 * nlbits\<close> too little: when it is defined, the
  priority field of the configuration byte is what is left of the result after dropping
  its low \<open>2 * nlbits\<close> bits.
\<close>

theorem clic_priority_read_misaligned:
  fixes s :: machine
  assumes "clic_hw E m0 c i" "unat (num_config_bits c) + nlbits (clic_abs m0 c s) \<le> 8"
    and "nlbits (clic_abs m0 c s) \<le> unat (num_config_bits c)"
  shows "\<exists>v t. clic_get_int_priority E c i s = Some (v, t)
    \<and> take_bit (unat (num_config_bits c) - nlbits (clic_abs m0 c s))
        (drop_bit (8 - unat (num_config_bits c)) (intcfg (clic_abs m0 c s) i))
      = drop_bit (2 * nlbits (clic_abs m0 c s)) v"
proof -
  let ?n = "nlbits (clic_abs m0 c s)" and ?k = "unat (num_config_bits c)"
  let ?v = "intcfg (clic_abs m0 c s) i"
  have "take_bit (?k - ?n) (drop_bit (8 - ?k) ?v) = drop_bit (2 * ?n) (drop_bit (8 - (?k + ?n)) (push_bit ?n ?v))"
    using assms(2,3) by (intro bit_word_eqI)
      (auto simp: bit_drop_bit_eq bit_push_bit_iff bit_take_bit_iff dest: bit_imp_le_length)
  with assms(2) show ?thesis by (simp add: get_priority_run[OF assms(1)])
qed

theorem clic_priority_read_misaligned_witness:
  "\<exists>v t. clic_get_int_priority clic_sample_env clic0 5 sample_machine = Some (v, t)
     \<and> take_bit (4 - 3) (drop_bit (8 - 4) (0x2f :: u8)) = drop_bit (2 * 3) v"
  using clic_priority_read_misaligned[OF clic_sample_hw, of sample_machine] by simp

end
