(* ===== verification/Smp.thy ===== *)
theory Smp
  imports Platform
begin

unbundle bit_operations_syntax

text \<open>
  The macros of \<open>include/platform/smp.h\<close>: several harts run the same code, \<open>smp_pause\<close> lets only
  hart 0 go on, and \<open>smp_resume\<close> lets all of them go on together. The macros are modelled as lists of
  their instructions, each executed by a hart in one step; the harts share the software interrupt
  registers (MSIP) of the timer block and are interleaved in any order. How an MSIP register reads
  back after a store is hardware, the parameter \<open>keep\<close>.
\<close>

section \<open>Harts and instructions\<close>

definition MAX_HARTS :: nat where "MAX_HARTS = 32"

definition NONSMP_HART :: u32 where "NONSMP_HART = 0"

definition CLINT_END_HART_IPI :: u32 where
  "CLINT_END_HART_IPI = CLINT_CTRL_ADDR + of_nat (MAX_HARTS * 4)"

text \<open>\<open>R1\<close> and \<open>R2\<close> are the registers the macros are given.\<close>

datatype reg = R1 | R2

record hart =
  pc :: nat
  r1 :: u32
  r2 :: u32
  mie :: u32

record smp =
  harts :: "nat \<Rightarrow> hart"
  msip :: "u32 \<Rightarrow> u32"

text \<open>
  The instructions of the macros; the targets of branches are positions in the list. \<open>Work\<close> stands for
  the code of the user between two macros; it may leave any values in the two registers.
\<close>

datatype instr = Li reg u32 | Csrw_mie reg | Csrr_mhartid reg | Csrr_mip reg
  | Bnez reg nat | Beqz reg nat | Beq reg reg nat | Blt reg reg nat | J nat
  | Sw reg reg | Sw_zero reg | Lw reg reg
  | Addi reg reg u32 | Andi reg reg u32 | Slli reg reg nat | Add reg reg reg | Wfi | Work

fun rd :: "hart \<Rightarrow> reg \<Rightarrow> u32" where
  "rd t R1 = r1 t"
| "rd t R2 = r2 t"

fun wr :: "reg \<Rightarrow> u32 \<Rightarrow> hart \<Rightarrow> hart" where
  "wr R1 v t = t\<lparr>r1 := v\<rparr>"
| "wr R2 v t = t\<lparr>r2 := v\<rparr>"

text \<open>The MSIP register of a hart, and \<open>mip\<close> with its software interrupt bit; \<open>other\<close> gives the other bits.\<close>

definition msip_addr :: "nat \<Rightarrow> u32" where
  "msip_addr h = CLINT_CTRL_ADDR + of_nat (4 * h)"

definition mip :: "u32 \<Rightarrow> nat \<Rightarrow> smp \<Rightarrow> u32" where
  "mip other h s = (other AND NOT 8) OR (if msip s (msip_addr h) AND 1 = 0 then 0 else 8)"

definition set_hart :: "nat \<Rightarrow> hart \<Rightarrow> smp \<Rightarrow> smp" where
  "set_hart h t s = s\<lparr>harts := (harts s)(h := t)\<rparr>"

text \<open>
  Hart \<open>h\<close> executes one instruction. \<open>wfi\<close> may return at any time, as the architecture allows; a
  store writes \<open>keep a v\<close>, the value that the register at \<open>a\<close> holds after \<open>v\<close> is stored.
\<close>

fun exec_instr :: "(u32 \<Rightarrow> u32 \<Rightarrow> u32) \<Rightarrow> u32 \<Rightarrow> nat \<Rightarrow> instr \<Rightarrow> smp \<Rightarrow> smp" where
  "exec_instr keep other h i s =
     (let t = harts s h; t' = t\<lparr>pc := Suc (pc t)\<rparr>;
          jump = (\<lambda>c l. set_hart h (if c then t\<lparr>pc := l\<rparr> else t') s);
          put = (\<lambda>r v. set_hart h (wr r v t') s);
          store = (\<lambda>a v. (set_hart h t' s)\<lparr>msip := (msip s)(a := keep a v)\<rparr>)
      in case i of
        Li r v \<Rightarrow> put r v
      | Csrw_mie r \<Rightarrow> set_hart h (t'\<lparr>mie := rd t r\<rparr>) s
      | Csrr_mhartid r \<Rightarrow> put r (of_nat h)
      | Csrr_mip r \<Rightarrow> put r (mip other h s)
      | Bnez r l \<Rightarrow> jump (rd t r \<noteq> 0) l
      | Beqz r l \<Rightarrow> jump (rd t r = 0) l
      | Beq a b l \<Rightarrow> jump (rd t a = rd t b) l
      | Blt a b l \<Rightarrow> jump (rd t a <s rd t b) l
      | J l \<Rightarrow> jump True l
      | Sw v a \<Rightarrow> store (rd t a) (rd t v)
      | Sw_zero a \<Rightarrow> store (rd t a) 0
      | Lw r a \<Rightarrow> put r (msip s (rd t a))
      | Addi r a v \<Rightarrow> put r (rd t a + v)
      | Andi r a v \<Rightarrow> put r (rd t a AND v)
      | Slli r a k \<Rightarrow> put r (push_bit k (rd t a))
      | Add r a b \<Rightarrow> put r (rd t a + rd t b)
      | Wfi \<Rightarrow> set_hart h t' s
      | Work \<Rightarrow> set_hart h (wr R1 other (wr R2 other t')) s)"

text \<open>A hart at the end of the code stays there.\<close>

definition step_hart :: "instr list \<Rightarrow> (u32 \<Rightarrow> u32 \<Rightarrow> u32) \<Rightarrow> u32 \<Rightarrow> nat \<Rightarrow> smp \<Rightarrow> smp" where
  "step_hart prog keep other h s =
     (if pc (harts s h) < length prog then exec_instr keep other h (prog ! pc (harts s h)) s else s)"

section \<open>The macros\<close>

text \<open>\<open>smp_disable\<close>; the label \<open>hart0_entry\<close> is its end.\<close>

definition smp_disable :: "instr list" where
  "smp_disable =
    [Csrr_mhartid R1, Li R2 NONSMP_HART, Beq R1 R2 5,
     Wfi, J 3]"

text \<open>\<open>smp_pause\<close>; its branch goes to the label 42 that follows, which is the one in \<open>smp_resume\<close>.\<close>

definition smp_pause :: "nat \<Rightarrow> instr list" where
  "smp_pause l42 = [Li R2 8, Csrw_mie R2, Csrr_mhartid R2, Bnez R2 l42]"

text \<open>\<open>smp_resume\<close> at position \<open>o\<close>: its labels are \<open>o + 1\<close> (41), \<open>o + 6\<close> (42) and \<open>o + 15\<close> (41 again).\<close>

definition smp_resume :: "nat \<Rightarrow> instr list" where
  "smp_resume p =
    [Li R1 CLINT_CTRL_ADDR,
     Li R2 1,
     Sw R2 R1,
     Addi R1 R1 4,
     Li R2 CLINT_END_HART_IPI,
     Blt R1 R2 (p + 1),
     Wfi,
     Csrr_mip R2,
     Andi R2 R2 8,
     Beqz R2 (p + 6),
     Li R1 CLINT_CTRL_ADDR,
     Csrr_mhartid R2,
     Slli R2 R2 2,
     Add R2 R2 R1,
     Sw_zero R2,
     Lw R2 R1,
     Bnez R2 (p + 15),
     Addi R1 R1 4,
     Li R2 CLINT_END_HART_IPI,
     Blt R1 R2 (p + 15)]"

text \<open>The use that the comment in the file prescribes: pause, single-threaded work, resume.\<close>

definition barrier :: "instr list" where
  "barrier = smp_pause 11 @ [Work] @ smp_resume 5"

text \<open>All harts start at the beginning, with no software interrupt pending.\<close>

definition start :: "smp \<Rightarrow> bool" where
  "start s \<longleftrightarrow> (\<forall>h. pc (harts s h) = 0) \<and> (\<forall>a. msip s a = 0)"

text \<open>The runs of \<open>n\<close> harts: in each step some hart executes one instruction.\<close>

inductive runs :: "instr list \<Rightarrow> (u32 \<Rightarrow> u32 \<Rightarrow> u32) \<Rightarrow> nat \<Rightarrow> smp \<Rightarrow> smp \<Rightarrow> bool"
  for prog keep n s where
  stop: "runs prog keep n s s"
| step: "runs prog keep n s s' \<Longrightarrow> h < n \<Longrightarrow> runs prog keep n s (step_hart prog keep other h s')"

text \<open>
  The registers of the harts keep the bit that is stored. About those without a hart nothing is
  assumed.
\<close>

definition msip_hw :: "(u32 \<Rightarrow> u32 \<Rightarrow> u32) \<Rightarrow> nat \<Rightarrow> bool" where
  "msip_hw keep n \<longleftrightarrow> list_all (\<lambda>h. keep (msip_addr h) 0 = 0 \<and> keep (msip_addr h) 1 = 1) [0..<n]"


section \<open>The registers of the harts\<close>

lemma slot_facts:
  "list_all (\<lambda>k. msip_addr (Suc k) = msip_addr k + 4 \<and> (msip_addr k <s CLINT_END_HART_IPI \<longleftrightarrow> k < 32)
     \<and> msip_addr k = CLINT_CTRL_ADDR + push_bit 2 (of_nat k)
     \<and> unat (msip_addr k - CLINT_CTRL_ADDR) div 4 = k) [0..<33]"
  by code_simp

lemma slot_at:
  assumes "k \<le> 32"
  shows "msip_addr (Suc k) = msip_addr k + 4 \<and> (msip_addr k <s CLINT_END_HART_IPI \<longleftrightarrow> k < 32)
     \<and> msip_addr k = CLINT_CTRL_ADDR + push_bit 2 (of_nat k)
     \<and> unat (msip_addr k - CLINT_CTRL_ADDR) div 4 = k"
  by (rule bspec[OF slot_facts[unfolded list_all_iff]]) (use assms in simp)

lemmas slot_next = slot_at[THEN conjunct1, symmetric]
lemmas slot_less = slot_at[THEN conjunct2, THEN conjunct1]
lemmas slot_shift = slot_at[THEN conjunct2, THEN conjunct2, THEN conjunct1]
lemmas slot_number = slot_at[THEN conjunct2, THEN conjunct2, THEN conjunct2]

lemma slot_eq: "i \<le> 32 \<Longrightarrow> k \<le> 32 \<Longrightarrow> msip_addr i = msip_addr k \<longleftrightarrow> i = k"
  using slot_number by metis

lemma slot_0: "CLINT_CTRL_ADDR = msip_addr 0"
  by (simp add: msip_addr_def)

lemma slot_end: "CLINT_END_HART_IPI = msip_addr 32"
  by code_simp

section \<open>The invariant of the barrier\<close>

text \<open>Number of the register at an address.\<close>

definition slot :: "u32 \<Rightarrow> nat" where
  "slot a = unat (a - CLINT_CTRL_ADDR) div 4"

lemma slot_addr [simp]: "k \<le> 32 \<Longrightarrow> slot (msip_addr k) = k"
  using slot_number by (simp add: slot_def)

text \<open>What hart \<open>h\<close> has in its registers at each position.\<close>

definition at_slot :: "nat \<Rightarrow> nat \<Rightarrow> u32 \<Rightarrow> bool" where
  "at_slot lo hi a \<longleftrightarrow> lo \<le> slot a \<and> slot a \<le> hi \<and> a = msip_addr (slot a)"

definition hart_ok :: "nat \<Rightarrow> hart \<Rightarrow> bool" where
  "hart_ok h t \<longleftrightarrow> pc t \<le> 25 \<and> (h \<noteq> 0 \<longrightarrow> pc t \<notin> {4..10})
     \<and> (pc t = 3 \<longrightarrow> r2 t = of_nat h)
     \<and> (pc t \<in> {6, 7, 8, 20, 21, 22} \<longrightarrow> at_slot 0 31 (r1 t))
     \<and> (pc t \<in> {9, 10, 23, 24} \<longrightarrow> at_slot 1 32 (r1 t))
     \<and> (pc t = 7 \<longrightarrow> r2 t = 1)
     \<and> (pc t \<in> {10, 24} \<longrightarrow> r2 t = CLINT_END_HART_IPI)
     \<and> (pc t \<in> {16, 17, 18, 19} \<longrightarrow> r1 t = CLINT_CTRL_ADDR)
     \<and> (pc t = 17 \<longrightarrow> r2 t = of_nat h)
     \<and> (pc t = 18 \<longrightarrow> r2 t = push_bit 2 (of_nat h))
     \<and> (pc t = 19 \<longrightarrow> r2 t = msip_addr h)"

text \<open>How many registers hart 0 has set, and how many a hart has found clear, from its position.\<close>

definition sent :: "hart \<Rightarrow> nat" where
  "sent t = (if pc t \<le> 5 then 0 else if pc t \<in> {6, 7, 9, 10} then slot (r1 t)
     else if pc t = 8 then Suc (slot (r1 t)) else 32)"

definition found_clear :: "hart \<Rightarrow> nat" where
  "found_clear t = (if pc t \<le> 19 then 0
     else if pc t \<in> {20, 23, 24} \<or> pc t = 21 \<and> r2 t \<noteq> 0 then slot (r1 t)
     else if pc t \<in> {21, 22} then Suc (slot (r1 t)) else 32)"

text \<open>A hart that has seen its interrupt and is on its way out of the wait loop.\<close>

definition woken :: "hart \<Rightarrow> bool" where
  "woken t \<longleftrightarrow> pc t = 13 \<and> r2 t AND 8 \<noteq> 0 \<or> pc t = 14 \<and> r2 t \<noteq> 0 \<or> 15 \<le> pc t"

definition barrier_inv :: "(u32 \<Rightarrow> u32 \<Rightarrow> u32) \<Rightarrow> nat \<Rightarrow> smp \<Rightarrow> bool" where
  "barrier_inv keep n s \<longleftrightarrow> (\<forall>h<n. hart_ok h (harts s h))
     \<and> (\<forall>i<32. msip s (msip_addr i) =
          (if i < sent (harts s 0)
           then if i < n then if pc (harts s i) \<le> 19 then 1 else 0 else keep (msip_addr i) 1 else 0))
     \<and> (\<forall>h<n. woken (harts s h) \<longrightarrow> h < sent (harts s 0))
     \<and> (\<forall>h<n. \<forall>i<found_clear (harts s h).
          if i < n then 20 \<le> pc (harts s i) else keep (msip_addr i) 1 = 0)"

lemma barrier_inv_start: "start s \<Longrightarrow> barrier_inv keep n s"
  by (simp add: barrier_inv_def start_def hart_ok_def sent_def found_clear_def woken_def)

lemma barrier_length: "length barrier = 25"
  by (simp add: barrier_def smp_pause_def smp_resume_def)

lemma barrier_nth:
  "barrier ! 0 = Li R2 8" "barrier ! Suc 0 = Csrw_mie R2" "barrier ! 2 = Csrr_mhartid R2" "barrier ! 3 = Bnez R2 11"
  "barrier ! 4 = Work" "barrier ! 5 = Li R1 CLINT_CTRL_ADDR" "barrier ! 6 = Li R2 1" "barrier ! 7 = Sw R2 R1"
  "barrier ! 8 = Addi R1 R1 4" "barrier ! 9 = Li R2 CLINT_END_HART_IPI" "barrier ! 10 = Blt R1 R2 6"
  "barrier ! 11 = Wfi" "barrier ! 12 = Csrr_mip R2" "barrier ! 13 = Andi R2 R2 8" "barrier ! 14 = Beqz R2 11"
  "barrier ! 15 = Li R1 CLINT_CTRL_ADDR" "barrier ! 16 = Csrr_mhartid R2" "barrier ! 17 = Slli R2 R2 2"
  "barrier ! 18 = Add R2 R2 R1" "barrier ! 19 = Sw_zero R2" "barrier ! 20 = Lw R2 R1" "barrier ! 21 = Bnez R2 20"
  "barrier ! 22 = Addi R1 R1 4" "barrier ! 23 = Li R2 CLINT_END_HART_IPI" "barrier ! 24 = Blt R1 R2 20"
  by (simp_all add: barrier_def smp_pause_def smp_resume_def)


section \<open>One step\<close>

lemma pc_cases:
  assumes "pc t \<le> 25"
  obtains "pc t = 0" | "pc t = 1" | "pc t = 2" | "pc t = 3" | "pc t = 4" | "pc t = 5" | "pc t = 6"
  | "pc t = 7" | "pc t = 8" | "pc t = 9" | "pc t = 10" | "pc t = 11" | "pc t = 12" | "pc t = 13"
  | "pc t = 14" | "pc t = 15" | "pc t = 16" | "pc t = 17" | "pc t = 18" | "pc t = 19" | "pc t = 20"
  | "pc t = 21" | "pc t = 22" | "pc t = 23" | "pc t = 24" | "pc t = 25"
proof -
  have "[0..<26] = [0, 1, 2, 3, 4, 5, 6, 7, 8, 9, 10, 11, 12, 13, 14, 15, 16, 17, 18, 19, 20, 21, 22, 23, 24, 25]"
    by code_simp
  moreover have "pc t \<in> set [0..<26]" using assms by simp
  ultimately show thesis using that by (simp only: list.set insert_iff empty_iff) blast
qed

lemma step_other [simp]: "j \<noteq> h \<Longrightarrow> harts (step_hart prog keep other h s) j = harts s j"
  by (simp add: step_hart_def set_hart_def Let_def split: instr.split)

lemma at_slot_next: "at_slot 0 31 a \<Longrightarrow> slot (a + 4) = Suc (slot a) \<and> at_slot (Suc 0) 32 (a + 4)"
  using slot_next[of "slot a"] by (auto simp: at_slot_def) 

lemma at_slot_less: "at_slot (Suc 0) 32 a \<Longrightarrow> a <s CLINT_END_HART_IPI \<longleftrightarrow> slot a < 32"
  using slot_less[of "slot a"] by (auto simp: at_slot_def)

lemma at_slot_weaken: "at_slot (Suc 0) 32 a \<Longrightarrow> slot a < 32 \<Longrightarrow> at_slot 0 31 a"
  by (auto simp: at_slot_def)

lemma at_slot_done: "at_slot (Suc 0) 32 a \<Longrightarrow> \<not> slot a < 32 \<Longrightarrow> slot a = 32"
  by (simp add: at_slot_def)

lemma at_slot_0: "at_slot 0 31 CLINT_CTRL_ADDR" "slot CLINT_CTRL_ADDR = 0"
  by (simp_all add: slot_0 at_slot_def)

lemma of_nat_hart: "h < 32 \<Longrightarrow> (of_nat h :: u32) = 0 \<longleftrightarrow> h = 0"
  by (auto simp: word_of_nat_eq_0_iff dest: dvd_imp_le)

lemma slot_of_hart: "h < 32 \<Longrightarrow> push_bit 2 (of_nat h) + CLINT_CTRL_ADDR = msip_addr h"
  using slot_shift[of h] by (simp add: add.commute)

lemmas step_simps = step_hart_def set_hart_def barrier_length barrier_nth Let_def

lemmas slot_simps = at_slot_next at_slot_less at_slot_weaken at_slot_0 of_nat_hart slot_of_hart

lemma step_hart_ok:
  assumes "harts s h = t" "hart_ok h t" "h < 32"
  shows "hart_ok h (harts (step_hart barrier keep other h s) h)"
proof -
  have "pc t \<le> 25" using assms(2) by (simp add: hart_ok_def)
  then show ?thesis
    by (cases rule: pc_cases) (use assms in \<open>auto simp: hart_ok_def step_simps slot_simps\<close>)
qed

lemma step_msip:
  assumes "harts s h = t" "hart_ok h t" "h < 32"
  shows "msip (step_hart barrier keep other h s) a =
    (if pc t = 7 \<and> a = r1 t then keep a 1
     else if pc t = 19 \<and> a = msip_addr h then keep a 0 else msip s a)"
proof -
  have "pc t \<le> 25" using assms(2) by (simp add: hart_ok_def)
  then show ?thesis
    by (cases rule: pc_cases) (use assms in \<open>auto simp: hart_ok_def step_simps\<close>)
qed

lemma step_sent:
  assumes "harts s 0 = t" "hart_ok 0 t"
  shows "sent (harts (step_hart barrier keep other 0 s) 0) = (if pc t = 7 then Suc (sent t) else sent t)"
proof -
  have "pc t \<le> 25" using assms(2) by (simp add: hart_ok_def)
  then show ?thesis
    by (cases rule: pc_cases) (use assms in \<open>auto simp: hart_ok_def step_simps slot_simps sent_def intro: at_slot_done\<close>)
qed

lemma mip_soft: "mip other h s AND 8 \<noteq> 0 \<longleftrightarrow> msip s (msip_addr h) AND 1 \<noteq> 0"
proof -
  have "(other AND NOT 8) AND 8 = (0 :: u32)" by (simp add: and.assoc)
  then show ?thesis by (simp add: mip_def bit.conj_disj_distrib2)
qed

lemma step_woken:
  assumes "harts s h = t" "hart_ok h t" "h < 32" "woken (harts (step_hart barrier keep other h s) h)"
  shows "woken t \<or> pc t = 12 \<and> msip s (msip_addr h) AND 1 \<noteq> 0"
proof -
  have "pc t \<le> 25" using assms(2) by (simp add: hart_ok_def)
  then show ?thesis
    by (cases rule: pc_cases)
      (use assms in \<open>auto simp: hart_ok_def step_simps woken_def mip_soft split: if_splits\<close>)
qed

lemma step_found_clear:
  assumes "harts s h = t" "hart_ok h t" "h < 32"
    "i < found_clear (harts (step_hart barrier keep other h s) h)"
  shows "i < found_clear t \<or> pc t = 20 \<and> i = slot (r1 t) \<and> msip s (r1 t) = 0"
proof -
  have "pc t \<le> 25" using assms(2) by (simp add: hart_ok_def)
  then show ?thesis
    by (cases rule: pc_cases)
      (use assms in \<open>auto simp: hart_ok_def step_simps slot_simps found_clear_def less_Suc_eq dest: at_slot_done split: if_splits\<close>)
qed

lemma step_arrived:
  assumes "harts s h = t" "hart_ok h t"
  shows "20 \<le> pc (harts (step_hart barrier keep other h s) h) \<longleftrightarrow> 19 \<le> pc t"
proof -
  have "pc t \<le> 25" using assms(2) by (simp add: hart_ok_def)
  then show ?thesis
    by (cases rule: pc_cases) (use assms in \<open>auto simp: hart_ok_def step_simps\<close>)
qed


section \<open>The invariant is kept\<close>

text \<open>The four parts of the invariant.\<close>

lemma inv_hart: "barrier_inv keep n s \<Longrightarrow> h < n \<Longrightarrow> hart_ok h (harts s h)"
  by (simp add: barrier_inv_def)

lemma inv_msip:
  "barrier_inv keep n s \<Longrightarrow> i < 32 \<Longrightarrow> msip s (msip_addr i) =
     (if i < sent (harts s 0)
      then if i < n then if pc (harts s i) \<le> 19 then 1 else 0 else keep (msip_addr i) 1 else 0)"
  by (simp add: barrier_inv_def)

lemma inv_woken: "barrier_inv keep n s \<Longrightarrow> h < n \<Longrightarrow> woken (harts s h) \<Longrightarrow> h < sent (harts s 0)"
  by (simp add: barrier_inv_def)

lemma inv_found_clear:
  "barrier_inv keep n s \<Longrightarrow> h < n \<Longrightarrow> i < found_clear (harts s h) \<Longrightarrow>
     if i < n then 20 \<le> pc (harts s i) else keep (msip_addr i) 1 = 0"
  by (simp add: barrier_inv_def)

lemma sent_after: "11 \<le> pc t \<Longrightarrow> sent t = 32"
  by (simp add: sent_def)

lemma sending:
  assumes "hart_ok h t" "pc t = 7"
  shows "h = 0" "sent t = slot (r1 t)" "slot (r1 t) < 32" "r1 t = msip_addr (slot (r1 t))"
  using assms by (auto simp: hart_ok_def sent_def at_slot_def)

lemma scanning:
  assumes "hart_ok h t" "pc t = 20"
  shows "found_clear t = slot (r1 t)" "slot (r1 t) < 32" "r1 t = msip_addr (slot (r1 t))" "woken t"
  using assms by (auto simp: hart_ok_def found_clear_def at_slot_def woken_def)

lemma msip_hwD: "msip_hw keep n \<Longrightarrow> h < n \<Longrightarrow> keep (msip_addr h) 0 = 0 \<and> keep (msip_addr h) 1 = 1"
  by (simp add: msip_hw_def list_all_iff)

lemma inv_step_sent:
  assumes "barrier_inv keep n s" "h < n"
  shows "sent (harts (step_hart barrier keep other h s) 0) =
    (if pc (harts s h) = 7 then Suc (sent (harts s 0)) else sent (harts s 0))"
  using step_sent[OF refl, of s] inv_hart[OF assms] sending(1)[OF inv_hart[OF assms]]
  by (cases "h = 0") auto

lemma inv_step_arrived:
  assumes "barrier_inv keep n s" "h < n"
  shows "20 \<le> pc (harts (step_hart barrier keep other h s) i)
    \<longleftrightarrow> 20 \<le> pc (harts s i) \<or> i = h \<and> pc (harts s h) = 19"
  using step_arrived[OF refl inv_hart[OF assms]] by (cases "i = h") auto

text \<open>When hart \<open>h\<close> finds a register clear while it scans, all registers have been set.\<close>

lemma inv_scan:
  assumes inv: "barrier_inv keep n s" and h: "h < n" "n \<le> 32"
    and scan: "pc (harts s h) = 20" "msip s (r1 (harts s h)) = 0"
  shows "let i = slot (r1 (harts s h)) in if i < n then 20 \<le> pc (harts s i) else keep (msip_addr i) 1 = 0"
proof -
  note sc = scanning[OF inv_hart[OF inv h(1)] scan(1)]
  define i where "i = slot (r1 (harts s h))"
  have 0: "msip s (msip_addr i) = 0" "i < 32" using sc(2,3) scan(2) by (simp_all add: i_def)
  have "h < sent (harts s 0)" using inv_woken[OF inv h(1) sc(4)] .
  then have first: "i = 0 \<longrightarrow> 20 \<le> pc (harts s 0)"
    using inv_msip[OF inv, of 0] 0 h by (cases "i = 0") (auto split: if_splits)
  have "i \<noteq> 0 \<longrightarrow> 20 \<le> pc (harts s 0)"
    using inv_found_clear[OF inv h(1), of 0] sc(1) h by (auto simp: i_def split: if_splits)
  with first have "sent (harts s 0) = 32" by (intro sent_after) auto
  then show ?thesis using inv_msip[OF inv 0(2)] 0 unfolding i_def[symmetric] by (auto split: if_splits)
qed

lemma inv_step_msip:
  fixes other :: u32
  assumes inv: "barrier_inv keep n s" and h: "h < n" "n \<le> 32" and hw: "msip_hw keep n" and i: "i < 32"
  defines "s' \<equiv> step_hart barrier keep other h s"
  shows "msip s' (msip_addr i) = (if i < sent (harts s' 0)
      then if i < n then if pc (harts s' i) \<le> 19 then 1 else 0 else keep (msip_addr i) 1 else 0)"
proof -
  have h32: "h < 32" using h by simp
  define t where "t = harts s h"
  note ok = inv_hart[OF inv h(1), folded t_def] and sent' = inv_step_sent[OF inv h(1), of other, folded s'_def t_def]
  have arrived: "pc (harts s' i) \<le> 19 \<longleftrightarrow> pc (harts s i) \<le> 19 \<and> \<not> (i = h \<and> pc t = 19)"
    using inv_step_arrived[OF inv h(1), of other i, folded s'_def t_def] by auto
  have addr7: "msip_addr i = r1 t \<longleftrightarrow> i = slot (r1 t)" if "pc t = 7"
    using sending(3,4)[OF ok that] slot_addr[of i] i by (metis less_imp_le)
  have msip': "msip s' (msip_addr i) = (if pc t = 7 \<and> i = slot (r1 t) then keep (msip_addr i) 1
      else if pc t = 19 \<and> i = h then keep (msip_addr i) 0 else msip s (msip_addr i))"
    using step_msip[OF t_def[symmetric] ok h32, of keep other "msip_addr i", folded s'_def]
      addr7 slot_eq[of i h] i h32 by auto
  show ?thesis
  proof (cases "pc t = 7 \<and> i = slot (r1 t)")
    case True
    then have "sent (harts s 0) = i" using sending(1,2)[OF ok] by (auto simp: t_def)
    then have "\<not> woken (harts s i)" if "i < n" using inv_woken[OF inv that] by blast
    then have "pc (harts s i) \<le> 19" if "i < n" using that by (fastforce simp: woken_def)
    with True msip' msip_hwD[OF hw, of i] \<open>sent (harts s 0) = i\<close> arrived show ?thesis
      by (auto simp: sent')
  next
    case False
    have "i < sent (harts s' 0) \<longleftrightarrow> i < sent (harts s 0)"
      using False sending(1,2)[OF ok] by (auto simp: sent' t_def)
    with False msip' msip_hwD[OF hw h(1)] arrived inv_msip[OF inv i] h(1) show ?thesis by auto
  qed
qed

lemma barrier_inv_step:
  assumes inv: "barrier_inv keep n s" and h: "h < n" "n \<le> 32" and hw: "msip_hw keep n"
  shows "barrier_inv keep n (step_hart barrier keep other h s)" (is "barrier_inv _ _ ?s")
proof -
  have h32: "h < 32" using h by simp
  note ok = inv_hart[OF inv h(1)] and sent' = inv_step_sent[OF inv h(1), of other]
    and arrived = inv_step_arrived[OF inv h(1), of other]
  have "hart_ok j (harts ?s j)" if "j < n" for j
    using step_hart_ok[OF refl ok h32] inv_hart[OF inv that] by (cases "j = h") auto
  moreover have "j < sent (harts ?s 0)" if "j < n" "woken (harts ?s j)" for j
  proof (cases "j = h \<and> \<not> woken (harts s h)")
    case True
    with step_woken[OF refl ok h32] that have "pc (harts s h) = 12" "msip s (msip_addr h) \<noteq> 0" by auto
    with inv_msip[OF inv h32] sent' True show ?thesis by (auto split: if_splits)
  qed (use inv_woken[OF inv that(1)] that sent' in \<open>cases "j = h"; auto\<close>)
  moreover have "if i < n then 20 \<le> pc (harts ?s i) else keep (msip_addr i) 1 = 0"
    if "j < n" "i < found_clear (harts ?s j)" for i j
  proof (cases "j = h \<and> \<not> i < found_clear (harts s h)")
    case True
    with step_found_clear[OF refl ok h32] that
    have "pc (harts s h) = 20" "i = slot (r1 (harts s h))" "msip s (r1 (harts s h)) = 0" by auto
    with inv_scan[OF inv h] arrived show ?thesis by (auto simp: Let_def)
  next
    case False
    then have "i < found_clear (harts s j)" using that(2) by (cases "j = h") auto
    with inv_found_clear[OF inv that(1)] arrived show ?thesis by auto
  qed
  ultimately show ?thesis
    using inv_step_msip[OF inv h hw] unfolding barrier_inv_def by blast
qed

lemma runs_inv:
  assumes "runs barrier keep n s s'" "start s" "n \<le> 32" "msip_hw keep n"
  shows "barrier_inv keep n s'"
  using assms(1) by induction (use assms(2-) barrier_inv_start barrier_inv_step in auto)


section \<open>Progress\<close>

text \<open>
  How far a hart is from the end. The reads in the two waiting loops count as stale or fresh by the
  value in the register.
\<close>

definition rank :: "hart \<Rightarrow> nat" where
  "rank t =
    (if pc t \<le> 5 then 1000 - pc t
     else if pc t \<le> 8 then 600 + 10 * (32 - slot (r1 t)) + (10 - pc t)
     else if pc t \<le> 10 then 600 + 10 * (32 - slot (r1 t)) + (15 - pc t)
     else if pc t \<le> 12 then 515 - pc t
     else if pc t = 13 then if r2 t AND 8 = 0 then 506 else 502
     else if pc t = 14 then if r2 t = 0 then 505 else 501
     else if pc t \<le> 19 then 480 - pc t
     else if pc t = 20 then 10 * (32 - slot (r1 t)) + 4
     else if pc t = 21 then 10 * (32 - slot (r1 t)) + (if r2 t = 0 then 3 else 5)
     else if pc t = 22 then 10 * (32 - slot (r1 t)) + 2
     else if pc t \<le> 24 then 10 * (32 - slot (r1 t)) + (30 - pc t)
     else 0)"

definition enabled :: "smp \<Rightarrow> nat \<Rightarrow> bool" where
  "enabled s h \<longleftrightarrow> pc (harts s h) < 25
     \<and> (11 \<le> pc (harts s h) \<and> pc (harts s h) \<le> 14 \<longrightarrow> msip s (msip_addr h) = 1)
     \<and> (pc (harts s h) = 20 \<longrightarrow> msip s (r1 (harts s h)) = 0)"

lemma hart_ok_slot:
  assumes "hart_ok h t"
  shows "pc t \<in> {6, 7, 8, 20, 21, 22} \<Longrightarrow> slot (r1 t) \<le> 31"
    and "pc t \<in> {9, 10, 23, 24} \<Longrightarrow> slot (r1 t) \<le> 32"
  using assms by (auto simp: hart_ok_def at_slot_def)

lemma hart_ok_at:
  assumes "hart_ok h t"
  shows "pc t \<in> {6, 7, 8, 20, 21, 22} \<Longrightarrow> at_slot 0 31 (r1 t)"
    and "pc t \<in> {9, 10, 23, 24} \<Longrightarrow> at_slot (Suc 0) 32 (r1 t)"
    and "pc t \<in> {10, 24} \<Longrightarrow> r2 t = CLINT_END_HART_IPI"
    and "pc t \<le> 25"
  using assms by (auto simp: hart_ok_def)

lemma step_rank:
  assumes "harts s h = t" "hart_ok h t" "h < 32" "enabled s h"
  shows "rank (harts (step_hart barrier keep other h s) h) < rank t"
proof -
  note ok = hart_ok_at[OF assms(2)] hart_ok_slot[OF assms(2)]
  have en: "pc t < 25" "11 \<le> pc t \<Longrightarrow> pc t \<le> 14 \<Longrightarrow> msip s (msip_addr h) = 1" "pc t = 20 \<Longrightarrow> msip s (r1 t) = 0"
    using assms(1,4) by (simp_all add: enabled_def)
  have "pc t \<le> 25" using ok by simp
  then show ?thesis
    by (cases rule: pc_cases)
      (use en ok in \<open>simp_all add: assms(1) step_simps rank_def slot_simps mip_soft\<close>)
qed

lemma some_enabled:
  assumes inv: "barrier_inv keep n s" and n: "0 < n" "n \<le> 32"
    and free: "\<And>i. n \<le> i \<Longrightarrow> i < 32 \<Longrightarrow> keep (msip_addr i) 1 = 0"
    and busy: "j < n" "pc (harts s j) \<noteq> 25"
  obtains h where "h < n" "enabled s h"
proof (cases "pc (harts s 0) \<le> 10")
  case True
  then show thesis using that[of 0] n(1) by (simp add: enabled_def)
next
  case False
  then have sent: "sent (harts s 0) = 32" by (simp add: sent_after)
  show thesis
  proof (cases "\<exists>h<n. pc (harts s h) \<le> 19")
    case True
    then obtain h where "h < n" "pc (harts s h) \<le> 19" by blast
    with inv_msip[OF inv, of h] sent n(2) that[of h] show thesis by (simp add: enabled_def)
  next
    case all: False
    have "msip s (msip_addr i) = 0" if "i < 32" for i
      using inv_msip[OF inv that] sent all free[of i] that by auto
    moreover have "pc (harts s j) < 25" using hart_ok_at(4)[OF inv_hart[OF inv busy(1)]] busy(2) by simp
    moreover have "\<not> pc (harts s j) \<le> 19" using all busy(1) by blast
    ultimately show thesis
      using that[OF busy(1)] scanning(2,3)[OF inv_hart[OF inv busy(1)]] by (fastforce simp: enabled_def)
  qed
qed

lemma runs_trans: "runs prog keep n s' s'' \<Longrightarrow> runs prog keep n s s' \<Longrightarrow> runs prog keep n s s''"
  by (induction rule: runs.induct) (auto intro: runs.step)

lemma barrier_opens:
  assumes "barrier_inv keep n s" "0 < n" "n \<le> 32" "msip_hw keep n"
    "\<And>i. n \<le> i \<Longrightarrow> i < 32 \<Longrightarrow> keep (msip_addr i) 1 = 0"
  shows "\<exists>s'. runs barrier keep n s s' \<and> (\<forall>h<n. pc (harts s' h) = 25)"
  using assms(1)
proof (induction "\<Sum>h<n. rank (harts s h)" arbitrary: s rule: less_induct)
  case less
  show ?case
  proof (cases "\<forall>h<n. pc (harts s h) = 25")
    case False
    then obtain j where "j < n" "pc (harts s j) \<noteq> 25" by blast
    then obtain h where h: "h < n" "enabled s h"
      using some_enabled[OF less.prems assms(2,3,5)] by metis
    define s1 where "s1 = step_hart barrier keep 0 h s"
    have "rank (harts s1 h) < rank (harts s h)"
      using step_rank[OF refl inv_hart[OF less.prems h(1)]] h assms(3) by (simp add: s1_def)
    moreover have "rank (harts s1 i) \<le> rank (harts s i)" for i
      using calculation by (cases "i = h") (auto simp: s1_def)
    ultimately have "(\<Sum>i<n. rank (harts s1 i)) < (\<Sum>i<n. rank (harts s i))"
      using h(1) by (intro sum_strict_mono_ex1) auto
    from less.hyps[OF this] barrier_inv_step[OF less.prems h(1) assms(3,4)]
    obtain s' where "runs barrier keep n s1 s'" "\<forall>h<n. pc (harts s' h) = 25"
      by (auto simp: s1_def)
    moreover have "runs barrier keep n s s1" unfolding s1_def by (intro runs.step runs.stop h(1))
    ultimately show ?thesis using runs_trans by blast
  qed (use runs.stop in blast)
qed

lemma leaving:
  assumes "barrier_inv keep n s" "h < n" "pc (harts s h) = 25" "i < 32"
  shows "if i < n then 20 \<le> pc (harts s i) else keep (msip_addr i) 1 = 0"
  using inv_found_clear[OF assms(1,2)] assms(3,4) by (simp add: found_clear_def)


section \<open>Properties of the macros\<close>

text \<open>
  C9. The pause macro holds the other harts back and the resume macro is a barrier. For at most
  \<open>MAX_HARTS\<close> harts, in any interleaving: a hart other than hart 0 never executes the single-threaded code
  between the macros, and while hart 0 has not finished it the others are before or in the wait loop;
  when a hart leaves the barrier, every other hart has arrived and has cleared its interrupt, and every
  interrupt register without a hart has read back zero. The registers of the harts hold exactly the
  interrupts that hart 0 has sent and their harts have not cleared.
\<close>

theorem barrier_separates:
  assumes "runs barrier keep n s s'" "start s" "n \<le> MAX_HARTS" "msip_hw keep n" "h < n" "i < MAX_HARTS"
  shows "(h \<noteq> 0 \<longrightarrow> pc (harts s' h) \<notin> {4..10})
     \<and> (h \<noteq> 0 \<and> pc (harts s' 0) \<le> 5 \<longrightarrow> pc (harts s' h) \<le> 3 \<or> pc (harts s' h) \<in> {11..14})
     \<and> (pc (harts s' h) = length barrier \<longrightarrow>
          (if i < n then 20 \<le> pc (harts s' i) else keep (msip_addr i) 1 = 0))
     \<and> (i < n \<longrightarrow> msip s' (msip_addr i) = (if i < sent (harts s' 0) \<and> pc (harts s' i) \<le> 19 then 1 else 0))"
proof -
  have inv: "barrier_inv keep n s'" using runs_inv assms(1-4) by (simp add: MAX_HARTS_def)
  have "\<not> 15 \<le> pc (harts s' h)" if "pc (harts s' 0) \<le> 5"
    using inv_woken[OF inv assms(5)] that by (auto simp: woken_def sent_def)
  moreover have "h \<noteq> 0 \<longrightarrow> pc (harts s' h) \<notin> {4..10}"
    using inv_hart[OF inv assms(5)] by (simp add: hart_ok_def)
  ultimately show ?thesis
    using leaving[OF inv assms(5), of i] inv_msip[OF inv, of i] assms(6)
    by (auto simp: barrier_length MAX_HARTS_def)
qed

text \<open>Registers of two harts, each holding one bit; the other registers read zero.\<close>

definition two_harts :: "u32 \<Rightarrow> u32 \<Rightarrow> u32" where
  "two_harts a v = (if a < CLINT_CTRL_ADDR + 8 then v AND 1 else 0)"

definition reset_state :: smp where
  "reset_state = \<lparr>harts = (\<lambda>_. \<lparr>pc = 0, r1 = 0, r2 = 0, mie = 0\<rparr>), msip = (\<lambda>_. 0)\<rparr>"

lemma two_harts_hw: "msip_hw two_harts 2" "start reset_state"
  "2 \<le> i \<Longrightarrow> i < 32 \<Longrightarrow> two_harts (msip_addr i) 1 = 0"
proof -
  show "msip_hw two_harts 2" by code_simp
  show "start reset_state" by (simp add: start_def reset_state_def)
  have "list_all (\<lambda>i. two_harts (msip_addr i) 1 = 0) [2..<32]" by code_simp
  then show "two_harts (msip_addr i) 1 = 0" if "2 \<le> i" "i < 32"
    unfolding list_all_iff by (rule bspec) (simp only: set_upt atLeastLessThan_iff that simp_thms)
qed

theorem barrier_separates_witness:
  "\<exists>s'. runs barrier two_harts 2 reset_state s' \<and> pc (harts s' 1) = 25
     \<and> 20 \<le> pc (harts s' 0) \<and> msip s' (msip_addr 0) = 0"
proof -
  obtain s' where s': "runs barrier two_harts 2 reset_state s'" "\<forall>h<2. pc (harts s' h) = 25"
    using barrier_opens[OF barrier_inv_start[OF two_harts_hw(2)] _ _ two_harts_hw(1) two_harts_hw(3)] by auto
  with barrier_separates[OF s'(1) two_harts_hw(2) _ two_harts_hw(1), of 1 0]
  show ?thesis by (auto simp: barrier_length MAX_HARTS_def)
qed

text \<open>
  C10. The barrier opens, and only when the registers without a hart allow it: from every state that
  \<open>n\<close> harts can reach, all of them can reach the end of the code if and only if every interrupt register
  between the last hart and \<open>MAX_HARTS\<close> reads back zero after a one is stored. The macro writes and polls
  all \<open>MAX_HARTS\<close> registers, however many harts there are.
\<close>

theorem barrier_opens_iff:
  assumes "runs barrier keep n s s'" "start s" "0 < n" "n \<le> MAX_HARTS" "msip_hw keep n"
  shows "(\<exists>s''. runs barrier keep n s' s'' \<and> list_all (\<lambda>h. pc (harts s'' h) = length barrier) [0..<n])
    \<longleftrightarrow> list_all (\<lambda>i. keep (msip_addr i) 1 = 0) [n..<MAX_HARTS]"
    (is "?open \<longleftrightarrow> ?free")
proof
  have n: "n \<le> 32" using assms(4) by (simp add: MAX_HARTS_def)
  show ?free if ?open
  proof -
    obtain s'' where s'': "runs barrier keep n s' s''" "list_all (\<lambda>h. pc (harts s'' h) = length barrier) [0..<n]"
      using \<open>?open\<close> by blast
    then have "barrier_inv keep n s''" using runs_inv[OF runs_trans] assms(1,2,5) n by blast
    from leaving[OF this assms(3)] s''(2) assms(3) show ?free
      by (auto simp: list_all_iff barrier_length MAX_HARTS_def split: if_splits)
  qed
  show ?open if ?free
    using barrier_opens[OF runs_inv[OF assms(1,2) n assms(5)] assms(3) n assms(5)] that
    by (fastforce simp: list_all_iff barrier_length MAX_HARTS_def)
qed


theorem barrier_opens_iff_witness:
  "\<exists>s'. runs barrier two_harts 2 reset_state s' \<and> list_all (\<lambda>h. pc (harts s' h) = length barrier) [0..<2]"
  using barrier_opens_iff[OF runs.stop two_harts_hw(2) _ _ two_harts_hw(1)] two_harts_hw(3)
  by (simp add: MAX_HARTS_def list_all_iff)

text \<open>A hart in \<open>smp_disable\<close>.\<close>

definition parked :: "nat \<Rightarrow> hart \<Rightarrow> bool" where
  "parked h t \<longleftrightarrow> (if h = 0 then pc t \<in> {0, 1, 2, 5} else pc t \<in> {0, 1, 2, 3, 4})
     \<and> (pc t \<in> {1, 2} \<longrightarrow> r1 t = of_nat h) \<and> (pc t = 2 \<longrightarrow> r2 t = 0)"

lemma smp_disable_nth: "length smp_disable = 5"
  "smp_disable ! 0 = Csrr_mhartid R1" "smp_disable ! Suc 0 = Li R2 NONSMP_HART" "smp_disable ! 2 = Beq R1 R2 5"
  "smp_disable ! 3 = Wfi" "smp_disable ! 4 = J 3"
  by (simp_all add: smp_disable_def)

lemma parked_step:
  assumes "harts s h = t" "parked h t" "h < 32"
  shows "parked h (harts (step_hart smp_disable keep other h s) h)
    \<and> msip (step_hart smp_disable keep other h s) = msip s"
proof -
  have "pc t = 0 \<or> pc t = 1 \<or> pc t = 2 \<or> pc t = 3 \<or> pc t = 4 \<or> pc t = 5"
    using assms(2) by (auto simp: parked_def split: if_splits)
  then show ?thesis
    by (elim disjE) (use assms in \<open>simp_all add: parked_def step_hart_def set_hart_def smp_disable_nth
        NONSMP_HART_def of_nat_hart Let_def split: if_splits\<close>)
qed

lemma parked_runs:
  assumes "runs smp_disable keep n s s'" "start s" "n \<le> 32"
  shows "(\<forall>h<n. parked h (harts s' h)) \<and> msip s' = msip s"
  using assms(1)
proof induction
  case (step s' k other)
  then have "parked k (harts s' k)" "k < 32" using assms(3) by auto
  note ps = parked_step[OF refl this, of keep other]
  have "parked h (harts (step_hart smp_disable keep other k s') h)" if "h < n" for h
    using ps step.IH that by (cases "h = k") auto
  with ps step.IH show ?case by auto
qed (use assms(2) in \<open>simp add: start_def parked_def\<close>)

text \<open>
  C27. After \<open>smp_disable\<close> only hart 0 reaches the code that follows, in three instructions, and every
  other hart stays in the wait loop; no interrupt register is written.
\<close>

theorem disable_parks:
  assumes "runs smp_disable keep n s s'" "start s" "n \<le> MAX_HARTS" "h < n"
  shows "(if h = 0 then pc (harts s' 0) \<in> {0, 1, 2, length smp_disable} else pc (harts s' h) < length smp_disable)
     \<and> msip s' = msip s"
proof -
  have "parked h (harts s' h)" "msip s' = msip s"
    using parked_runs[OF assms(1,2)] assms(3,4) by (auto simp: MAX_HARTS_def)
  then show ?thesis by (auto simp: parked_def smp_disable_nth)
qed

lemma disable_run: "runs prog keep n s s' \<Longrightarrow> 0 < n \<Longrightarrow> runs prog keep n s (step_hart prog keep 0 0 s')"
  by (rule runs.step)

theorem disable_parks_witness:
  "let s' = (step_hart smp_disable two_harts 0 0 ^^ 3) reset_state in
   runs smp_disable two_harts 2 reset_state s' \<and> pc (harts s' 0) = length smp_disable
     \<and> pc (harts s' 1) < length smp_disable \<and> msip s' = msip reset_state"
proof -
  define s' where "s' = (step_hart smp_disable two_harts 0 0 ^^ 3) reset_state"
  have "runs smp_disable two_harts 2 reset_state s'"
    unfolding s'_def by (simp add: eval_nat_numeral runs.stop disable_run)
  moreover have "pc (harts s' 0) = length smp_disable" unfolding s'_def by code_simp
  ultimately show ?thesis
    using disable_parks[of two_harts 2 reset_state s' 1] two_harts_hw(2) by (simp add: s'_def MAX_HARTS_def)
qed

end
