(* ===== verification/Opcodes.thy ===== *)
theory Opcodes
  imports Prelude
begin

unbundle bit_operations_syntax

text \<open>
  The instruction and register tables of \<open>env/encoding.h\<close> (from \<open>riscv-opcodes\<close>), as data, with the
  decoder they describe. The firmware takes CSR names from the assembler; the tables are checked against
  the architecture's rules and against the names the firmware uses.
\<close>

section \<open>Instruction patterns\<close>

text \<open>
  The pairs \<open>MATCH_X\<close>, \<open>MASK_X\<close>, with the name \<open>X\<close>. A word is an instruction \<open>X\<close> when its bits under
  the mask are those of the match.
\<close>

type_synonym opcode = "string \<times> u32 \<times> u32"

text \<open>Base integer instructions, the 64-bit ones included.\<close>

definition base_opcodes :: "opcode list" where
  "base_opcodes =
    [(''BEQ'', 0x63, 0x707f), (''BNE'', 0x1063, 0x707f), (''BLT'', 0x4063, 0x707f), (''BGE'', 0x5063, 0x707f),
     (''BLTU'', 0x6063, 0x707f), (''BGEU'', 0x7063, 0x707f), (''JALR'', 0x67, 0x707f), (''JAL'', 0x6f, 0x7f),
     (''LUI'', 0x37, 0x7f), (''AUIPC'', 0x17, 0x7f), (''ADDI'', 0x13, 0x707f), (''SLLI'', 0x1013, 0xfc00707f),
     (''SLTI'', 0x2013, 0x707f), (''SLTIU'', 0x3013, 0x707f), (''XORI'', 0x4013, 0x707f),
     (''SRLI'', 0x5013, 0xfc00707f), (''SRAI'', 0x40005013, 0xfc00707f), (''ORI'', 0x6013, 0x707f),
     (''ANDI'', 0x7013, 0x707f), (''ADD'', 0x33, 0xfe00707f), (''SUB'', 0x40000033, 0xfe00707f),
     (''SLL'', 0x1033, 0xfe00707f), (''SLT'', 0x2033, 0xfe00707f), (''SLTU'', 0x3033, 0xfe00707f),
     (''XOR'', 0x4033, 0xfe00707f), (''SRL'', 0x5033, 0xfe00707f), (''SRA'', 0x40005033, 0xfe00707f),
     (''OR'', 0x6033, 0xfe00707f), (''AND'', 0x7033, 0xfe00707f), (''ADDIW'', 0x1b, 0x707f),
     (''SLLIW'', 0x101b, 0xfe00707f), (''SRLIW'', 0x501b, 0xfe00707f), (''SRAIW'', 0x4000501b, 0xfe00707f),
     (''ADDW'', 0x3b, 0xfe00707f), (''SUBW'', 0x4000003b, 0xfe00707f), (''SLLW'', 0x103b, 0xfe00707f),
     (''SRLW'', 0x503b, 0xfe00707f), (''SRAW'', 0x4000503b, 0xfe00707f), (''LB'', 0x3, 0x707f),
     (''LH'', 0x1003, 0x707f), (''LW'', 0x2003, 0x707f), (''LD'', 0x3003, 0x707f), (''LBU'', 0x4003, 0x707f),
     (''LHU'', 0x5003, 0x707f), (''LWU'', 0x6003, 0x707f), (''SB'', 0x23, 0x707f), (''SH'', 0x1023, 0x707f),
     (''SW'', 0x2023, 0x707f), (''SD'', 0x3023, 0x707f), (''FENCE'', 0xf, 0x707f),
     (''FENCE_I'', 0x100f, 0x707f)]"

text \<open>Multiplication, division and atomic operations.\<close>

definition muldiv_amo_opcodes :: "opcode list" where
  "muldiv_amo_opcodes =
    [(''MUL'', 0x2000033, 0xfe00707f), (''MULH'', 0x2001033, 0xfe00707f), (''MULHSU'', 0x2002033, 0xfe00707f),
     (''MULHU'', 0x2003033, 0xfe00707f), (''DIV'', 0x2004033, 0xfe00707f), (''DIVU'', 0x2005033, 0xfe00707f),
     (''REM'', 0x2006033, 0xfe00707f), (''REMU'', 0x2007033, 0xfe00707f), (''MULW'', 0x200003b, 0xfe00707f),
     (''DIVW'', 0x200403b, 0xfe00707f), (''DIVUW'', 0x200503b, 0xfe00707f), (''REMW'', 0x200603b, 0xfe00707f),
     (''REMUW'', 0x200703b, 0xfe00707f), (''AMOADD_W'', 0x202f, 0xf800707f),
     (''AMOXOR_W'', 0x2000202f, 0xf800707f), (''AMOOR_W'', 0x4000202f, 0xf800707f),
     (''AMOAND_W'', 0x6000202f, 0xf800707f), (''AMOMIN_W'', 0x8000202f, 0xf800707f),
     (''AMOMAX_W'', 0xa000202f, 0xf800707f), (''AMOMINU_W'', 0xc000202f, 0xf800707f),
     (''AMOMAXU_W'', 0xe000202f, 0xf800707f), (''AMOSWAP_W'', 0x800202f, 0xf800707f),
     (''LR_W'', 0x1000202f, 0xf9f0707f), (''SC_W'', 0x1800202f, 0xf800707f),
     (''AMOADD_D'', 0x302f, 0xf800707f), (''AMOXOR_D'', 0x2000302f, 0xf800707f),
     (''AMOOR_D'', 0x4000302f, 0xf800707f), (''AMOAND_D'', 0x6000302f, 0xf800707f),
     (''AMOMIN_D'', 0x8000302f, 0xf800707f), (''AMOMAX_D'', 0xa000302f, 0xf800707f),
     (''AMOMINU_D'', 0xc000302f, 0xf800707f), (''AMOMAXU_D'', 0xe000302f, 0xf800707f),
     (''AMOSWAP_D'', 0x800302f, 0xf800707f), (''LR_D'', 0x1000302f, 0xf9f0707f),
     (''SC_D'', 0x1800302f, 0xf800707f)]"

text \<open>System and CSR instructions.\<close>

definition system_opcodes :: "opcode list" where
  "system_opcodes =
    [(''ECALL'', 0x73, 0xffffffff), (''EBREAK'', 0x100073, 0xffffffff), (''URET'', 0x200073, 0xffffffff),
     (''SRET'', 0x10200073, 0xffffffff), (''HRET'', 0x20200073, 0xffffffff),
     (''MRET'', 0x30200073, 0xffffffff), (''DRET'', 0x7b200073, 0xffffffff),
     (''SFENCE_VM'', 0x10400073, 0xfff07fff), (''WFI'', 0x10500073, 0xffffffff), (''CSRRW'', 0x1073, 0x707f),
     (''CSRRS'', 0x2073, 0x707f), (''CSRRC'', 0x3073, 0x707f), (''CSRRWI'', 0x5073, 0x707f),
     (''CSRRSI'', 0x6073, 0x707f), (''CSRRCI'', 0x7073, 0x707f)]"

text \<open>Floating point.\<close>

definition float_opcodes :: "opcode list" where
  "float_opcodes =
    [(''FADD_S'', 0x53, 0xfe00007f), (''FSUB_S'', 0x8000053, 0xfe00007f), (''FMUL_S'', 0x10000053, 0xfe00007f),
     (''FDIV_S'', 0x18000053, 0xfe00007f), (''FSGNJ_S'', 0x20000053, 0xfe00707f),
     (''FSGNJN_S'', 0x20001053, 0xfe00707f), (''FSGNJX_S'', 0x20002053, 0xfe00707f),
     (''FMIN_S'', 0x28000053, 0xfe00707f), (''FMAX_S'', 0x28001053, 0xfe00707f),
     (''FSQRT_S'', 0x58000053, 0xfff0007f), (''FADD_D'', 0x2000053, 0xfe00007f),
     (''FSUB_D'', 0xa000053, 0xfe00007f), (''FMUL_D'', 0x12000053, 0xfe00007f),
     (''FDIV_D'', 0x1a000053, 0xfe00007f), (''FSGNJ_D'', 0x22000053, 0xfe00707f),
     (''FSGNJN_D'', 0x22001053, 0xfe00707f), (''FSGNJX_D'', 0x22002053, 0xfe00707f),
     (''FMIN_D'', 0x2a000053, 0xfe00707f), (''FMAX_D'', 0x2a001053, 0xfe00707f),
     (''FCVT_S_D'', 0x40100053, 0xfff0007f), (''FCVT_D_S'', 0x42000053, 0xfff0007f),
     (''FSQRT_D'', 0x5a000053, 0xfff0007f), (''FLE_S'', 0xa0000053, 0xfe00707f),
     (''FLT_S'', 0xa0001053, 0xfe00707f), (''FEQ_S'', 0xa0002053, 0xfe00707f),
     (''FLE_D'', 0xa2000053, 0xfe00707f), (''FLT_D'', 0xa2001053, 0xfe00707f),
     (''FEQ_D'', 0xa2002053, 0xfe00707f), (''FCVT_W_S'', 0xc0000053, 0xfff0007f),
     (''FCVT_WU_S'', 0xc0100053, 0xfff0007f), (''FCVT_L_S'', 0xc0200053, 0xfff0007f),
     (''FCVT_LU_S'', 0xc0300053, 0xfff0007f), (''FMV_X_S'', 0xe0000053, 0xfff0707f),
     (''FCLASS_S'', 0xe0001053, 0xfff0707f), (''FCVT_W_D'', 0xc2000053, 0xfff0007f),
     (''FCVT_WU_D'', 0xc2100053, 0xfff0007f), (''FCVT_L_D'', 0xc2200053, 0xfff0007f),
     (''FCVT_LU_D'', 0xc2300053, 0xfff0007f), (''FMV_X_D'', 0xe2000053, 0xfff0707f),
     (''FCLASS_D'', 0xe2001053, 0xfff0707f), (''FCVT_S_W'', 0xd0000053, 0xfff0007f),
     (''FCVT_S_WU'', 0xd0100053, 0xfff0007f), (''FCVT_S_L'', 0xd0200053, 0xfff0007f),
     (''FCVT_S_LU'', 0xd0300053, 0xfff0007f), (''FMV_S_X'', 0xf0000053, 0xfff0707f),
     (''FCVT_D_W'', 0xd2000053, 0xfff0007f), (''FCVT_D_WU'', 0xd2100053, 0xfff0007f),
     (''FCVT_D_L'', 0xd2200053, 0xfff0007f), (''FCVT_D_LU'', 0xd2300053, 0xfff0007f),
     (''FMV_D_X'', 0xf2000053, 0xfff0707f), (''FLW'', 0x2007, 0x707f), (''FLD'', 0x3007, 0x707f),
     (''FSW'', 0x2027, 0x707f), (''FSD'', 0x3027, 0x707f), (''FMADD_S'', 0x43, 0x600007f),
     (''FMSUB_S'', 0x47, 0x600007f), (''FNMSUB_S'', 0x4b, 0x600007f), (''FNMADD_S'', 0x4f, 0x600007f),
     (''FMADD_D'', 0x2000043, 0x600007f), (''FMSUB_D'', 0x2000047, 0x600007f),
     (''FNMSUB_D'', 0x200004b, 0x600007f), (''FNMADD_D'', 0x200004f, 0x600007f)]"

text \<open>Compressed instructions, 16 bits long.\<close>

definition compressed_opcodes :: "opcode list" where
  "compressed_opcodes =
    [(''C_NOP'', 0x1, 0xffff), (''C_ADDI16SP'', 0x6101, 0xef83), (''C_JR'', 0x8002, 0xf07f),
     (''C_JALR'', 0x9002, 0xf07f), (''C_EBREAK'', 0x9002, 0xffff), (''C_LD'', 0x6000, 0xe003),
     (''C_SD'', 0xe000, 0xe003), (''C_ADDIW'', 0x2001, 0xe003), (''C_LDSP'', 0x6002, 0xe003),
     (''C_SDSP'', 0xe002, 0xe003), (''C_ADDI4SPN'', 0x0, 0xe003), (''C_FLD'', 0x2000, 0xe003),
     (''C_LW'', 0x4000, 0xe003), (''C_FLW'', 0x6000, 0xe003), (''C_FSD'', 0xa000, 0xe003),
     (''C_SW'', 0xc000, 0xe003), (''C_FSW'', 0xe000, 0xe003), (''C_ADDI'', 0x1, 0xe003),
     (''C_JAL'', 0x2001, 0xe003), (''C_LI'', 0x4001, 0xe003), (''C_LUI'', 0x6001, 0xe003),
     (''C_SRLI'', 0x8001, 0xec03), (''C_SRAI'', 0x8401, 0xec03), (''C_ANDI'', 0x8801, 0xec03),
     (''C_SUB'', 0x8c01, 0xfc63), (''C_XOR'', 0x8c21, 0xfc63), (''C_OR'', 0x8c41, 0xfc63),
     (''C_AND'', 0x8c61, 0xfc63), (''C_SUBW'', 0x9c01, 0xfc63), (''C_ADDW'', 0x9c21, 0xfc63),
     (''C_J'', 0xa001, 0xe003), (''C_BEQZ'', 0xc001, 0xe003), (''C_BNEZ'', 0xe001, 0xe003),
     (''C_SLLI'', 0x2, 0xe003), (''C_FLDSP'', 0x2002, 0xe003), (''C_LWSP'', 0x4002, 0xe003),
     (''C_FLWSP'', 0x6002, 0xe003), (''C_MV'', 0x8002, 0xf003), (''C_ADD'', 0x9002, 0xf003),
     (''C_FSDSP'', 0xa002, 0xe003), (''C_SWSP'', 0xc002, 0xe003), (''C_FSWSP'', 0xe002, 0xe003)]"

text \<open>Reserved for extensions.\<close>

definition custom_opcodes :: "opcode list" where
  "custom_opcodes =
    [(''CUSTOM0'', 0xb, 0x707f), (''CUSTOM0_RS1'', 0x200b, 0x707f), (''CUSTOM0_RS1_RS2'', 0x300b, 0x707f),
     (''CUSTOM0_RD'', 0x400b, 0x707f), (''CUSTOM0_RD_RS1'', 0x600b, 0x707f),
     (''CUSTOM0_RD_RS1_RS2'', 0x700b, 0x707f), (''CUSTOM1'', 0x2b, 0x707f), (''CUSTOM1_RS1'', 0x202b, 0x707f),
     (''CUSTOM1_RS1_RS2'', 0x302b, 0x707f), (''CUSTOM1_RD'', 0x402b, 0x707f),
     (''CUSTOM1_RD_RS1'', 0x602b, 0x707f), (''CUSTOM1_RD_RS1_RS2'', 0x702b, 0x707f),
     (''CUSTOM2'', 0x5b, 0x707f), (''CUSTOM2_RS1'', 0x205b, 0x707f), (''CUSTOM2_RS1_RS2'', 0x305b, 0x707f),
     (''CUSTOM2_RD'', 0x405b, 0x707f), (''CUSTOM2_RD_RS1'', 0x605b, 0x707f),
     (''CUSTOM2_RD_RS1_RS2'', 0x705b, 0x707f), (''CUSTOM3'', 0x7b, 0x707f), (''CUSTOM3_RS1'', 0x207b, 0x707f),
     (''CUSTOM3_RS1_RS2'', 0x307b, 0x707f), (''CUSTOM3_RD'', 0x407b, 0x707f),
     (''CUSTOM3_RD_RS1'', 0x607b, 0x707f), (''CUSTOM3_RD_RS1_RS2'', 0x707b, 0x707f)]"

definition opcodes :: "opcode list" where
  "opcodes = base_opcodes @ muldiv_amo_opcodes @ system_opcodes @ float_opcodes @ compressed_opcodes @ custom_opcodes"

text \<open>The lines \<open>DECLARE_INSN(x, MATCH_X, MASK_X)\<close> of the same groups, as \<open>x\<close> and \<open>X\<close>.\<close>

definition declared_base :: "(string \<times> string) list" where
  "declared_base =
    [(''beq'', ''BEQ''), (''bne'', ''BNE''), (''blt'', ''BLT''), (''bge'', ''BGE''), (''bltu'', ''BLTU''),
     (''bgeu'', ''BGEU''), (''jalr'', ''JALR''), (''jal'', ''JAL''), (''lui'', ''LUI''),
     (''auipc'', ''AUIPC''), (''addi'', ''ADDI''), (''slli'', ''SLLI''), (''slti'', ''SLTI''),
     (''sltiu'', ''SLTIU''), (''xori'', ''XORI''), (''srli'', ''SRLI''), (''srai'', ''SRAI''),
     (''ori'', ''ORI''), (''andi'', ''ANDI''), (''add'', ''ADD''), (''sub'', ''SUB''), (''sll'', ''SLL''),
     (''slt'', ''SLT''), (''sltu'', ''SLTU''), (''xor'', ''XOR''), (''srl'', ''SRL''), (''sra'', ''SRA''),
     (''or'', ''OR''), (''and'', ''AND''), (''addiw'', ''ADDIW''), (''slliw'', ''SLLIW''),
     (''srliw'', ''SRLIW''), (''sraiw'', ''SRAIW''), (''addw'', ''ADDW''), (''subw'', ''SUBW''),
     (''sllw'', ''SLLW''), (''srlw'', ''SRLW''), (''sraw'', ''SRAW''), (''lb'', ''LB''), (''lh'', ''LH''),
     (''lw'', ''LW''), (''ld'', ''LD''), (''lbu'', ''LBU''), (''lhu'', ''LHU''), (''lwu'', ''LWU''),
     (''sb'', ''SB''), (''sh'', ''SH''), (''sw'', ''SW''), (''sd'', ''SD''), (''fence'', ''FENCE''),
     (''fence_i'', ''FENCE_I'')]"

definition declared_muldiv_amo :: "(string \<times> string) list" where
  "declared_muldiv_amo =
    [(''mul'', ''MUL''), (''mulh'', ''MULH''), (''mulhsu'', ''MULHSU''), (''mulhu'', ''MULHU''),
     (''div'', ''DIV''), (''divu'', ''DIVU''), (''rem'', ''REM''), (''remu'', ''REMU''), (''mulw'', ''MULW''),
     (''divw'', ''DIVW''), (''divuw'', ''DIVUW''), (''remw'', ''REMW''), (''remuw'', ''REMUW''),
     (''amoadd_w'', ''AMOADD_W''), (''amoxor_w'', ''AMOXOR_W''), (''amoor_w'', ''AMOOR_W''),
     (''amoand_w'', ''AMOAND_W''), (''amomin_w'', ''AMOMIN_W''), (''amomax_w'', ''AMOMAX_W''),
     (''amominu_w'', ''AMOMINU_W''), (''amomaxu_w'', ''AMOMAXU_W''), (''amoswap_w'', ''AMOSWAP_W''),
     (''lr_w'', ''LR_W''), (''sc_w'', ''SC_W''), (''amoadd_d'', ''AMOADD_D''), (''amoxor_d'', ''AMOXOR_D''),
     (''amoor_d'', ''AMOOR_D''), (''amoand_d'', ''AMOAND_D''), (''amomin_d'', ''AMOMIN_D''),
     (''amomax_d'', ''AMOMAX_D''), (''amominu_d'', ''AMOMINU_D''), (''amomaxu_d'', ''AMOMAXU_D''),
     (''amoswap_d'', ''AMOSWAP_D''), (''lr_d'', ''LR_D''), (''sc_d'', ''SC_D'')]"

definition declared_system :: "(string \<times> string) list" where
  "declared_system =
    [(''ecall'', ''ECALL''), (''ebreak'', ''EBREAK''), (''uret'', ''URET''), (''sret'', ''SRET''),
     (''hret'', ''HRET''), (''mret'', ''MRET''), (''dret'', ''DRET''), (''sfence_vm'', ''SFENCE_VM''),
     (''wfi'', ''WFI''), (''csrrw'', ''CSRRW''), (''csrrs'', ''CSRRS''), (''csrrc'', ''CSRRC''),
     (''csrrwi'', ''CSRRWI''), (''csrrsi'', ''CSRRSI''), (''csrrci'', ''CSRRCI'')]"

definition declared_float :: "(string \<times> string) list" where
  "declared_float =
    [(''fadd_s'', ''FADD_S''), (''fsub_s'', ''FSUB_S''), (''fmul_s'', ''FMUL_S''), (''fdiv_s'', ''FDIV_S''),
     (''fsgnj_s'', ''FSGNJ_S''), (''fsgnjn_s'', ''FSGNJN_S''), (''fsgnjx_s'', ''FSGNJX_S''),
     (''fmin_s'', ''FMIN_S''), (''fmax_s'', ''FMAX_S''), (''fsqrt_s'', ''FSQRT_S''), (''fadd_d'', ''FADD_D''),
     (''fsub_d'', ''FSUB_D''), (''fmul_d'', ''FMUL_D''), (''fdiv_d'', ''FDIV_D''), (''fsgnj_d'', ''FSGNJ_D''),
     (''fsgnjn_d'', ''FSGNJN_D''), (''fsgnjx_d'', ''FSGNJX_D''), (''fmin_d'', ''FMIN_D''),
     (''fmax_d'', ''FMAX_D''), (''fcvt_s_d'', ''FCVT_S_D''), (''fcvt_d_s'', ''FCVT_D_S''),
     (''fsqrt_d'', ''FSQRT_D''), (''fle_s'', ''FLE_S''), (''flt_s'', ''FLT_S''), (''feq_s'', ''FEQ_S''),
     (''fle_d'', ''FLE_D''), (''flt_d'', ''FLT_D''), (''feq_d'', ''FEQ_D''), (''fcvt_w_s'', ''FCVT_W_S''),
     (''fcvt_wu_s'', ''FCVT_WU_S''), (''fcvt_l_s'', ''FCVT_L_S''), (''fcvt_lu_s'', ''FCVT_LU_S''),
     (''fmv_x_s'', ''FMV_X_S''), (''fclass_s'', ''FCLASS_S''), (''fcvt_w_d'', ''FCVT_W_D''),
     (''fcvt_wu_d'', ''FCVT_WU_D''), (''fcvt_l_d'', ''FCVT_L_D''), (''fcvt_lu_d'', ''FCVT_LU_D''),
     (''fmv_x_d'', ''FMV_X_D''), (''fclass_d'', ''FCLASS_D''), (''fcvt_s_w'', ''FCVT_S_W''),
     (''fcvt_s_wu'', ''FCVT_S_WU''), (''fcvt_s_l'', ''FCVT_S_L''), (''fcvt_s_lu'', ''FCVT_S_LU''),
     (''fmv_s_x'', ''FMV_S_X''), (''fcvt_d_w'', ''FCVT_D_W''), (''fcvt_d_wu'', ''FCVT_D_WU''),
     (''fcvt_d_l'', ''FCVT_D_L''), (''fcvt_d_lu'', ''FCVT_D_LU''), (''fmv_d_x'', ''FMV_D_X''),
     (''flw'', ''FLW''), (''fld'', ''FLD''), (''fsw'', ''FSW''), (''fsd'', ''FSD''),
     (''fmadd_s'', ''FMADD_S''), (''fmsub_s'', ''FMSUB_S''), (''fnmsub_s'', ''FNMSUB_S''),
     (''fnmadd_s'', ''FNMADD_S''), (''fmadd_d'', ''FMADD_D''), (''fmsub_d'', ''FMSUB_D''),
     (''fnmsub_d'', ''FNMSUB_D''), (''fnmadd_d'', ''FNMADD_D'')]"

definition declared_compressed :: "(string \<times> string) list" where
  "declared_compressed =
    [(''c_nop'', ''C_NOP''), (''c_addi16sp'', ''C_ADDI16SP''), (''c_jr'', ''C_JR''), (''c_jalr'', ''C_JALR''),
     (''c_ebreak'', ''C_EBREAK''), (''c_ld'', ''C_LD''), (''c_sd'', ''C_SD''), (''c_addiw'', ''C_ADDIW''),
     (''c_ldsp'', ''C_LDSP''), (''c_sdsp'', ''C_SDSP''), (''c_addi4spn'', ''C_ADDI4SPN''),
     (''c_fld'', ''C_FLD''), (''c_lw'', ''C_LW''), (''c_flw'', ''C_FLW''), (''c_fsd'', ''C_FSD''),
     (''c_sw'', ''C_SW''), (''c_fsw'', ''C_FSW''), (''c_addi'', ''C_ADDI''), (''c_jal'', ''C_JAL''),
     (''c_li'', ''C_LI''), (''c_lui'', ''C_LUI''), (''c_srli'', ''C_SRLI''), (''c_srai'', ''C_SRAI''),
     (''c_andi'', ''C_ANDI''), (''c_sub'', ''C_SUB''), (''c_xor'', ''C_XOR''), (''c_or'', ''C_OR''),
     (''c_and'', ''C_AND''), (''c_subw'', ''C_SUBW''), (''c_addw'', ''C_ADDW''), (''c_j'', ''C_J''),
     (''c_beqz'', ''C_BEQZ''), (''c_bnez'', ''C_BNEZ''), (''c_slli'', ''C_SLLI''), (''c_fldsp'', ''C_FLDSP''),
     (''c_lwsp'', ''C_LWSP''), (''c_flwsp'', ''C_FLWSP''), (''c_mv'', ''C_MV''), (''c_add'', ''C_ADD''),
     (''c_fsdsp'', ''C_FSDSP''), (''c_swsp'', ''C_SWSP''), (''c_fswsp'', ''C_FSWSP'')]"

definition declared_custom :: "(string \<times> string) list" where
  "declared_custom =
    [(''custom0'', ''CUSTOM0''), (''custom0_rs1'', ''CUSTOM0_RS1''),
     (''custom0_rs1_rs2'', ''CUSTOM0_RS1_RS2''), (''custom0_rd'', ''CUSTOM0_RD''),
     (''custom0_rd_rs1'', ''CUSTOM0_RD_RS1''), (''custom0_rd_rs1_rs2'', ''CUSTOM0_RD_RS1_RS2''),
     (''custom1'', ''CUSTOM1''), (''custom1_rs1'', ''CUSTOM1_RS1''),
     (''custom1_rs1_rs2'', ''CUSTOM1_RS1_RS2''), (''custom1_rd'', ''CUSTOM1_RD''),
     (''custom1_rd_rs1'', ''CUSTOM1_RD_RS1''), (''custom1_rd_rs1_rs2'', ''CUSTOM1_RD_RS1_RS2''),
     (''custom2'', ''CUSTOM2''), (''custom2_rs1'', ''CUSTOM2_RS1''),
     (''custom2_rs1_rs2'', ''CUSTOM2_RS1_RS2''), (''custom2_rd'', ''CUSTOM2_RD''),
     (''custom2_rd_rs1'', ''CUSTOM2_RD_RS1''), (''custom2_rd_rs1_rs2'', ''CUSTOM2_RD_RS1_RS2''),
     (''custom3'', ''CUSTOM3''), (''custom3_rs1'', ''CUSTOM3_RS1''),
     (''custom3_rs1_rs2'', ''CUSTOM3_RS1_RS2''), (''custom3_rd'', ''CUSTOM3_RD''),
     (''custom3_rd_rs1'', ''CUSTOM3_RD_RS1''), (''custom3_rd_rs1_rs2'', ''CUSTOM3_RD_RS1_RS2'')]"

definition declared_opcodes :: "(string \<times> string) list" where
  "declared_opcodes = declared_base @ declared_muldiv_amo @ declared_system @ declared_float @ declared_compressed @ declared_custom"

section \<open>The decoder\<close>

definition matches :: "u32 \<Rightarrow> opcode \<Rightarrow> bool" where
  "matches w p \<longleftrightarrow> (case p of (_, m, k) \<Rightarrow> w AND k = m)"

text \<open>The names of the patterns that a word matches.\<close>

definition decode :: "u32 \<Rightarrow> string list" where
  "decode w = map fst (filter (matches w) opcodes)"

text \<open>Compressed patterns that share words: special cases of another one, and the two base widths.\<close>

definition overlapping :: "string list list" where
  "overlapping = [[''C_NOP'', ''C_ADDI''], [''C_ADDI16SP'', ''C_LUI''], [''C_JR'', ''C_MV''],
     [''C_JALR'', ''C_EBREAK'', ''C_ADD''], [''C_LD'', ''C_FLW''], [''C_SD'', ''C_FSW''],
     [''C_ADDIW'', ''C_JAL''], [''C_LDSP'', ''C_FLWSP''], [''C_SDSP'', ''C_FSWSP'']]"

section \<open>Separating the patterns\<close>

text \<open>
  The patterns without their names, numbered, and the class of the overlapping ones. They are separated
  by splitting on bits that all patterns of a list determine; what is left is compared pairwise.
\<close>

fun number :: "int \<Rightarrow> 'a list \<Rightarrow> (int \<times> 'a) list" where
  "number i [] = []"
| "number i (x # xs) = (i, x) # number (i + 1) xs"

definition patterns :: "int \<Rightarrow> opcode list \<Rightarrow> (int \<times> int \<times> int) list" where
  "patterns i ps = number i (map (\<lambda>(_, m, k). (uint m, uint k)) ps)"

definition wide_opcodes :: "opcode list" where
  "wide_opcodes = base_opcodes @ muldiv_amo_opcodes @ system_opcodes @ float_opcodes @ custom_opcodes"

text \<open>The places of the overlapping patterns in \<open>compressed_opcodes\<close>, with their class.\<close>

definition class_of :: "(int \<times> int) list" where
  "class_of = [(0, 0), (17, 0), (1, 1), (20, 1), (2, 2), (37, 2), (3, 3), (4, 3), (38, 3), (5, 4), (13, 4), (6, 5), (16, 5), (7, 6), (18, 6), (8, 7), (36, 7), (9, 8), (41, 8)]"

definition same_class :: "int \<Rightarrow> int \<Rightarrow> bool" where
  "same_class i j \<longleftrightarrow> map_of class_of i = map_of class_of j \<and> map_of class_of i \<noteq> None"

fun pairs_ok :: "(int \<times> int \<times> int) list \<Rightarrow> bool" where
  "pairs_ok [] = True"
| "pairs_ok ((i, m, k) # ps) =
     (list_all (\<lambda>(j, m', k'). if (m XOR m') AND k AND k' = 0 then same_class i j else True) ps \<and> pairs_ok ps)"

fun separated :: "nat list \<Rightarrow> (int \<times> int \<times> int) list \<Rightarrow> bool" where
  "separated [] ps = pairs_ok ps"
| "separated (b # bs) ps =
     (if length ps \<le> 1 then True
      else if list_all (\<lambda>(_, _, k). bit k b) ps
      then separated bs (filter (\<lambda>(_, m, _). bit m b) ps) \<and> separated bs (filter (\<lambda>(_, m, _). \<not> bit m b) ps)
      else separated bs ps)"

lemma compressed_separated: "separated [0, 1, 15, 14, 13, 12, 11, 10, 6, 5] (patterns 0 compressed_opcodes)"
  by code_simp

lemma wide_separated:
  "separated [6, 5, 4, 3, 2, 14, 13, 12, 31, 30, 29, 28, 27, 26, 25, 20, 21] (patterns 100 wide_opcodes)"
  by code_simp

lemma lengths:
  "list_all (\<lambda>(_, m, k). m AND 3 \<noteq> 3 \<and> k AND 3 = 3 \<and> m AND k = m) compressed_opcodes"
  by code_simp

lemma wide_lengths:
  "list_all (\<lambda>(_, m, k). m AND 3 = 3 \<and> k AND 3 = 3 \<and> m AND k = m) wide_opcodes"
  by code_simp

lemma classes:
  "list_all (\<lambda>(i, c). fst (compressed_opcodes ! nat i) \<in> set (overlapping ! nat c) \<and> 0 \<le> c \<and> c < 9) class_of"
  by code_simp

section \<open>Soundness of the separation\<close>

definition bits_differ :: "int \<times> int \<Rightarrow> int \<times> int \<Rightarrow> bool" where
  "bits_differ p q \<longleftrightarrow> (\<exists>b. bit (snd p) b \<and> bit (snd q) b \<and> bit (fst p) b \<noteq> bit (fst q) b)"

lemma bits_differ_sym: "bits_differ p q \<Longrightarrow> bits_differ q p"
  by (auto simp: bits_differ_def)

lemma same_class_sym: "same_class i j \<Longrightarrow> same_class j i"
  by (metis same_class_def)

lemma bits_differ_iff: "bits_differ (m, k) (m', k') \<longleftrightarrow> (m XOR m') AND k AND k' \<noteq> (0 :: int)"
  by (auto simp: bits_differ_def bit_eq_iff bit_and_iff bit_xor_iff)

lemma pairs_ok_sound:
  "pairs_ok ps \<Longrightarrow> (i, p) \<in> set ps \<Longrightarrow> (j, q) \<in> set ps \<Longrightarrow> i \<noteq> j \<Longrightarrow> bits_differ p q \<or> same_class i j"
proof (induction ps rule: pairs_ok.induct)
  case (2 l m k ps)
  have first: "bits_differ (m, k) q \<or> same_class l j" if "(j, q) \<in> set ps" for j q
    using 2(2) that by (cases q) (auto simp: list_all_iff bits_differ_iff split: if_splits)
  have first': "bits_differ q (m, k) \<or> same_class j l" if "(j, q) \<in> set ps" for j q
    using first[OF that] bits_differ_sym same_class_sym by blast
  have ps: "pairs_ok ps" using 2(2) by simp
  show ?case
  proof (cases "i = l \<or> j = l")
    case True
    then have "(i, p) = (l, m, k) \<and> (j, q) \<in> set ps \<or> (j, q) = (l, m, k) \<and> (i, p) \<in> set ps \<or> (i, p) \<in> set ps \<and> (j, q) \<in> set ps"
      using 2(3-5) by auto
    then show ?thesis using first 2(1)[OF ps] 2(5)
      by (cases p; cases q) (auto dest: first')
  qed (use 2(1)[OF ps] 2(3-5) in auto)
qed simp

lemma separated_sound:
  "separated bs ps \<Longrightarrow> (i, p) \<in> set ps \<Longrightarrow> (j, q) \<in> set ps \<Longrightarrow> i \<noteq> j \<Longrightarrow> bits_differ p q \<or> same_class i j"
proof (induction bs ps rule: separated.induct)
  case (1 ps)
  then show ?case using pairs_ok_sound by simp
next
  case (2 b bs ps)
  show ?case
  proof (cases "length ps \<le> 1")
    case True
    with 2(5-7) show ?thesis by (auto simp: le_Suc_eq length_Suc_conv)
  next
    case long: False
    show ?thesis
    proof (cases "list_all (\<lambda>(_, _, k). bit k b) ps \<and> bit (fst p) b \<noteq> bit (fst q) b")
      case True
      with 2(5,6) have "bits_differ p q" by (cases p; cases q) (auto simp: bits_differ_def list_all_iff)
      then show ?thesis ..
    next
      case False
      then show ?thesis using 2 long by (cases p; cases q; cases "bit (fst p) b") (auto split: if_splits)
    qed
  qed
qed

lemma number_mem: "n < length xs \<Longrightarrow> (i + int n, xs ! n) \<in> set (number i xs)"
proof (induction xs arbitrary: i n)
  case (Cons x xs)
  show ?case
  proof (cases n)
    case (Suc m)
    then show ?thesis using Cons.IH[of m "i + 1"] Cons.prems by (simp add: add.assoc)
  qed simp
qed simp

lemma matches_not_apart:
  assumes "matches w (n, m, k)" "matches w (n', m', k')"
  shows "\<not> bits_differ (uint m, uint k) (uint m', uint k')"
  using assms by (auto simp: matches_def bits_differ_def bit_uint_iff bit_and_iff)

text \<open>Two patterns at different places of a separated list that match one word are in one class.\<close>

lemma separated_matches:
  assumes "separated bs (patterns i ps)" "a < length ps" "b < length ps" "a \<noteq> b"
    "matches w (ps ! a)" "matches w (ps ! b)"
  shows "same_class (i + int a) (i + int b)"
proof -
  obtain n m k n' m' k' where p: "ps ! a = (n, m, k)" "ps ! b = (n', m', k')" by (metis prod_cases3)
  then have "(i + int a, uint m, uint k) \<in> set (patterns i ps)" "(i + int b, uint m', uint k') \<in> set (patterns i ps)"
    using number_mem[of a "map (\<lambda>(_, m, k). (uint m, uint k)) ps" i]
      number_mem[of b "map (\<lambda>(_, m, k). (uint m, uint k)) ps" i] assms(2,3) by (simp_all add: patterns_def)
  from separated_sound[OF assms(1) this] assms(4) matches_not_apart[of w] assms(5,6) p
  show ?thesis by auto
qed

lemma opcodes_set: "set opcodes = set wide_opcodes \<union> set compressed_opcodes"
  by (auto simp: opcodes_def wide_opcodes_def)

lemma matches_length:
  assumes "matches w (n, m, k)" "k AND 3 = 3"
  shows "w AND 3 = m AND 3"
proof -
  have "m AND 3 = w AND (k AND 3)" using assms(1) by (auto simp: matches_def and.assoc[symmetric])
  then show ?thesis using assms(2) by simp
qed

lemma wide_unique:
  assumes "p \<in> set wide_opcodes" "q \<in> set opcodes" "matches w p" "matches w q"
  shows "p = q"
proof -
  obtain n m k n' m' k' where pq: "p = (n, m, k)" "q = (n', m', k')" by (metis prod_cases3)
  have "m AND 3 = 3 \<and> k AND 3 = 3"
    using bspec[OF wide_lengths[unfolded list_all_iff] assms(1)] by (simp add: pq)
  then have p3: "w AND 3 = 3" using matches_length[OF assms(3)[unfolded pq]] by simp
  have "m' AND 3 \<noteq> 3 \<and> k' AND 3 = 3" if "q \<in> set compressed_opcodes"
    using bspec[OF lengths[unfolded list_all_iff] that] by (simp add: pq)
  then have "q \<notin> set compressed_opcodes" using p3 matches_length[OF assms(4)[unfolded pq]] by auto
  then have "q \<in> set wide_opcodes" using assms(2) by (simp add: opcodes_set)
  then obtain a b where ab: "a < length wide_opcodes" "b < length wide_opcodes" "p = wide_opcodes ! a" "q = wide_opcodes ! b"
    using assms(1) by (metis in_set_conv_nth)
  then have "same_class (100 + int a) (100 + int b)" if "a \<noteq> b"
    using separated_matches[OF wide_separated ab(1,2) that] assms(3,4) by simp
  moreover have "\<not> same_class (100 + int a) j" for j
    by (simp add: same_class_def class_of_def)
  ultimately show ?thesis using ab by blast
qed

text \<open>A compressed pattern that shares words with another one: both are in one class.\<close>

definition class_at :: "nat \<Rightarrow> int option" where
  "class_at a = map_of class_of (int a)"

lemma class_at_name: "class_at a = Some c \<Longrightarrow> fst (compressed_opcodes ! a) \<in> set (overlapping ! nat c) \<and> nat c < 9"
proof -
  assume "class_at a = Some c"
  then have "(int a, c) \<in> set class_of" by (auto simp: class_at_def dest: map_of_SomeD)
  with classes show ?thesis by (force simp: list_all_iff)
qed

lemma compressed_overlap:
  assumes "a < length compressed_opcodes" "p = compressed_opcodes ! a" "q \<in> set opcodes"
    "matches w p" "matches w q" "p \<noteq> q"
  obtains b c where "q = compressed_opcodes ! b" "class_at a = Some c" "class_at b = Some c"
proof -
  have p: "p \<in> set compressed_opcodes" using assms(1,2) by simp
  have "q \<notin> set wide_opcodes" using wide_unique[of q p w] assms(3-6) p by (auto simp: opcodes_set)
  then have "q \<in> set compressed_opcodes" using assms(3) by (simp add: opcodes_set)
  then obtain b where b: "b < length compressed_opcodes" "q = compressed_opcodes ! b" by (metis in_set_conv_nth)
  then have "same_class (int a) (int b)"
    using separated_matches[OF compressed_separated assms(1) b(1)] assms(2-6) by auto
  then obtain c where "class_at a = Some c" "class_at b = Some c"
    by (metis same_class_def class_at_def option.collapse)
  with b(2) that show thesis by blast
qed

text \<open>
  C15. The instruction table has a decoder: every word is at most one instruction of it, except for the
  compressed encodings listed in \<open>overlapping\<close>, which are special cases of one another or belong to the
  two base widths; and every pattern decodes itself.
\<close>

theorem decode_unambiguous:
  "((\<exists>n. set (decode w) \<subseteq> {n}) \<or> list_ex (\<lambda>c. set (decode w) \<subseteq> set c) overlapping)
   \<and> list_all (\<lambda>(n, m, _). n \<in> set (decode m)) opcodes"
proof
  have mem: "n \<in> set (decode w) \<longleftrightarrow> n \<in> fst ` {p \<in> set opcodes. matches w p}" for n w
    by (simp add: decode_def)
  show "(\<exists>n. set (decode w) \<subseteq> {n}) \<or> list_ex (\<lambda>c. set (decode w) \<subseteq> set c) overlapping"
  proof (cases "\<exists>p q. p \<in> set opcodes \<and> q \<in> set opcodes \<and> matches w p \<and> matches w q \<and> p \<noteq> q")
    case False
    then have "set (decode w) \<subseteq> {n}" if "n \<in> set (decode w)" for n using that by (auto simp: mem)
    then show ?thesis by blast
  next
    case True
    then obtain p q where pq: "p \<in> set opcodes" "q \<in> set opcodes" "matches w p" "matches w q" "p \<noteq> q" by blast
    then have p: "p \<in> set compressed_opcodes" using wide_unique[of p q] by (auto simp: opcodes_set)
    then obtain a where a: "a < length compressed_opcodes" "p = compressed_opcodes ! a" by (metis in_set_conv_nth)
    obtain c where c: "class_at a = Some c" using compressed_overlap[OF a pq(2-5)] by metis
    have "fst r \<in> set (overlapping ! nat c)" if r: "r \<in> set opcodes" "matches w r" for r
    proof (cases "r = p")
      case True
      then show ?thesis using class_at_name[OF c] a(2) by simp
    next
      case False
      then obtain b where "r = compressed_opcodes ! b" "class_at b = Some c"
        using compressed_overlap[OF a r(1) pq(3) r(2)] c by (metis option.inject)
      then show ?thesis using class_at_name by simp
    qed
    then have "set (decode w) \<subseteq> set (overlapping ! nat c)" by (auto simp: mem)
    moreover have "nat c < length overlapping" using class_at_name[OF c] by (simp add: overlapping_def)
    ultimately show ?thesis by (auto simp: list_ex_iff)
  qed
  have "n \<in> set (decode m)" if "(n, m, k) \<in> set opcodes" for n m k
  proof -
    have "m AND k = m" using that lengths wide_lengths by (auto simp: opcodes_set list_all_iff)
    then show ?thesis using that by (force simp: mem matches_def)
  qed
  then show "list_all (\<lambda>(n, m, _). n \<in> set (decode m)) opcodes" by (auto simp: list_all_iff)
qed

end
