(* ===== verification/Csrs.thy ===== *)
theory Csrs
  imports Smp Opcodes
begin

unbundle bit_operations_syntax

text \<open>
  The control and status registers of \<open>env/encoding.h\<close>: the fields of the status, debug, trigger and
  interrupt registers, the page table entry, the register numbers, and the access macros. The masks of a
  register are listed with their names, to be compared with each other and with the constants that the
  firmware uses.
\<close>

section \<open>Fields\<close>

definition mstatus_masks :: "(string \<times> u32) list" where
  "mstatus_masks =
    [(''UIE'', 0x00000001), (''SIE'', 0x00000002), (''HIE'', 0x00000004), (''MIE'', 0x00000008),
     (''UPIE'', 0x00000010), (''SPIE'', 0x00000020), (''HPIE'', 0x00000040), (''MPIE'', 0x00000080),
     (''SPP'', 0x00000100), (''HPP'', 0x00000600), (''MPP'', 0x00001800), (''FS'', 0x00006000),
     (''XS'', 0x00018000), (''MPRV'', 0x00020000), (''PUM'', 0x00040000), (''MXR'', 0x00080000),
     (''VM'', 0x1F000000), (''SD'', 0x80000000)]"

definition MSTATUS64_SD :: u64 where "MSTATUS64_SD = 0x8000000000000000"

definition sstatus_masks :: "(string \<times> u32) list" where
  "sstatus_masks =
    [(''UIE'', 0x00000001), (''SIE'', 0x00000002), (''UPIE'', 0x00000010), (''SPIE'', 0x00000020),
     (''SPP'', 0x00000100), (''FS'', 0x00006000), (''XS'', 0x00018000), (''PUM'', 0x00040000),
     (''SD'', 0x80000000)]"

definition SSTATUS64_SD :: u64 where "SSTATUS64_SD = 0x8000000000000000"

text \<open>Mask and shift, as written.\<close>

definition dcsr_masks :: "(string \<times> u32) list" where
  "dcsr_masks =
    [(''XDEBUGVER'', push_bit 30 3), (''NDRESET'', push_bit 29 1), (''FULLRESET'', push_bit 28 1),
     (''EBREAKM'', push_bit 15 1), (''EBREAKH'', push_bit 14 1), (''EBREAKS'', push_bit 13 1),
     (''EBREAKU'', push_bit 12 1), (''STOPCYCLE'', push_bit 10 1), (''STOPTIME'', push_bit 9 1),
     (''CAUSE'', push_bit 6 7), (''DEBUGINT'', push_bit 5 1), (''HALT'', push_bit 3 1),
     (''STEP'', push_bit 2 1), (''PRV'', push_bit 0 3)]"

definition dcsr_causes :: "(string \<times> u32) list" where
  "dcsr_causes = [(''NONE'', 0), (''SWBP'', 1), (''HWBP'', 2), (''DEBUGINT'', 3), (''STEP'', 4), (''HALT'', 5)]"

text \<open>The upper fields of a trigger depend on the register width.\<close>

definition MCONTROL_TYPE :: "nat \<Rightarrow> u64" where "MCONTROL_TYPE xlen = push_bit (xlen - 4) 0xf"

definition MCONTROL_DMODE :: "nat \<Rightarrow> u64" where "MCONTROL_DMODE xlen = push_bit (xlen - 5) 1"

definition MCONTROL_MASKMAX :: "nat \<Rightarrow> u64" where "MCONTROL_MASKMAX xlen = push_bit (xlen - 11) 0x3f"

definition mcontrol_masks :: "(string \<times> u64) list" where
  "mcontrol_masks =
    [(''SELECT'', push_bit 19 1), (''TIMING'', push_bit 18 1), (''ACTION'', push_bit 12 0x3f),
     (''CHAIN'', push_bit 11 1), (''MATCH'', push_bit 7 0xf), (''M'', push_bit 6 1), (''H'', push_bit 5 1),
     (''S'', push_bit 4 1), (''U'', push_bit 3 1), (''EXECUTE'', push_bit 2 1), (''STORE'', push_bit 1 1),
     (''LOAD'', push_bit 0 1)]"

definition mcontrol_values :: "(string \<times> u64) list" where
  "mcontrol_values =
    [(''TYPE_NONE'', 0), (''TYPE_MATCH'', 2),
     (''ACTION_DEBUG_EXCEPTION'', 0), (''ACTION_DEBUG_MODE'', 1), (''ACTION_TRACE_START'', 2),
     (''ACTION_TRACE_STOP'', 3), (''ACTION_TRACE_EMIT'', 4),
     (''MATCH_EQUAL'', 0), (''MATCH_NAPOT'', 1), (''MATCH_GE'', 2), (''MATCH_LT'', 3),
     (''MATCH_MASK_LOW'', 4), (''MATCH_MASK_HIGH'', 5)]"

text \<open>Interrupt numbers, and the bits of \<open>mip\<close> and \<open>mie\<close> made from them.\<close>

definition irq_numbers :: "(string \<times> nat) list" where
  "irq_numbers =
    [(''S_SOFT'', 1), (''H_SOFT'', 2), (''M_SOFT'', 3), (''S_TIMER'', 5), (''H_TIMER'', 6), (''M_TIMER'', 7),
     (''S_EXT'', 9), (''H_EXT'', 10), (''M_EXT'', 11), (''COP'', 12), (''HOST'', 13)]"

definition irq :: "string \<Rightarrow> nat" where
  "irq n = the (map_of irq_numbers n)"

definition mip_masks :: "(string \<times> u32) list" where
  "mip_masks =
    [(''SSIP'', push_bit (irq ''S_SOFT'') 1), (''HSIP'', push_bit (irq ''H_SOFT'') 1),
     (''MSIP'', push_bit (irq ''M_SOFT'') 1), (''STIP'', push_bit (irq ''S_TIMER'') 1),
     (''HTIP'', push_bit (irq ''H_TIMER'') 1), (''MTIP'', push_bit (irq ''M_TIMER'') 1),
     (''SEIP'', push_bit (irq ''S_EXT'') 1), (''HEIP'', push_bit (irq ''H_EXT'') 1),
     (''MEIP'', push_bit (irq ''M_EXT'') 1)]"

definition sip_masks :: "(string \<times> u32) list" where
  "sip_masks = [(''SSIP'', the (map_of mip_masks ''SSIP'')), (''STIP'', the (map_of mip_masks ''STIP''))]"

definition privileges :: "(string \<times> nat) list" where
  "privileges = [(''U'', 0), (''S'', 1), (''H'', 2), (''M'', 3)]"

definition vm_modes :: "(string \<times> u32) list" where
  "vm_modes = [(''MBARE'', 0), (''MBB'', 1), (''MBBID'', 2), (''SV32'', 8), (''SV39'', 9), (''SV48'', 10)]"

definition memory_constants :: "(string \<times> u32) list" where
  "memory_constants =
    [(''DEFAULT_RSTVEC'', 0x00001000), (''DEFAULT_NMIVEC'', 0x00001004), (''DEFAULT_MTVEC'', 0x00001010),
     (''CONFIG_STRING_ADDR'', 0x0000100C), (''EXT_IO_BASE'', 0x40000000), (''DRAM_BASE'', 0x80000000)]"

section \<open>Page table entries\<close>

definition PTE_V :: u32 where "PTE_V = 0x001"

definition PTE_R :: u32 where "PTE_R = 0x002"

definition PTE_W :: u32 where "PTE_W = 0x004"

definition PTE_X :: u32 where "PTE_X = 0x008"

definition pte_flags :: "(string \<times> u32) list" where
  "pte_flags =
    [(''V'', PTE_V), (''R'', PTE_R), (''W'', PTE_W), (''X'', PTE_X), (''U'', 0x010), (''G'', 0x020),
     (''A'', 0x040), (''D'', 0x080), (''SOFT'', 0x300)]"

definition PTE_PPN_SHIFT :: nat where "PTE_PPN_SHIFT = 10"

definition PTE_TABLE :: "u32 \<Rightarrow> bool" where
  "PTE_TABLE pte \<longleftrightarrow> pte AND (PTE_V OR PTE_R OR PTE_W OR PTE_X) = PTE_V"

text \<open>Constants that depend on the register width.\<close>

definition MSTATUS_SD :: "bool \<Rightarrow> u64" where
  "MSTATUS_SD riscv64 = (if riscv64 then MSTATUS64_SD else ucast (the (map_of mstatus_masks ''SD'')))"

definition SSTATUS_SD :: "bool \<Rightarrow> u64" where
  "SSTATUS_SD riscv64 = (if riscv64 then SSTATUS64_SD else ucast (the (map_of sstatus_masks ''SD'')))"

definition RISCV_PGLEVEL_BITS :: "bool \<Rightarrow> nat" where
  "RISCV_PGLEVEL_BITS riscv64 = (if riscv64 then 9 else 10)"

definition RISCV_PGSHIFT :: nat where "RISCV_PGSHIFT = 12"

definition RISCV_PGSIZE :: u32 where "RISCV_PGSIZE = push_bit RISCV_PGSHIFT 1"

section \<open>Access macros\<close>

text \<open>
  One instruction each: the old value is read and the new one written. An immediate operand or a register
  makes no difference to the effect.
\<close>

definition swap_csr :: "env \<Rightarrow> csr \<Rightarrow> u32 \<Rightarrow> machine \<Rightarrow> u32 \<times> machine" where
  "swap_csr E c v s = (let (old, s) = read_csr E c s in (old, write_csr c v s))"

definition set_csr :: "env \<Rightarrow> csr \<Rightarrow> u32 \<Rightarrow> machine \<Rightarrow> u32 \<times> machine" where
  "set_csr E c b s = (let (old, s) = read_csr E c s in (old, write_csr c (old OR b) s))"

definition clear_csr :: "env \<Rightarrow> csr \<Rightarrow> u32 \<Rightarrow> machine \<Rightarrow> u32 \<times> machine" where
  "clear_csr E c b s = (let (old, s) = read_csr E c s in (old, write_csr c (old AND NOT b) s))"

section \<open>Control and status registers\<close>

text \<open>The numbers \<open>CSR_X\<close>.\<close>

text \<open>User registers and counters.\<close>

definition user_csrs :: "(string \<times> u32) list" where
  "user_csrs =
    [(''FFLAGS'', 0x1), (''FRM'', 0x2), (''FCSR'', 0x3), (''CYCLE'', 0xc00), (''TIME'', 0xc01),
     (''INSTRET'', 0xc02), (''HPMCOUNTER3'', 0xc03), (''HPMCOUNTER4'', 0xc04), (''HPMCOUNTER5'', 0xc05),
     (''HPMCOUNTER6'', 0xc06), (''HPMCOUNTER7'', 0xc07), (''HPMCOUNTER8'', 0xc08), (''HPMCOUNTER9'', 0xc09),
     (''HPMCOUNTER10'', 0xc0a), (''HPMCOUNTER11'', 0xc0b), (''HPMCOUNTER12'', 0xc0c),
     (''HPMCOUNTER13'', 0xc0d), (''HPMCOUNTER14'', 0xc0e), (''HPMCOUNTER15'', 0xc0f),
     (''HPMCOUNTER16'', 0xc10), (''HPMCOUNTER17'', 0xc11), (''HPMCOUNTER18'', 0xc12),
     (''HPMCOUNTER19'', 0xc13), (''HPMCOUNTER20'', 0xc14), (''HPMCOUNTER21'', 0xc15),
     (''HPMCOUNTER22'', 0xc16), (''HPMCOUNTER23'', 0xc17), (''HPMCOUNTER24'', 0xc18),
     (''HPMCOUNTER25'', 0xc19), (''HPMCOUNTER26'', 0xc1a), (''HPMCOUNTER27'', 0xc1b),
     (''HPMCOUNTER28'', 0xc1c), (''HPMCOUNTER29'', 0xc1d), (''HPMCOUNTER30'', 0xc1e),
     (''HPMCOUNTER31'', 0xc1f)]"

text \<open>Supervisor registers.\<close>

definition supervisor_csrs :: "(string \<times> u32) list" where
  "supervisor_csrs =
    [(''SSTATUS'', 0x100), (''SIE'', 0x104), (''STVEC'', 0x105), (''SSCRATCH'', 0x140), (''SEPC'', 0x141),
     (''SCAUSE'', 0x142), (''SBADADDR'', 0x143), (''SIP'', 0x144), (''SPTBR'', 0x180)]"

text \<open>Machine registers, triggers and debug.\<close>

definition machine_csrs :: "(string \<times> u32) list" where
  "machine_csrs =
    [(''MSTATUS'', 0x300), (''MISA'', 0x301), (''MEDELEG'', 0x302), (''MIDELEG'', 0x303), (''MIE'', 0x304),
     (''MTVEC'', 0x305), (''MSCRATCH'', 0x340), (''MEPC'', 0x341), (''MCAUSE'', 0x342), (''MBADADDR'', 0x343),
     (''MIP'', 0x344), (''TSELECT'', 0x7a0), (''TDATA1'', 0x7a1), (''TDATA2'', 0x7a2), (''TDATA3'', 0x7a3),
     (''DCSR'', 0x7b0), (''DPC'', 0x7b1), (''DSCRATCH'', 0x7b2)]"

text \<open>Machine counters and events.\<close>

definition machine_counters :: "(string \<times> u32) list" where
  "machine_counters =
    [(''MCYCLE'', 0xb00), (''MINSTRET'', 0xb02), (''MHPMCOUNTER3'', 0xb03), (''MHPMCOUNTER4'', 0xb04),
     (''MHPMCOUNTER5'', 0xb05), (''MHPMCOUNTER6'', 0xb06), (''MHPMCOUNTER7'', 0xb07),
     (''MHPMCOUNTER8'', 0xb08), (''MHPMCOUNTER9'', 0xb09), (''MHPMCOUNTER10'', 0xb0a),
     (''MHPMCOUNTER11'', 0xb0b), (''MHPMCOUNTER12'', 0xb0c), (''MHPMCOUNTER13'', 0xb0d),
     (''MHPMCOUNTER14'', 0xb0e), (''MHPMCOUNTER15'', 0xb0f), (''MHPMCOUNTER16'', 0xb10),
     (''MHPMCOUNTER17'', 0xb11), (''MHPMCOUNTER18'', 0xb12), (''MHPMCOUNTER19'', 0xb13),
     (''MHPMCOUNTER20'', 0xb14), (''MHPMCOUNTER21'', 0xb15), (''MHPMCOUNTER22'', 0xb16),
     (''MHPMCOUNTER23'', 0xb17), (''MHPMCOUNTER24'', 0xb18), (''MHPMCOUNTER25'', 0xb19),
     (''MHPMCOUNTER26'', 0xb1a), (''MHPMCOUNTER27'', 0xb1b), (''MHPMCOUNTER28'', 0xb1c),
     (''MHPMCOUNTER29'', 0xb1d), (''MHPMCOUNTER30'', 0xb1e), (''MHPMCOUNTER31'', 0xb1f),
     (''MUCOUNTEREN'', 0x320), (''MSCOUNTEREN'', 0x321), (''MHPMEVENT3'', 0x323), (''MHPMEVENT4'', 0x324),
     (''MHPMEVENT5'', 0x325), (''MHPMEVENT6'', 0x326), (''MHPMEVENT7'', 0x327), (''MHPMEVENT8'', 0x328),
     (''MHPMEVENT9'', 0x329), (''MHPMEVENT10'', 0x32a), (''MHPMEVENT11'', 0x32b), (''MHPMEVENT12'', 0x32c),
     (''MHPMEVENT13'', 0x32d), (''MHPMEVENT14'', 0x32e), (''MHPMEVENT15'', 0x32f), (''MHPMEVENT16'', 0x330),
     (''MHPMEVENT17'', 0x331), (''MHPMEVENT18'', 0x332), (''MHPMEVENT19'', 0x333), (''MHPMEVENT20'', 0x334),
     (''MHPMEVENT21'', 0x335), (''MHPMEVENT22'', 0x336), (''MHPMEVENT23'', 0x337), (''MHPMEVENT24'', 0x338),
     (''MHPMEVENT25'', 0x339), (''MHPMEVENT26'', 0x33a), (''MHPMEVENT27'', 0x33b), (''MHPMEVENT28'', 0x33c),
     (''MHPMEVENT29'', 0x33d), (''MHPMEVENT30'', 0x33e), (''MHPMEVENT31'', 0x33f)]"

text \<open>Identification.\<close>

definition machine_ids :: "(string \<times> u32) list" where
  "machine_ids =
    [(''MVENDORID'', 0xf11), (''MARCHID'', 0xf12), (''MIMPID'', 0xf13), (''MHARTID'', 0xf14)]"

text \<open>High halves of the counters.\<close>

definition counters_high :: "(string \<times> u32) list" where
  "counters_high =
    [(''CYCLEH'', 0xc80), (''TIMEH'', 0xc81), (''INSTRETH'', 0xc82), (''HPMCOUNTER3H'', 0xc83),
     (''HPMCOUNTER4H'', 0xc84), (''HPMCOUNTER5H'', 0xc85), (''HPMCOUNTER6H'', 0xc86),
     (''HPMCOUNTER7H'', 0xc87), (''HPMCOUNTER8H'', 0xc88), (''HPMCOUNTER9H'', 0xc89),
     (''HPMCOUNTER10H'', 0xc8a), (''HPMCOUNTER11H'', 0xc8b), (''HPMCOUNTER12H'', 0xc8c),
     (''HPMCOUNTER13H'', 0xc8d), (''HPMCOUNTER14H'', 0xc8e), (''HPMCOUNTER15H'', 0xc8f),
     (''HPMCOUNTER16H'', 0xc90), (''HPMCOUNTER17H'', 0xc91), (''HPMCOUNTER18H'', 0xc92),
     (''HPMCOUNTER19H'', 0xc93), (''HPMCOUNTER20H'', 0xc94), (''HPMCOUNTER21H'', 0xc95),
     (''HPMCOUNTER22H'', 0xc96), (''HPMCOUNTER23H'', 0xc97), (''HPMCOUNTER24H'', 0xc98),
     (''HPMCOUNTER25H'', 0xc99), (''HPMCOUNTER26H'', 0xc9a), (''HPMCOUNTER27H'', 0xc9b),
     (''HPMCOUNTER28H'', 0xc9c), (''HPMCOUNTER29H'', 0xc9d), (''HPMCOUNTER30H'', 0xc9e),
     (''HPMCOUNTER31H'', 0xc9f), (''MCYCLEH'', 0xb80), (''MINSTRETH'', 0xb82), (''MHPMCOUNTER3H'', 0xb83),
     (''MHPMCOUNTER4H'', 0xb84), (''MHPMCOUNTER5H'', 0xb85), (''MHPMCOUNTER6H'', 0xb86),
     (''MHPMCOUNTER7H'', 0xb87), (''MHPMCOUNTER8H'', 0xb88), (''MHPMCOUNTER9H'', 0xb89),
     (''MHPMCOUNTER10H'', 0xb8a), (''MHPMCOUNTER11H'', 0xb8b), (''MHPMCOUNTER12H'', 0xb8c),
     (''MHPMCOUNTER13H'', 0xb8d), (''MHPMCOUNTER14H'', 0xb8e), (''MHPMCOUNTER15H'', 0xb8f),
     (''MHPMCOUNTER16H'', 0xb90), (''MHPMCOUNTER17H'', 0xb91), (''MHPMCOUNTER18H'', 0xb92),
     (''MHPMCOUNTER19H'', 0xb93), (''MHPMCOUNTER20H'', 0xb94), (''MHPMCOUNTER21H'', 0xb95),
     (''MHPMCOUNTER22H'', 0xb96), (''MHPMCOUNTER23H'', 0xb97), (''MHPMCOUNTER24H'', 0xb98),
     (''MHPMCOUNTER25H'', 0xb99), (''MHPMCOUNTER26H'', 0xb9a), (''MHPMCOUNTER27H'', 0xb9b),
     (''MHPMCOUNTER28H'', 0xb9c), (''MHPMCOUNTER29H'', 0xb9d), (''MHPMCOUNTER30H'', 0xb9e),
     (''MHPMCOUNTER31H'', 0xb9f)]"

definition csrs :: "(string \<times> u32) list" where
  "csrs = user_csrs @ supervisor_csrs @ machine_csrs @ machine_counters @ machine_ids @ counters_high"

text \<open>The lines \<open>DECLARE_CSR(x, CSR_X)\<close>.\<close>

definition declared_user_csrs :: "(string \<times> string) list" where
  "declared_user_csrs =
    [(''fflags'', ''FFLAGS''), (''frm'', ''FRM''), (''fcsr'', ''FCSR''), (''cycle'', ''CYCLE''),
     (''time'', ''TIME''), (''instret'', ''INSTRET''), (''hpmcounter3'', ''HPMCOUNTER3''),
     (''hpmcounter4'', ''HPMCOUNTER4''), (''hpmcounter5'', ''HPMCOUNTER5''),
     (''hpmcounter6'', ''HPMCOUNTER6''), (''hpmcounter7'', ''HPMCOUNTER7''),
     (''hpmcounter8'', ''HPMCOUNTER8''), (''hpmcounter9'', ''HPMCOUNTER9''),
     (''hpmcounter10'', ''HPMCOUNTER10''), (''hpmcounter11'', ''HPMCOUNTER11''),
     (''hpmcounter12'', ''HPMCOUNTER12''), (''hpmcounter13'', ''HPMCOUNTER13''),
     (''hpmcounter14'', ''HPMCOUNTER14''), (''hpmcounter15'', ''HPMCOUNTER15''),
     (''hpmcounter16'', ''HPMCOUNTER16''), (''hpmcounter17'', ''HPMCOUNTER17''),
     (''hpmcounter18'', ''HPMCOUNTER18''), (''hpmcounter19'', ''HPMCOUNTER19''),
     (''hpmcounter20'', ''HPMCOUNTER20''), (''hpmcounter21'', ''HPMCOUNTER21''),
     (''hpmcounter22'', ''HPMCOUNTER22''), (''hpmcounter23'', ''HPMCOUNTER23''),
     (''hpmcounter24'', ''HPMCOUNTER24''), (''hpmcounter25'', ''HPMCOUNTER25''),
     (''hpmcounter26'', ''HPMCOUNTER26''), (''hpmcounter27'', ''HPMCOUNTER27''),
     (''hpmcounter28'', ''HPMCOUNTER28''), (''hpmcounter29'', ''HPMCOUNTER29''),
     (''hpmcounter30'', ''HPMCOUNTER30''), (''hpmcounter31'', ''HPMCOUNTER31'')]"

definition declared_supervisor_csrs :: "(string \<times> string) list" where
  "declared_supervisor_csrs =
    [(''sstatus'', ''SSTATUS''), (''sie'', ''SIE''), (''stvec'', ''STVEC''), (''sscratch'', ''SSCRATCH''),
     (''sepc'', ''SEPC''), (''scause'', ''SCAUSE''), (''sbadaddr'', ''SBADADDR''), (''sip'', ''SIP''),
     (''sptbr'', ''SPTBR'')]"

definition declared_machine_csrs :: "(string \<times> string) list" where
  "declared_machine_csrs =
    [(''mstatus'', ''MSTATUS''), (''misa'', ''MISA''), (''medeleg'', ''MEDELEG''), (''mideleg'', ''MIDELEG''),
     (''mie'', ''MIE''), (''mtvec'', ''MTVEC''), (''mscratch'', ''MSCRATCH''), (''mepc'', ''MEPC''),
     (''mcause'', ''MCAUSE''), (''mbadaddr'', ''MBADADDR''), (''mip'', ''MIP''), (''tselect'', ''TSELECT''),
     (''tdata1'', ''TDATA1''), (''tdata2'', ''TDATA2''), (''tdata3'', ''TDATA3''), (''dcsr'', ''DCSR''),
     (''dpc'', ''DPC''), (''dscratch'', ''DSCRATCH'')]"

definition declared_machine_counters :: "(string \<times> string) list" where
  "declared_machine_counters =
    [(''mcycle'', ''MCYCLE''), (''minstret'', ''MINSTRET''), (''mhpmcounter3'', ''MHPMCOUNTER3''),
     (''mhpmcounter4'', ''MHPMCOUNTER4''), (''mhpmcounter5'', ''MHPMCOUNTER5''),
     (''mhpmcounter6'', ''MHPMCOUNTER6''), (''mhpmcounter7'', ''MHPMCOUNTER7''),
     (''mhpmcounter8'', ''MHPMCOUNTER8''), (''mhpmcounter9'', ''MHPMCOUNTER9''),
     (''mhpmcounter10'', ''MHPMCOUNTER10''), (''mhpmcounter11'', ''MHPMCOUNTER11''),
     (''mhpmcounter12'', ''MHPMCOUNTER12''), (''mhpmcounter13'', ''MHPMCOUNTER13''),
     (''mhpmcounter14'', ''MHPMCOUNTER14''), (''mhpmcounter15'', ''MHPMCOUNTER15''),
     (''mhpmcounter16'', ''MHPMCOUNTER16''), (''mhpmcounter17'', ''MHPMCOUNTER17''),
     (''mhpmcounter18'', ''MHPMCOUNTER18''), (''mhpmcounter19'', ''MHPMCOUNTER19''),
     (''mhpmcounter20'', ''MHPMCOUNTER20''), (''mhpmcounter21'', ''MHPMCOUNTER21''),
     (''mhpmcounter22'', ''MHPMCOUNTER22''), (''mhpmcounter23'', ''MHPMCOUNTER23''),
     (''mhpmcounter24'', ''MHPMCOUNTER24''), (''mhpmcounter25'', ''MHPMCOUNTER25''),
     (''mhpmcounter26'', ''MHPMCOUNTER26''), (''mhpmcounter27'', ''MHPMCOUNTER27''),
     (''mhpmcounter28'', ''MHPMCOUNTER28''), (''mhpmcounter29'', ''MHPMCOUNTER29''),
     (''mhpmcounter30'', ''MHPMCOUNTER30''), (''mhpmcounter31'', ''MHPMCOUNTER31''),
     (''mucounteren'', ''MUCOUNTEREN''), (''mscounteren'', ''MSCOUNTEREN''), (''mhpmevent3'', ''MHPMEVENT3''),
     (''mhpmevent4'', ''MHPMEVENT4''), (''mhpmevent5'', ''MHPMEVENT5''), (''mhpmevent6'', ''MHPMEVENT6''),
     (''mhpmevent7'', ''MHPMEVENT7''), (''mhpmevent8'', ''MHPMEVENT8''), (''mhpmevent9'', ''MHPMEVENT9''),
     (''mhpmevent10'', ''MHPMEVENT10''), (''mhpmevent11'', ''MHPMEVENT11''),
     (''mhpmevent12'', ''MHPMEVENT12''), (''mhpmevent13'', ''MHPMEVENT13''),
     (''mhpmevent14'', ''MHPMEVENT14''), (''mhpmevent15'', ''MHPMEVENT15''),
     (''mhpmevent16'', ''MHPMEVENT16''), (''mhpmevent17'', ''MHPMEVENT17''),
     (''mhpmevent18'', ''MHPMEVENT18''), (''mhpmevent19'', ''MHPMEVENT19''),
     (''mhpmevent20'', ''MHPMEVENT20''), (''mhpmevent21'', ''MHPMEVENT21''),
     (''mhpmevent22'', ''MHPMEVENT22''), (''mhpmevent23'', ''MHPMEVENT23''),
     (''mhpmevent24'', ''MHPMEVENT24''), (''mhpmevent25'', ''MHPMEVENT25''),
     (''mhpmevent26'', ''MHPMEVENT26''), (''mhpmevent27'', ''MHPMEVENT27''),
     (''mhpmevent28'', ''MHPMEVENT28''), (''mhpmevent29'', ''MHPMEVENT29''),
     (''mhpmevent30'', ''MHPMEVENT30''), (''mhpmevent31'', ''MHPMEVENT31'')]"

definition declared_machine_ids :: "(string \<times> string) list" where
  "declared_machine_ids =
    [(''mvendorid'', ''MVENDORID''), (''marchid'', ''MARCHID''), (''mimpid'', ''MIMPID''),
     (''mhartid'', ''MHARTID'')]"

definition declared_counters_high :: "(string \<times> string) list" where
  "declared_counters_high =
    [(''cycleh'', ''CYCLEH''), (''timeh'', ''TIMEH''), (''instreth'', ''INSTRETH''),
     (''hpmcounter3h'', ''HPMCOUNTER3H''), (''hpmcounter4h'', ''HPMCOUNTER4H''),
     (''hpmcounter5h'', ''HPMCOUNTER5H''), (''hpmcounter6h'', ''HPMCOUNTER6H''),
     (''hpmcounter7h'', ''HPMCOUNTER7H''), (''hpmcounter8h'', ''HPMCOUNTER8H''),
     (''hpmcounter9h'', ''HPMCOUNTER9H''), (''hpmcounter10h'', ''HPMCOUNTER10H''),
     (''hpmcounter11h'', ''HPMCOUNTER11H''), (''hpmcounter12h'', ''HPMCOUNTER12H''),
     (''hpmcounter13h'', ''HPMCOUNTER13H''), (''hpmcounter14h'', ''HPMCOUNTER14H''),
     (''hpmcounter15h'', ''HPMCOUNTER15H''), (''hpmcounter16h'', ''HPMCOUNTER16H''),
     (''hpmcounter17h'', ''HPMCOUNTER17H''), (''hpmcounter18h'', ''HPMCOUNTER18H''),
     (''hpmcounter19h'', ''HPMCOUNTER19H''), (''hpmcounter20h'', ''HPMCOUNTER20H''),
     (''hpmcounter21h'', ''HPMCOUNTER21H''), (''hpmcounter22h'', ''HPMCOUNTER22H''),
     (''hpmcounter23h'', ''HPMCOUNTER23H''), (''hpmcounter24h'', ''HPMCOUNTER24H''),
     (''hpmcounter25h'', ''HPMCOUNTER25H''), (''hpmcounter26h'', ''HPMCOUNTER26H''),
     (''hpmcounter27h'', ''HPMCOUNTER27H''), (''hpmcounter28h'', ''HPMCOUNTER28H''),
     (''hpmcounter29h'', ''HPMCOUNTER29H''), (''hpmcounter30h'', ''HPMCOUNTER30H''),
     (''hpmcounter31h'', ''HPMCOUNTER31H''), (''mcycleh'', ''MCYCLEH''), (''minstreth'', ''MINSTRETH''),
     (''mhpmcounter3h'', ''MHPMCOUNTER3H''), (''mhpmcounter4h'', ''MHPMCOUNTER4H''),
     (''mhpmcounter5h'', ''MHPMCOUNTER5H''), (''mhpmcounter6h'', ''MHPMCOUNTER6H''),
     (''mhpmcounter7h'', ''MHPMCOUNTER7H''), (''mhpmcounter8h'', ''MHPMCOUNTER8H''),
     (''mhpmcounter9h'', ''MHPMCOUNTER9H''), (''mhpmcounter10h'', ''MHPMCOUNTER10H''),
     (''mhpmcounter11h'', ''MHPMCOUNTER11H''), (''mhpmcounter12h'', ''MHPMCOUNTER12H''),
     (''mhpmcounter13h'', ''MHPMCOUNTER13H''), (''mhpmcounter14h'', ''MHPMCOUNTER14H''),
     (''mhpmcounter15h'', ''MHPMCOUNTER15H''), (''mhpmcounter16h'', ''MHPMCOUNTER16H''),
     (''mhpmcounter17h'', ''MHPMCOUNTER17H''), (''mhpmcounter18h'', ''MHPMCOUNTER18H''),
     (''mhpmcounter19h'', ''MHPMCOUNTER19H''), (''mhpmcounter20h'', ''MHPMCOUNTER20H''),
     (''mhpmcounter21h'', ''MHPMCOUNTER21H''), (''mhpmcounter22h'', ''MHPMCOUNTER22H''),
     (''mhpmcounter23h'', ''MHPMCOUNTER23H''), (''mhpmcounter24h'', ''MHPMCOUNTER24H''),
     (''mhpmcounter25h'', ''MHPMCOUNTER25H''), (''mhpmcounter26h'', ''MHPMCOUNTER26H''),
     (''mhpmcounter27h'', ''MHPMCOUNTER27H''), (''mhpmcounter28h'', ''MHPMCOUNTER28H''),
     (''mhpmcounter29h'', ''MHPMCOUNTER29H''), (''mhpmcounter30h'', ''MHPMCOUNTER30H''),
     (''mhpmcounter31h'', ''MHPMCOUNTER31H'')]"

definition declared_csrs :: "(string \<times> string) list" where
  "declared_csrs = declared_user_csrs @ declared_supervisor_csrs @ declared_machine_csrs @ declared_machine_counters @ declared_machine_ids @ declared_counters_high"

section \<open>Exception causes\<close>

definition causes :: "(string \<times> u32) list" where
  "causes =
    [(''MISALIGNED_FETCH'', 0x0), (''FAULT_FETCH'', 0x1), (''ILLEGAL_INSTRUCTION'', 0x2),
     (''BREAKPOINT'', 0x3), (''MISALIGNED_LOAD'', 0x4), (''FAULT_LOAD'', 0x5), (''MISALIGNED_STORE'', 0x6),
     (''FAULT_STORE'', 0x7), (''USER_ECALL'', 0x8), (''SUPERVISOR_ECALL'', 0x9), (''HYPERVISOR_ECALL'', 0xa),
     (''MACHINE_ECALL'', 0xb)]"

text \<open>The lines \<open>DECLARE_CAUSE(text, CAUSE_X)\<close>.\<close>

definition declared_causes :: "(string \<times> string) list" where
  "declared_causes =
    [(''misaligned fetch'', ''MISALIGNED_FETCH''), (''fault fetch'', ''FAULT_FETCH''),
     (''illegal instruction'', ''ILLEGAL_INSTRUCTION''), (''breakpoint'', ''BREAKPOINT''),
     (''misaligned load'', ''MISALIGNED_LOAD''), (''fault load'', ''FAULT_LOAD''),
     (''misaligned store'', ''MISALIGNED_STORE''), (''fault store'', ''FAULT_STORE''),
     (''user_ecall'', ''USER_ECALL''), (''supervisor_ecall'', ''SUPERVISOR_ECALL''),
     (''hypervisor_ecall'', ''HYPERVISOR_ECALL''), (''machine_ecall'', ''MACHINE_ECALL'')]"

section \<open>Consistency of the fields\<close>

text \<open>Masks of one register do not overlap.\<close>

fun exclusive :: "('a::len) word list \<Rightarrow> bool" where
  "exclusive [] = True"
| "exclusive (m # ms) = (m \<noteq> 0 \<and> list_all (\<lambda>m'. m AND m' = 0) ms \<and> exclusive ms)"

definition mcontrol_fields :: "nat \<Rightarrow> u64 list" where
  "mcontrol_fields xlen = MCONTROL_TYPE xlen # MCONTROL_DMODE xlen # MCONTROL_MASKMAX xlen # map snd mcontrol_masks"

lemma field_masks:
  "exclusive (map snd mstatus_masks)" "exclusive (map snd dcsr_masks)" "exclusive (map snd mip_masks)"
  "exclusive (map snd pte_flags)" "exclusive (mcontrol_fields 32)" "exclusive (mcontrol_fields 64)"
  by code_simp+

text \<open>
  The fields of each register are disjoint: \<open>mstatus\<close>, \<open>dcsr\<close>, \<open>mip\<close>, the trigger control for both
  register widths, and the flags of a page table entry below its page number. Every field of \<open>sstatus\<close> and
  every bit of \<open>sip\<close> is the machine field of the same name. The constants that the firmware uses are the
  entries of these tables: the FPU state it enables, the timer and external interrupt causes it
  dispatches on, and the bit with which \<open>smp_pause\<close> enables and \<open>smp_resume\<close> awaits software interrupts.
\<close>

theorem register_fields_disjoint:
  "exclusive (map snd mstatus_masks) \<and> exclusive (map snd dcsr_masks) \<and> exclusive (map snd mip_masks)
   \<and> exclusive (mcontrol_fields 32) \<and> exclusive (mcontrol_fields 64)
   \<and> exclusive (map snd pte_flags) \<and> list_all (\<lambda>(_, m). m < push_bit PTE_PPN_SHIFT 1) pte_flags
   \<and> list_all (\<lambda>(n, m). map_of mstatus_masks n = Some m) sstatus_masks
   \<and> list_all (\<lambda>(n, m). map_of mip_masks n = Some m) sip_masks
   \<and> map_of mstatus_masks ''FS'' = Some MSTATUS_FS
   \<and> irq ''M_TIMER'' = unat IRQ_M_TIMER \<and> irq ''M_EXT'' = unat IRQ_M_EXT
   \<and> map_of mip_masks ''MSIP'' = Some 8 \<and> smp_pause 11 ! 0 = Li R2 8 \<and> smp_resume 5 ! 8 = Andi R2 R2 8"
  by (intro conjI field_masks) (code_simp+)

text \<open>
  \<open>PTE_TABLE\<close> holds exactly for the entries that point to a further table: the valid ones that
  grant no access.
\<close>

theorem pte_table_iff:
  "PTE_TABLE pte \<longleftrightarrow> bit pte 0 \<and> \<not> bit pte 1 \<and> \<not> bit pte 2 \<and> \<not> bit pte 3"
proof -
  have "PTE_V OR PTE_R OR PTE_W OR PTE_X = mask 4" "PTE_V = 1" by code_simp+
  then have "PTE_TABLE pte \<longleftrightarrow> take_bit 4 pte = 1"
    by (simp add: PTE_TABLE_def take_bit_eq_mask)
  also have "\<dots> \<longleftrightarrow> (\<forall>n<32. n < 4 \<and> bit pte n \<longleftrightarrow> n = 0)"
    by (subst bit_eq_iff) (simp add: bit_take_bit_iff bit_1_iff)
  also have "\<dots> \<longleftrightarrow> bit pte 0 \<and> \<not> bit pte 1 \<and> \<not> bit pte 2 \<and> \<not> bit pte 3"
    by (auto simp: numeral_eq_Suc less_Suc_eq)
  finally show ?thesis .
qed

section \<open>Consistency of the register numbers\<close>

lemma csrs_separated: "separated [0, 1, 2, 3, 4, 5, 6, 7, 8, 9, 10, 11] (patterns 100 (map (\<lambda>(n, v). (n, v, 0xFFF)) csrs))"
  by code_simp

lemma csr_numbers_distinct: "distinct (map snd csrs)"
proof -
  let ?ps = "map (\<lambda>(n, v). (n, v, 0xFFF)) csrs :: opcode list"
  have small: "list_all (\<lambda>(_, v). v AND 0xFFF = v) csrs" by code_simp
  have "snd (csrs ! a) \<noteq> snd (csrs ! b)" if ab: "a < length csrs" "b < length csrs" "a \<noteq> b" for a b
  proof
    assume eq: "snd (csrs ! a) = snd (csrs ! b)"
    have m: "matches (snd (csrs ! a)) (?ps ! c)" if "c < length csrs" "snd (csrs ! c) = snd (csrs ! a)" for c
      using small that nth_mem[OF that(1)] by (cases "csrs ! c") (force simp: matches_def list_all_iff)
    have "same_class (100 + int a) (100 + int b)"
      by (rule separated_matches[OF csrs_separated]) (use ab eq m in auto)
    then show False by (simp add: same_class_def class_of_def)
  qed
  then show ?thesis by (simp add: distinct_conv_nth)
qed

text \<open>Privilege and access rights that the number of a register encodes.\<close>

definition csr_privilege :: "u32 \<Rightarrow> u32" where
  "csr_privilege v = drop_bit 8 v AND 3"

definition csr_read_only :: "u32 \<Rightarrow> bool" where
  "csr_read_only v \<longleftrightarrow> drop_bit 10 v AND 3 = 3"

definition csr_ok :: "u32 \<Rightarrow> bool \<Rightarrow> string \<times> u32 \<Rightarrow> bool" where
  "csr_ok p ro e \<longleftrightarrow> csr_privilege (snd e) = p \<and> csr_read_only (snd e) = ro"

text \<open>The names of the registers in the bus model.\<close>

fun csr_name :: "csr \<Rightarrow> string" where
  "csr_name Mhartid = ''MHARTID''"
| "csr_name Misa = ''MISA''"
| "csr_name Mstatus = ''MSTATUS''"
| "csr_name Mtvec = ''MTVEC''"
| "csr_name Mtvt = ''MTVT''"
| "csr_name Mcycle = ''MCYCLE''"
| "csr_name Mcycleh = ''MCYCLEH''"
| "csr_name Fcsr = ''FCSR''"

lemma csr_rights:
  "list_all (csr_ok 0 False) (take 3 user_csrs)" "list_all (csr_ok 0 True) (drop 3 user_csrs)"
  "list_all (csr_ok 1 False) supervisor_csrs" "list_all (csr_ok 3 False) machine_csrs"
  "list_all (csr_ok 3 False) machine_counters" "list_all (csr_ok 3 True) machine_ids"
  by code_simp+

lemma csr_high_halves:
  "counters_high = map (\<lambda>(n, v). (n @ ''H'', v + 0x80)) (drop 3 user_csrs @ take 31 machine_counters)"
  "take 31 machine_counters = map (\<lambda>(n, v). (CHR ''M'' # n, v - 0x100)) (filter (\<lambda>(n, _). n \<noteq> ''TIME'') (drop 3 user_csrs))"
  by code_simp+

lemma firmware_csrs:
  "map (\<lambda>c. map_of csrs (csr_name c)) [Mhartid, Misa, Mstatus, Mtvec, Mcycle, Mcycleh, Fcsr, Mtvt]
    = [Some 0xF14, Some 0x301, Some 0x300, Some 0x305, Some 0xB00, Some 0xB80, Some 0x003, None]"
  by code_simp

text \<open>
  The register table follows the architecture. The numbers are distinct; the privilege level and
  the write protection they encode are those of their group: user counters and identification registers
  are read-only; the high half of a counter is 0x80 above it, and every user counter but the time shadows the
  machine counter 0x100 below. Of the registers the C code uses, all but \<open>mtvt\<close> are in the table, each
  with its machine level number.
\<close>

theorem csr_table_consistent:
  "distinct (map snd csrs)
   \<and> list_all (csr_ok 0 False) (take 3 user_csrs) \<and> list_all (csr_ok 0 True) (drop 3 user_csrs)
   \<and> list_all (csr_ok 1 False) supervisor_csrs \<and> list_all (csr_ok 3 False) machine_csrs
   \<and> list_all (csr_ok 3 False) machine_counters \<and> list_all (csr_ok 3 True) machine_ids
   \<and> counters_high = map (\<lambda>(n, v). (n @ ''H'', v + 0x80)) (drop 3 user_csrs @ take 31 machine_counters)
   \<and> take 31 machine_counters
       = map (\<lambda>(n, v). (CHR ''M'' # n, v - 0x100)) (filter (\<lambda>(n, _). n \<noteq> ''TIME'') (drop 3 user_csrs))
   \<and> map (\<lambda>c. map_of csrs (csr_name c)) [Mhartid, Misa, Mstatus, Mtvec, Mcycle, Mcycleh, Fcsr, Mtvt]
       = [Some 0xF14, Some 0x301, Some 0x300, Some 0x305, Some 0xB00, Some 0xB80, Some 0x003, None]"
  by (intro conjI csr_numbers_distinct csr_rights csr_high_halves firmware_csrs)

section \<open>The declaration lists\<close>

text \<open>Lower case of a letter; digits and the underscore are kept.\<close>

fun lower :: "char \<Rightarrow> char" where
  "lower (Char b0 b1 b2 b3 b4 b5 b6 b7) =
     Char b0 b1 b2 b3 b4 (b5 \<or> b6 \<and> \<not> b7 \<and> \<not> (b0 \<and> b1 \<and> b2 \<and> b3 \<and> b4)) b6 b7"

definition declares :: "(string \<times> string) list \<Rightarrow> (string \<times> 'a) list \<Rightarrow> bool" where
  "declares ds ts \<longleftrightarrow> ds = map (\<lambda>(n, _). (map lower n, n)) ts"

lemma declares_append: "declares ds ts \<Longrightarrow> declares ds' ts' \<Longrightarrow> declares (ds @ ds') (ts @ ts')"
  by (simp add: declares_def)

lemma declared_parts:
  "declares declared_base base_opcodes" "declares declared_muldiv_amo muldiv_amo_opcodes"
  "declares declared_system system_opcodes" "declares declared_float float_opcodes"
  "declares declared_compressed compressed_opcodes" "declares declared_custom custom_opcodes"
  "declares declared_user_csrs user_csrs" "declares declared_supervisor_csrs supervisor_csrs"
  "declares declared_machine_csrs machine_csrs" "declares declared_machine_counters machine_counters"
  "declares declared_machine_ids machine_ids" "declares declared_counters_high counters_high"
  by code_simp+

text \<open>
  The lists that \<open>DECLARE_INSN\<close>, \<open>DECLARE_CSR\<close> and \<open>DECLARE_CAUSE\<close> expand are complete: they name
  every instruction, register and cause of the tables, in order, the first two under the lower-case name; and the
  causes are numbered without gap from zero.
\<close>

theorem declarations_complete:
  "declares declared_opcodes opcodes \<and> declares declared_csrs csrs
   \<and> map snd declared_causes = map fst causes \<and> map snd causes = map of_nat [0..<length causes]"
proof -
  have "declares declared_opcodes opcodes" "declares declared_csrs csrs"
    unfolding declared_opcodes_def opcodes_def declared_csrs_def csrs_def
    by (intro declares_append declared_parts)+
  moreover have "map snd declared_causes = map fst causes \<and> map snd causes = map of_nat [0..<length causes]"
    by code_simp
  ultimately show ?thesis by blast
qed

end
