(* ===== verification/Entry.thy ===== *)
theory Entry
  imports Hello
begin

unbundle bit_operations_syntax

text \<open>
  The assembly around the C code: the trap entry of \<open>env/entry.S\<close>, the vectored handlers of
  \<open>env/ventry.S\<close> and the memory set-up of \<open>env/start.S\<close>. The integer registers are a function of
  their number, memory is a function of byte addresses. What a called C function leaves in the registers it
  may change, and in memory outside the frame of its caller, is a parameter of the call; the locale
  \<open>c_function\<close> states the part of the calling convention that the assembly relies on.
\<close>

section \<open>Instructions\<close>

record cpu =
  xreg :: "nat \<Rightarrow> u32"
  mem :: "u32 \<Rightarrow> u8"
  csr_mcause :: u32
  csr_mepc :: u32
  csr_mstatus :: u32
  hw :: machine

definition addi_sp :: "u32 \<Rightarrow> cpu \<Rightarrow> cpu" where
  "addi_sp k c = c\<lparr>xreg := (xreg c)(2 := xreg c 2 + k)\<rparr>"

definition li :: "nat \<Rightarrow> u32 \<Rightarrow> cpu \<Rightarrow> cpu" where
  "li i v c = c\<lparr>xreg := (xreg c)(i := v)\<rparr>"

text \<open>\<open>STORE xi, off(sp)\<close> and \<open>LOAD xi, off(sp)\<close>: \<open>sw\<close> and \<open>lw\<close> on RV32.\<close>

definition STORE :: "nat \<Rightarrow> u32 \<Rightarrow> cpu \<Rightarrow> cpu" where
  "STORE i off c = c\<lparr>mem := store (WrW (xreg c 2 + off) (xreg c i)) (mem c)\<rparr>"

definition LOAD :: "nat \<Rightarrow> u32 \<Rightarrow> cpu \<Rightarrow> cpu" where
  "LOAD i off c = c\<lparr>xreg := (xreg c)(i := word_at (mem c) (xreg c 2 + off))\<rparr>"

definition REGBYTES :: u32 where "REGBYTES = 4"

definition MSTATUS_MPP :: u32 where "MSTATUS_MPP = 0x00001800"

text \<open>The registers a handler saves, with their offsets in its frame.\<close>

definition full_frame :: "(nat \<times> u32) list" where
  "full_frame = map (\<lambda>i. (i, of_nat i * REGBYTES)) [1..<32]"

definition vector_frame :: "(nat \<times> u32) list" where
  "vector_frame = [(1, 0 * REGBYTES), (5, 1 * REGBYTES), (6, 2 * REGBYTES), (7, 3 * REGBYTES),
     (10, 4 * REGBYTES), (11, 5 * REGBYTES), (12, 6 * REGBYTES), (13, 7 * REGBYTES),
     (14, 8 * REGBYTES), (15, 9 * REGBYTES), (16, 10 * REGBYTES), (17, 11 * REGBYTES),
     (28, 12 * REGBYTES), (29, 13 * REGBYTES), (30, 14 * REGBYTES), (31, 15 * REGBYTES)]"

definition save :: "(nat \<times> u32) list \<Rightarrow> cpu \<Rightarrow> cpu" where
  "save = fold (\<lambda>(i, off). STORE i off)"

definition restore :: "(nat \<times> u32) list \<Rightarrow> cpu \<Rightarrow> cpu" where
  "restore = fold (\<lambda>(i, off). LOAD i off)"

section \<open>Trap handlers\<close>

text \<open>
  The state in which \<open>mret\<close> continues at \<open>mepc\<close>. \<open>ret\<close> is the return address that the call
  leaves in \<open>ra\<close>.
\<close>

definition trap_entry :: "(cpu \<Rightarrow> cpu option) \<Rightarrow> u32 \<Rightarrow> cpu \<Rightarrow> cpu option" where
  "trap_entry handle ret c =
     do { let c = addi_sp (- (32 * REGBYTES)) c;
          let c = save full_frame c;
          let c = li 10 (csr_mcause c) c;
          let c = li 11 (csr_mepc c) c;
          let c = li 12 (xreg c 2) c;
          c \<leftarrow> handle (li 1 ret c);
          let c = c\<lparr>csr_mepc := xreg c 10\<rparr>;
          let c = li 5 MSTATUS_MPP c;
          let c = c\<lparr>csr_mstatus := csr_mstatus c OR xreg c 5\<rparr>;
          let c = restore full_frame c;
          Some (addi_sp (32 * REGBYTES) c) }"

definition TRAP_ENTRY :: "cpu \<Rightarrow> cpu" where
  "TRAP_ENTRY c = save vector_frame (addi_sp (- (16 * REGBYTES)) c)"

definition TRAP_EXIT :: "cpu \<Rightarrow> cpu" where
  "TRAP_EXIT c =
     (let c = li 5 MSTATUS_MPP c;
          c = c\<lparr>csr_mstatus := csr_mstatus c OR xreg c 5\<rparr>;
          c = restore vector_frame c
      in addi_sp (16 * REGBYTES) c)"

definition vector_handler :: "(cpu \<Rightarrow> cpu option) \<Rightarrow> u32 \<Rightarrow> cpu \<Rightarrow> cpu option" where
  "vector_handler handle ret c =
     do { let c = TRAP_ENTRY c; c \<leftarrow> handle (li 1 ret c); Some (TRAP_EXIT c) }"

text \<open>
  The vector table: entry \<open>i\<close> is the jump that an interrupt with cause \<open>i\<close> starts at; entry 0 takes
  the synchronous traps.
\<close>

datatype vector = Sync_trap | Reserved | Vmsi_Handler | Vmti_Handler | Vmei_Handler | Vlip_Handler nat

definition vtrap_entry :: "vector list" where
  "vtrap_entry = [Sync_trap, Reserved, Reserved, Vmsi_Handler, Reserved, Reserved, Reserved, Vmti_Handler,
     Reserved, Reserved, Reserved, Vmei_Handler, Reserved, Reserved, Reserved, Reserved,
     Vlip_Handler 0, Vlip_Handler 1, Vlip_Handler 2, Vlip_Handler 3, Vlip_Handler 4, Vlip_Handler 5,
     Vlip_Handler 6, Vlip_Handler 7, Vlip_Handler 8, Vlip_Handler 9, Vlip_Handler 10, Vlip_Handler 11,
     Vlip_Handler 12, Vlip_Handler 13, Vlip_Handler 14, Vlip_Handler 15]"

text \<open>The timer and external vectors are at the causes that \<open>handle_trap\<close> tests for.\<close>

lemma vtrap_entry_causes:
  "vtrap_entry ! unat IRQ_M_TIMER = Vmti_Handler" "vtrap_entry ! unat IRQ_M_EXT = Vmei_Handler"
  "drop 16 vtrap_entry = map Vlip_Handler [0..<16]"
  by code_simp+

section \<open>Calls of C functions\<close>

text \<open>
  The registers a C function gives back unchanged (with \<open>x0\<close>, which is constant): stack pointer,
  global and thread pointer and the saved registers.
\<close>

definition preserved :: "nat \<Rightarrow> bool" where
  "preserved i \<longleftrightarrow> i \<in> {0, 2, 3, 4, 8, 9} \<union> {18..27}"

text \<open>
  How a C function leaves the processor: \<open>regs\<close> in the registers it may change, \<open>m\<close> in
  memory outside the \<open>n\<close> bytes of its caller's frame.
\<close>

definition c_return :: "nat \<Rightarrow> (nat \<Rightarrow> u32) \<Rightarrow> (u32 \<Rightarrow> u8) \<Rightarrow> cpu \<Rightarrow> cpu" where
  "c_return n regs m c = c\<lparr>xreg := (\<lambda>i. if preserved i then xreg c i else regs i),
     mem := (\<lambda>a. if unat (a - xreg c 2) < n then mem c a else m a)\<rparr>"

text \<open>\<open>call handle_trap\<close>: arguments in \<open>a0\<close> and \<open>a1\<close>, result in \<open>a0\<close>.\<close>

definition call_handle_trap ::
  "env \<Rightarrow> bool \<Rightarrow> bool \<Rightarrow> (machine \<Rightarrow> machine option) \<Rightarrow> (machine \<Rightarrow> machine option)
     \<Rightarrow> (nat \<Rightarrow> u32) \<Rightarrow> (u32 \<Rightarrow> u8) \<Rightarrow> cpu \<Rightarrow> cpu option" where
  "call_handle_trap E use_plic use_m_time ext tim regs m c =
     (case handle_trap E use_plic use_m_time ext tim (xreg c 10) (xreg c 11) (hw c) of
        Some (Resumes epc s) \<Rightarrow> Some (li 10 epc ((c_return 128 regs m c)\<lparr>hw := s\<rparr>))
      | _ \<Rightarrow> None)"

text \<open>A call of an interrupt handler of the application, which has no arguments.\<close>

definition call_handler ::
  "(machine \<Rightarrow> machine option) \<Rightarrow> (nat \<Rightarrow> u32) \<Rightarrow> (u32 \<Rightarrow> u8) \<Rightarrow> cpu \<Rightarrow> cpu option" where
  "call_handler f regs m c = map_option (\<lambda>s. (c_return 128 regs m c)\<lparr>hw := s\<rparr>) (f (hw c))"

section \<open>Frames\<close>

text \<open>A frame in which no two slots overlap.\<close>

definition good_frame :: "(nat \<times> u32) list \<Rightarrow> bool" where
  "good_frame fr \<longleftrightarrow> sorted_wrt (\<lambda>(_, o1) (_, o2). apart o1 o2) fr \<and> distinct (map fst fr)"

lemma apart_offset: "apart (a + o1) (a + o2) \<longleftrightarrow> apart o1 o2"
  by (simp add: apart_def)

lemma apart_sym: "apart a b \<longleftrightarrow> apart b a"
  by (auto simp: apart_def)

lemma save_regs [simp]: "xreg (save fr c) = xreg c" "csr_mcause (save fr c) = csr_mcause c"
  "csr_mepc (save fr c) = csr_mepc c" "csr_mstatus (save fr c) = csr_mstatus c" "hw (save fr c) = hw c"
  by (induction fr arbitrary: c) (auto simp: save_def STORE_def)

lemma save_Cons: "save ((i, off) # fr) c = save fr (STORE i off c)"
  by (simp add: save_def)

lemma save_keeps:
  assumes "\<And>i o2. (i, o2) \<in> set fr \<Longrightarrow> apart off o2"
  shows "word_at (mem (save fr c)) (xreg c 2 + off) = word_at (mem c) (xreg c 2 + off)"
  using assms
proof (induction fr arbitrary: c)
  case (Cons p fr)
  obtain i o2 where p: "p = (i, o2)" by fastforce
  have "apart (xreg c 2 + off) (xreg c 2 + o2)" using Cons.prems[of i o2] p by (simp add: apart_offset)
  then have "word_at (mem (STORE i o2 c)) (xreg c 2 + off) = word_at (mem c) (xreg c 2 + off)"
    by (simp add: STORE_def word_at_store_apart del: store.simps)
  moreover have "xreg (STORE i o2 c) = xreg c" by (simp add: STORE_def)
  moreover have "apart off o3" if "(k, o3) \<in> set fr" for k o3 using Cons.prems[of k o3] that by simp
  ultimately show ?case using Cons.IH[of "STORE i o2 c"] by (simp add: p save_Cons)
qed (simp add: save_def)

lemma saved_word:
  assumes "good_frame fr" "(i, off) \<in> set fr"
  shows "word_at (mem (save fr c)) (xreg c 2 + off) = xreg c i"
  using assms
proof (induction fr arbitrary: c)
  case (Cons p fr)
  obtain j o2 where p: "p = (j, o2)" by fastforce
  have r: "xreg (STORE j o2 c) = xreg c" by (simp add: STORE_def)
  show ?case
  proof (cases "(i, off) = (j, o2)")
    case True
    have "apart off o3" if "(k, o3) \<in> set fr" for k o3
      using Cons.prems(1) that True by (auto simp: good_frame_def p)
    then have "word_at (mem (save fr (STORE j o2 c))) (xreg c 2 + off) = word_at (mem (STORE j o2 c)) (xreg c 2 + off)"
      using save_keeps[of fr off "STORE j o2 c"] by (simp add: r)
    with True show ?thesis by (simp add: p save_Cons) (simp add: STORE_def del: store.simps)
  next
    case False
    with Cons.prems Cons.IH[of "STORE j o2 c"] show ?thesis by (auto simp: p save_Cons r good_frame_def)
  qed
qed simp

text \<open>Loading a frame whose slots hold the values \<open>v\<close>; the slot of \<open>sp\<close>, if any, holds \<open>sp\<close> itself.\<close>

lemma restore_frame:
  assumes "\<And>i off. (i, off) \<in> set fr \<Longrightarrow> word_at (mem c) (xreg c 2 + off) = v i"
    and "2 \<in> fst ` set fr \<Longrightarrow> v 2 = xreg c 2"
  shows "restore fr c = c\<lparr>xreg := (\<lambda>i. if i \<in> fst ` set fr then v i else xreg c i)\<rparr>"
  using assms
proof (induction fr arbitrary: c)
  case (Cons p fr)
  obtain j o2 where p: "p = (j, o2)" by fastforce
  let ?d = "LOAD j o2 c"
  have d: "?d = c\<lparr>xreg := (xreg c)(j := v j)\<rparr>" using Cons.prems(1)[of j o2] by (simp add: LOAD_def p)
  have sp: "xreg ?d 2 = xreg c 2" using Cons.prems(2) by (simp add: d p image_iff)
  have "restore fr ?d = ?d\<lparr>xreg := (\<lambda>i. if i \<in> fst ` set fr then v i else xreg ?d i)\<rparr>"
  proof (rule Cons.IH)
    show "word_at (mem ?d) (xreg ?d 2 + off) = v i" if "(i, off) \<in> set fr" for i off
      using Cons.prems(1)[of i off] that by (simp add: sp) (simp add: d)
    show "v 2 = xreg ?d 2" if "2 \<in> fst ` set fr" using Cons.prems(2) that by (auto simp: sp)
  qed
  then show ?case by (simp add: restore_def p) (auto simp: d fun_eq_iff)
qed (simp add: restore_def)

lemma full_frame_good: "good_frame full_frame"
  by (simp add: good_frame_def full_frame_def REGBYTES_def apart_def upt_rec_numeral upt_conv_Cons)

lemma vector_frame_good: "good_frame vector_frame"
  by (simp add: good_frame_def vector_frame_def REGBYTES_def apart_def)

lemma full_frame_regs: "fst ` set full_frame = {1..<32}"
  by (auto simp: full_frame_def image_iff)

lemma full_frame_fits: "(i, off) \<in> set full_frame \<Longrightarrow> unat off + 4 \<le> 128"
  by (auto simp: full_frame_def REGBYTES_def unat_word_ariths unat_of_nat)

lemma vector_frame_fits: "(i, off) \<in> set vector_frame \<Longrightarrow> unat off + 4 \<le> 128"
  by (auto simp: vector_frame_def REGBYTES_def)

lemma vector_frame_regs: "fst ` set vector_frame = {1, 5, 6, 7} \<union> {10..17} \<union> {28..31}"
  by (auto simp: vector_frame_def)

lemma handle_trap_resumes: "handle_trap E p t ext tim mcause epc s = Some (Resumes epc' s') \<Longrightarrow> epc' = epc"
  by (auto simp: handle_trap_def split: if_splits elim!: bind_eq_SomeE)

section \<open>The calling convention\<close>

locale c_function =
  fixes call :: "cpu \<Rightarrow> cpu option"
  assumes keeps_registers: "call c = Some d \<Longrightarrow> preserved i \<Longrightarrow> xreg d i = xreg c i"
    and keeps_frame: "call c = Some d \<Longrightarrow> unat (a - xreg c 2) < 128 \<Longrightarrow> mem d a = mem c a"
    and keeps_csrs: "call c = Some d \<Longrightarrow> csr_mepc d = csr_mepc c \<and> csr_mstatus d = csr_mstatus c"
begin

lemma keeps_sp: "call c = Some d \<Longrightarrow> xreg d 2 = xreg c 2"
  by (erule keeps_registers) (simp add: preserved_def)

lemma keeps_words:
  assumes "call c = Some d" "unat off + 4 \<le> 128"
  shows "word_at (mem d) (xreg c 2 + off) = word_at (mem c) (xreg c 2 + off)"
proof -
  have "mem d (xreg c 2 + off + of_nat k) = mem c (xreg c 2 + off + of_nat k)" if "k < 4" for k
  proof (rule keeps_frame[OF assms(1)])
    have "unat (off + of_nat k) = unat off + k"
      using assms(2) that by (subst unat_plus_no_wrap) (simp_all add: unat_of_nat)
    then show "unat (xreg c 2 + off + of_nat k - xreg c 2) < 128" using assms(2) that by (simp add: add.assoc)
  qed
  from this[of 0] this[of 1] this[of 2] this[of 3] show ?thesis by (simp add: word_at_def)
qed

text \<open>
  A frame saved before the call is restored after it, even if other registers than \<open>sp\<close> have been
  set in between.
\<close>

lemma call_then_restore:
  assumes "good_frame fr" "\<And>i off. (i, off) \<in> set fr \<Longrightarrow> unat off + 4 \<le> 128"
    and "mem c1 = mem (save fr c0)" "xreg c1 2 = xreg c0 2" "call c1 = Some d"
    and "mem e = mem d" "xreg e 2 = xreg d 2"
  shows "restore fr e = e\<lparr>xreg := (\<lambda>i. if i \<in> fst ` set fr then xreg c0 i else xreg e i)\<rparr>"
proof (rule restore_frame)
  fix i off assume i: "(i, off) \<in> set fr"
  have "word_at (mem e) (xreg e 2 + off) = word_at (mem c1) (xreg c1 2 + off)"
    using keeps_words[OF assms(5) assms(2)[OF i]] keeps_sp[OF assms(5)] by (simp add: assms(6,7))
  then show "word_at (mem e) (xreg e 2 + off) = xreg c0 i"
    using saved_word[OF assms(1) i, of c0] by (simp add: assms(3,4))
qed (use keeps_sp[OF assms(5)] assms(4,7) in simp)

end

interpretation trap_call: c_function "call_handle_trap E use_plic use_m_time ext tim regs m"
  for E use_plic use_m_time ext tim regs m
  by unfold_locales
    (auto simp: call_handle_trap_def c_return_def li_def preserved_def split: option.splits outcome.splits)

interpretation handler_call: c_function "call_handler f regs m" for f regs m
  by unfold_locales (auto simp: call_handler_def c_return_def)

section \<open>Traps are transparent\<close>

text \<open>
  C31. A trap that \<open>handle_trap\<close> serves is invisible to the interrupted program: \<open>trap_entry\<close>
  comes back with every integer register as it was, continues at the interrupted instruction, and
  has changed the hardware exactly as the handler did, whatever the C code left in
  the registers it may use and in memory outside the frame.
\<close>

theorem trap_entry_transparent:
  assumes "handle_trap E p t ext tim (csr_mcause c) (csr_mepc c) (hw c) = Some (Resumes epc s)"
  shows "\<exists>d. trap_entry (call_handle_trap E p t ext tim regs m) ret c = Some d
    \<and> (\<forall>i\<in>{0..<32}. xreg d i = xreg c i) \<and> csr_mepc d = csr_mepc c \<and> hw d = s
    \<and> csr_mstatus d = csr_mstatus c OR MSTATUS_MPP"
proof -
  let ?c0 = "addi_sp (- (32 * REGBYTES)) c"
  let ?c1 = "li 1 ret (li 12 (xreg c 2 - 128) (li 11 (csr_mepc c) (li 10 (csr_mcause c) (save full_frame ?c0))))"
  let ?d = "li 10 epc ((c_return 128 regs m ?c1)\<lparr>hw := s\<rparr>)"
  let ?e = "li 5 MSTATUS_MPP (?d\<lparr>csr_mepc := epc\<rparr>)\<lparr>csr_mstatus := csr_mstatus c OR MSTATUS_MPP\<rparr>"
  have call: "call_handle_trap E p t ext tim regs m ?c1 = Some ?d"
    using assms by (simp add: call_handle_trap_def li_def addi_sp_def)
  have "restore full_frame ?e = ?e\<lparr>xreg := (\<lambda>i. if i \<in> fst ` set full_frame then xreg ?c0 i else xreg ?e i)\<rparr>"
    by (rule trap_call.call_then_restore[OF full_frame_good full_frame_fits _ _ call])
      (simp_all add: li_def addi_sp_def)
  moreover have "trap_entry (call_handle_trap E p t ext tim regs m) ret c
      = Some (addi_sp (32 * REGBYTES) (restore full_frame ?e))"
    using call by (simp add: trap_entry_def Let_def li_def addi_sp_def c_return_def REGBYTES_def)
  ultimately show ?thesis
    using handle_trap_resumes[OF assms]
    by (simp add: full_frame_regs) (auto simp: addi_sp_def li_def c_return_def preserved_def)
qed

definition sample_cpu :: cpu where
  "sample_cpu = \<lparr>xreg = (\<lambda>i. if i = 2 then 0x80004000 else of_nat i), mem = (\<lambda>a. 0), csr_mcause = 0x8000000B,
     csr_mepc = 0x20400100, csr_mstatus = 0x8, hw = sample_machine\<rparr>"

theorem trap_entry_transparent_witness:
  "\<exists>d. trap_entry (call_handle_trap board_env True False Some Some (\<lambda>i. 0) (\<lambda>a. 0)) 0x20400200 sample_cpu = Some d
    \<and> (\<forall>i\<in>{0..<32}. xreg d i = xreg sample_cpu i) \<and> csr_mepc d = 0x20400100"
proof -
  have "handle_trap board_env True False Some Some (csr_mcause sample_cpu) (csr_mepc sample_cpu) (hw sample_cpu)
      = Some (Resumes 0x20400100 sample_machine)"
    by (simp add: handle_trap_def sample_cpu_def reg_simps)
  from trap_entry_transparent[OF this, of "\<lambda>i. 0" "\<lambda>a. 0" "0x20400200"] show ?thesis
    by (auto simp: sample_cpu_def)
qed

text \<open>
  The vectored handlers save the registers a C function may change and no others; they are as
  transparent as the full trap entry: every register is as it was, \<open>mepc\<close> is untouched and the
  hardware has seen what the handler of the application did.
\<close>

theorem vector_handler_transparent:
  assumes "f (hw c) = Some s"
  shows "\<exists>d. vector_handler (call_handler f regs m) ret c = Some d
    \<and> (\<forall>i\<in>{0..<32}. xreg d i = xreg c i) \<and> csr_mepc d = csr_mepc c \<and> hw d = s
    \<and> csr_mstatus d = csr_mstatus c OR MSTATUS_MPP"
proof -
  let ?c0 = "addi_sp (- (16 * REGBYTES)) c"
  let ?c1 = "li 1 ret (save vector_frame ?c0)"
  let ?d = "(c_return 128 regs m ?c1)\<lparr>hw := s\<rparr>"
  let ?e = "li 5 MSTATUS_MPP ?d\<lparr>csr_mstatus := csr_mstatus c OR MSTATUS_MPP\<rparr>"
  have call: "call_handler f regs m ?c1 = Some ?d"
    using assms by (simp add: call_handler_def li_def addi_sp_def)
  have "restore vector_frame ?e = ?e\<lparr>xreg := (\<lambda>i. if i \<in> fst ` set vector_frame then xreg ?c0 i else xreg ?e i)\<rparr>"
    by (rule handler_call.call_then_restore[OF vector_frame_good vector_frame_fits _ _ call])
      (simp_all add: li_def addi_sp_def)
  moreover have "vector_handler (call_handler f regs m) ret c
      = Some (addi_sp (16 * REGBYTES) (restore vector_frame ?e))"
    using call by (simp add: vector_handler_def TRAP_ENTRY_def TRAP_EXIT_def Let_def li_def addi_sp_def c_return_def REGBYTES_def)
  moreover have "i \<in> fst ` set vector_frame \<or> preserved i" if "i < 32" for i
    using that by (auto simp: vector_frame_regs preserved_def)
  ultimately show ?thesis
    by (simp add: vector_frame_regs) (auto simp: addi_sp_def li_def c_return_def preserved_def)
qed

theorem vector_handler_transparent_witness:
  "\<exists>d. vector_handler (call_handler Some (\<lambda>i. 0) (\<lambda>a. 0)) 0x20400200 sample_cpu = Some d
    \<and> (\<forall>i\<in>{0..<32}. xreg d i = xreg sample_cpu i)"
  using vector_handler_transparent[of Some sample_cpu sample_machine "\<lambda>i. 0" "\<lambda>a. 0" "0x20400200"]
  by (auto simp: sample_cpu_def)

section \<open>Memory set-up\<close>

text \<open>
  The two loops of \<open>_start\<close>, tested at the end as in the code and guarded by one test before them.
\<close>

partial_function (option) copy_loop :: "u32 \<Rightarrow> u32 \<Rightarrow> u32 \<Rightarrow> (u32 \<Rightarrow> u8) \<Rightarrow> (u32 \<Rightarrow> u8) option" where
  "copy_loop a0 a1 a2 m =
     (let t0 = word_at m a0; m = store (WrW a1 t0) m; a0 = a0 + 4; a1 = a1 + 4
      in if a1 < a2 then copy_loop a0 a1 a2 m else Some m)"

partial_function (option) clear_loop :: "u32 \<Rightarrow> u32 \<Rightarrow> (u32 \<Rightarrow> u8) \<Rightarrow> (u32 \<Rightarrow> u8) option" where
  "clear_loop a0 a1 m =
     (let m = store (WrW a0 0) m; a0 = a0 + 4 in if a0 < a1 then clear_loop a0 a1 m else Some m)"

definition start_memory :: "u32 \<Rightarrow> u32 \<Rightarrow> u32 \<Rightarrow> u32 \<Rightarrow> u32 \<Rightarrow> (u32 \<Rightarrow> u8) \<Rightarrow> (u32 \<Rightarrow> u8) option" where
  "start_memory data_lma data edata bss_start bss_end m =
     do { m \<leftarrow> (if edata \<le> data then Some m else copy_loop data_lma data edata m);
          if bss_end \<le> bss_start then Some m else clear_loop bss_start bss_end m }"

text \<open>The contents after copying \<open>n\<close> bytes, and after clearing them.\<close>

definition copied :: "u32 \<Rightarrow> u32 \<Rightarrow> nat \<Rightarrow> (u32 \<Rightarrow> u8) \<Rightarrow> (u32 \<Rightarrow> u8)" where
  "copied src dst n m = (\<lambda>a. if unat (a - dst) < n then m (src + (a - dst)) else m a)"

definition cleared :: "u32 \<Rightarrow> nat \<Rightarrow> (u32 \<Rightarrow> u8) \<Rightarrow> (u32 \<Rightarrow> u8)" where
  "cleared dst n m = (\<lambda>a. if unat (a - dst) < n then 0 else m a)"

text \<open>No byte of \<open>n\<close> bytes at \<open>src\<close> is one of \<open>n\<close> bytes at \<open>dst\<close>.\<close>

definition regions_apart :: "u32 \<Rightarrow> u32 \<Rightarrow> nat \<Rightarrow> bool" where
  "regions_apart src dst n \<longleftrightarrow> (\<forall>k<n. n \<le> unat (src + of_nat k - dst))"

lemma of_nat_unat_id: "of_nat (unat (w :: u32)) = w"
  by simp

lemma unat_less_4: "unat (d :: u32) < 4 \<longleftrightarrow> d = 0 \<or> d = 1 \<or> d = 2 \<or> d = 3"
proof
  assume "unat d < 4"
  then have "unat d = 0 \<or> unat d = 1 \<or> unat d = 2 \<or> unat d = 3" by linarith
  then have "d = of_nat 0 \<or> d = of_nat 1 \<or> d = of_nat 2 \<or> d = of_nat 3" by (metis of_nat_unat_id)
  then show "d = 0 \<or> d = 1 \<or> d = 2 \<or> d = 3" by simp
qed auto

lemma byte_of_word_of:
  "byte_of 0 (word_of b0 b1 b2 b3) = b0" "byte_of (Suc 0) (word_of b0 b1 b2 b3) = b1"
  "byte_of 2 (word_of b0 b1 b2 b3) = b2" "byte_of 3 (word_of b0 b1 b2 b3) = b3"
  by (auto intro!: bit_word_eqI simp: bit_byte_of bit_word_of)

lemma store_copied_word: "store (WrW a (word_at m s)) m = copied s a 4 m"
proof
  fix x
  have "x = a \<longleftrightarrow> x - a = 0" "x = a + 1 \<longleftrightarrow> x - a = 1" "x = a + 2 \<longleftrightarrow> x - a = 2" "x = a + 3 \<longleftrightarrow> x - a = 3"
    by (auto simp: algebra_simps)
  then show "store (WrW a (word_at m s)) m x = copied s a 4 m x"
    by (auto simp: copied_def unat_less_4 word_at_def byte_of_word_of)
qed

lemma store_cleared_word: "store (WrW a 0) m = cleared a 4 m"
proof
  fix x
  have "x = a \<longleftrightarrow> x - a = 0" "x = a + 1 \<longleftrightarrow> x - a = 1" "x = a + 2 \<longleftrightarrow> x - a = 2" "x = a + 3 \<longleftrightarrow> x - a = 3"
    by (auto simp: algebra_simps)
  then show "store (WrW a 0) m x = cleared a 4 m x"
    by (auto simp: cleared_def unat_less_4 byte_of_def)
qed

text \<open>One more word in front.\<close>

lemma offset_next: "x - (dst + 4) = (x - dst) - (4 :: u32)"
  by (simp add: algebra_simps)

lemma unat_next:
  "unat (d - 4 :: u32) = (if unat d < 4 then unat d + 2 ^ 32 - 4 else unat d - 4)"
  by (simp add: unat_sub_if_size word_size)

lemma copied_next:
  assumes "regions_apart src dst (n + 4)" "n + 4 \<le> 2 ^ 32"
  shows "copied (src + 4) (dst + 4) n (copied src dst 4 m) = copied src dst (n + 4) m"
proof
  fix x
  let ?d = "x - dst"
  have far: "4 \<le> unat (src + ?d - dst)" if "unat ?d < n + 4"
    using assms(1) that unfolding regions_apart_def by (metis add_leD2 of_nat_unat_id)
  have "src + 4 + (x - (dst + 4)) = src + ?d" by (simp add: algebra_simps)
  with far show "copied (src + 4) (dst + 4) n (copied src dst 4 m) x = copied src dst (n + 4) m x"
    using assms(2) by (auto simp: copied_def offset_next unat_next split: if_splits)
qed

lemma cleared_next:
  assumes "n + 4 \<le> 2 ^ 32"
  shows "cleared (dst + 4) n (cleared dst 4 m) = cleared dst (n + 4) m"
  using assms by (auto simp: cleared_def fun_eq_iff offset_next unat_next)

lemma regions_apart_next:
  assumes "regions_apart src dst (n + 4)"
  shows "regions_apart (src + 4) (dst + 4) n"
  unfolding regions_apart_def
proof (intro allI impI)
  fix k assume "k < n"
  have "src + 4 + of_nat k - (dst + 4) = src + of_nat k - dst" by (simp add: algebra_simps)
  with assms \<open>k < n\<close> show "n \<le> unat (src + 4 + of_nat k - (dst + 4))"
    unfolding regions_apart_def by (metis add_leD1 trans_less_add1)
qed

lemma loop_bound:
  assumes "unat (a :: u32) + 4 * Suc (Suc n) < 2 ^ 32"
  shows "a + 4 < a + of_nat (4 * Suc (Suc n))" "unat (a + 4) = unat a + 4"
proof -
  have "unat (a + of_nat (4 * Suc (Suc n))) = unat a + 4 * Suc (Suc n)"
    using assms by (subst unat_plus_no_wrap) (simp_all add: unat_of_nat del: of_nat_Suc of_nat_mult of_nat_add)
  moreover show "unat (a + 4) = unat a + 4" using assms by (subst unat_plus_no_wrap) simp_all
  ultimately show "a + 4 < a + of_nat (4 * Suc (Suc n))" unfolding word_less_nat_alt by simp
qed

lemma copy_loop_copies:
  assumes "unat dst + 4 * Suc n < 2 ^ 32" "regions_apart src dst (4 * Suc n)"
  shows "copy_loop src dst (dst + of_nat (4 * Suc n)) m = Some (copied src dst (4 * Suc n) m)"
  using assms
proof (induction n arbitrary: src dst m)
  case 0
  then show ?case by (subst copy_loop.simps) (simp add: Let_def store_copied_word del: store.simps)
next
  case (Suc n)
  note b = loop_bound[OF Suc.prems(1)]
  have e: "dst + of_nat (4 * Suc (Suc n)) = dst + 4 + of_nat (4 * Suc n)" by simp
  have "copy_loop (src + 4) (dst + 4) (dst + 4 + of_nat (4 * Suc n)) (copied src dst 4 m)
      = Some (copied (src + 4) (dst + 4) (4 * Suc n) (copied src dst 4 m))"
    using Suc.prems b(2) by (intro Suc.IH) (simp_all add: regions_apart_next)
  also have "copied (src + 4) (dst + 4) (4 * Suc n) (copied src dst 4 m) = copied src dst (4 * Suc (Suc n)) m"
    using copied_next[of src dst "4 * Suc n" m] Suc.prems by simp
  finally show ?case
    by (subst copy_loop.simps) (simp only: Let_def store_copied_word e b(1)[unfolded e] if_True)
qed

lemma clear_loop_clears:
  assumes "unat dst + 4 * Suc n < 2 ^ 32"
  shows "clear_loop dst (dst + of_nat (4 * Suc n)) m = Some (cleared dst (4 * Suc n) m)"
  using assms
proof (induction n arbitrary: dst m)
  case 0
  then show ?case by (subst clear_loop.simps) (simp add: Let_def store_cleared_word del: store.simps)
next
  case (Suc n)
  note b = loop_bound[OF Suc.prems]
  have e: "dst + of_nat (4 * Suc (Suc n)) = dst + 4 + of_nat (4 * Suc n)" by simp
  have "clear_loop (dst + 4) (dst + 4 + of_nat (4 * Suc n)) (cleared dst 4 m)
      = Some (cleared (dst + 4) (4 * Suc n) (cleared dst 4 m))"
    using Suc.prems b(2) by (intro Suc.IH) simp
  also have "cleared (dst + 4) (4 * Suc n) (cleared dst 4 m) = cleared dst (4 * Suc (Suc n)) m"
    using cleared_next[of "4 * Suc n" dst m] Suc.prems by simp
  finally show ?case
    by (subst clear_loop.simps) (simp only: Let_def store_cleared_word e b(1)[unfolded e] if_True)
qed

lemma copied_0 [simp]: "copied src dst 0 m = m" and cleared_0 [simp]: "cleared dst 0 m = m"
  by (simp_all add: copied_def cleared_def)

lemma end_after_start:
  assumes "unat (a :: u32) + 4 * n < 2 ^ 32"
  shows "a + of_nat (4 * n) \<le> a \<longleftrightarrow> n = 0"
proof -
  have "unat (a + of_nat (4 * n)) = unat a + 4 * n"
    using assms by (subst unat_plus_no_wrap) (simp_all add: unat_of_nat del: of_nat_mult)
  then show ?thesis by (simp add: word_le_nat_alt)
qed

lemma start_memory_run:
  assumes "unat data + 4 * n < 2 ^ 32" "unat bss + 4 * k < 2 ^ 32" "regions_apart lma data (4 * n)"
  shows "start_memory lma data (data + of_nat (4 * n)) bss (bss + of_nat (4 * k)) m
    = Some (cleared bss (4 * k) (copied lma data (4 * n) m))"
proof -
  have "(if data + of_nat (4 * n) \<le> data then Some m else copy_loop lma data (data + of_nat (4 * n)) m)
      = Some (copied lma data (4 * n) m)"
    using copy_loop_copies[of data "n - 1" lma m] assms(1,3) by (cases n) (simp_all only: end_after_start, simp_all)
  moreover have "(if bss + of_nat (4 * k) \<le> bss then Some m' else clear_loop bss (bss + of_nat (4 * k)) m')
      = Some (cleared bss (4 * k) m')" for m'
    using clear_loop_clears[of bss "k - 1" m'] assms(2) by (cases k) (simp_all only: end_after_start, simp_all)
  ultimately show ?thesis by (simp only: start_memory_def Option.bind.simps)
qed

text \<open>
  \<open>_start\<close> sets up memory before any C code runs: for word-aligned section sizes and a load
  image that does not overlap \<open>.data\<close>, both loops end, every byte of \<open>.data\<close> is the byte of the load
  image, every byte of \<open>.bss\<close> is zero, and no other byte has changed.
\<close>

theorem start_initialises_memory:
  assumes "unat data + 4 * n \<le> unat bss" "unat bss + 4 * k < 2 ^ 32" "regions_apart lma data (4 * n)"
  shows "\<exists>m'. start_memory lma data (data + of_nat (4 * n)) bss (bss + of_nat (4 * k)) m = Some m'
    \<and> (\<forall>i<4 * n. m' (data + of_nat i) = m (lma + of_nat i)) \<and> (\<forall>i<4 * k. m' (bss + of_nat i) = 0)
    \<and> (\<forall>a. 4 * n \<le> unat (a - data) \<and> 4 * k \<le> unat (a - bss) \<longrightarrow> m' a = m a)"
proof -
  let ?m = "cleared bss (4 * k) (copied lma data (4 * n) m)"
  have "?m (data + of_nat i) = m (lma + of_nat i)" if "i < 4 * n" for i
  proof -
    have u: "unat (data + of_nat i) = unat data + i"
      using assms(1,2) that by (subst unat_plus_no_wrap) (simp_all add: unat_of_nat)
    then have "data + of_nat i < bss" using assms(1) that by (simp add: word_less_nat_alt)
    then have "unat (data + of_nat i - bss) = unat data + i + 2 ^ 32 - unat bss"
      using u by (simp add: unat_sub_if_size word_size word_less_nat_alt)
    then have "4 * k \<le> unat (data + of_nat i - bss)" using assms(2) by simp
    moreover have "unat (of_nat i :: u32) = i" using that assms(1,2) by (simp add: unat_of_nat)
    ultimately show ?thesis using that by (simp add: cleared_def copied_def)
  qed
  moreover have "?m (bss + of_nat i) = 0" if "i < 4 * k" for i
    using that assms(2) by (simp add: cleared_def unat_of_nat)
  moreover have "?m a = m a" if "4 * n \<le> unat (a - data)" "4 * k \<le> unat (a - bss)" for a
    using that by (simp add: cleared_def copied_def)
  ultimately show ?thesis using start_memory_run[of data n bss k lma m] assms by auto
qed

theorem start_initialises_memory_witness:
  "\<exists>m'. start_memory 0x20402000 0x80000000 0x80000010 0x80000010 0x80000020 (\<lambda>a. ucast a) = Some m'
    \<and> m' 0x80000005 = 5 \<and> m' 0x80000012 = 0 \<and> m' 0x80000021 = 0x21"
proof -
  have "regions_apart 0x20402000 0x80000000 (4 * 4)"
    unfolding regions_apart_def
  proof (intro allI impI)
    fix k :: nat assume "k < 4 * 4"
    then have "unat (0xA0402000 + of_nat k :: u32) = 0xA0402000 + k"
      by (subst unat_plus_no_wrap) (simp_all add: unat_of_nat)
    moreover have "0x20402000 + of_nat k - 0x80000000 = (0xA0402000 + of_nat k :: u32)"
      unfolding diff_add_eq[symmetric] by simp
    ultimately have "unat (0x20402000 + of_nat k - 0x80000000 :: u32) = 0xA0402000 + k" by (simp only:)
    then show "4 * 4 \<le> unat (0x20402000 + of_nat k - 0x80000000 :: u32)" by linarith
  qed
  from start_initialises_memory[of "0x80000000" 4 "0x80000010" 4, OF _ _ this, of "\<lambda>a. ucast a"]
  obtain m' where m: "start_memory 0x20402000 0x80000000 0x80000010 0x80000010 0x80000020 (\<lambda>a. ucast a) = Some m'"
    "\<forall>i<16. m' (0x80000000 + of_nat i) = ucast (0x20402000 + of_nat i :: u32)"
    "\<forall>i<16. m' (0x80000010 + of_nat i) = 0"
    "\<forall>a. 16 \<le> unat (a - 0x80000000) \<and> 16 \<le> unat (a - 0x80000010) \<longrightarrow> m' a = ucast a"
    by auto
  show ?thesis
    using m(1) m(2)[rule_format, of 5] m(3)[rule_format, of 2] m(4)[rule_format, of "0x80000021"] by auto
qed

end
