(* ===== verification/Header_Values.thy ===== *)
theory Header_Values
  imports Csrs Register_Fields Entry Board
begin

unbundle bit_operations_syntax

text \<open>
  The remaining constants of the device headers: the layout of the interrupt controller registers
  (\<open>plic.h\<close>), interrupt numbers (\<open>clic.h\<close>), and the values that fields of the clock, SPI, UART and
  always-on registers take. The firmware uses few of them; they have to fit the fields and agree across headers.
\<close>

section \<open>Constants of plic.h and clic.h\<close>

definition PLIC_PENDING_OFFSET :: u32 where "PLIC_PENDING_OFFSET = 0x1000"

definition PLIC_PENDING_SHIFT_PER_SOURCE :: nat where "PLIC_PENDING_SHIFT_PER_SOURCE = 0"

definition PLIC_SOURCE_MASK :: u32 where "PLIC_SOURCE_MASK = 0x3FF"

definition PLIC_TARGET_MASK :: u32 where "PLIC_TARGET_MASK = 0x3FFF"

definition CLIC_HART0 :: u32 where "CLIC_HART0 = 0x00800000"

definition clic_timer_registers :: "(u32 \<times> int) list" where
  "clic_timer_registers = [(0x0000, 0x4), (0x4000, 0x8), (0xBFF8, 0x8)]"

definition clic_irq_ids :: "(string \<times> nat) list" where
  "clic_irq_ids = [(''S_SOFT'', 1), (''M_SOFT'', 3), (''S_TIMER'', 5), (''M_TIMER'', 7), (''S_EXT'', 9),
     (''M_EXT'', 11), (''COP'', 12)]"

definition LOCALINTIDBASE :: nat where "LOCALINTIDBASE = 16"

section \<open>Values of fields\<close>

text \<open>Each field with the values the header names for it.\<close>

definition pll_values :: "(field \<times> u32 list) list" where
  "pll_values = [(pllcfg_fields ! 0, [0x1]), (pllcfg_fields ! 1, [0x1F]), (pllcfg_fields ! 2, [0x3]),
     (pllcfg_fields ! 4, [0x0, 0x1]), (pllcfg_fields ! 3, [0x0, 0x1])]"

definition procmon_inputs :: "field \<times> u32 list" where
  "procmon_inputs = (procmoncfg_fields ! 3, [0, 1, 2, 3])"

definition spi_fmt_values :: "(field \<times> u32 list) list" where
  "spi_fmt_values = [(spi_fmt_fields ! 2, [0, 1]), (spi_fmt_fields ! 0, [0, 1, 2]), (spi_fmt_fields ! 1, [0, 1])]"

definition SPI_TXWM :: "u32 \<Rightarrow> u32" where "SPI_TXWM x = x AND 0xffff"

definition SPI_RXWM :: "u32 \<Rightarrow> u32" where "SPI_RXWM x = x AND 0xffff"

definition spi_sckmode_bits :: "u32 list" where "spi_sckmode_bits = [0x1, 0x2]"

definition spi_ip_bits :: "u32 list" where "spi_ip_bits = [0x1, 0x2]"

definition spi_csmodes :: "u32 list" where "spi_csmodes = [0, 2, 3]"

definition SPI_TXFIFO_FULL :: u32 where "SPI_TXFIFO_FULL = push_bit 31 1"

definition SPI_RXFIFO_EMPTY :: u32 where "SPI_RXFIFO_EMPTY = push_bit 31 1"

definition uart_ip_bits :: "u32 list" where "uart_ip_bits = [0x1, 0x2]"

definition wakeup_causes :: "u32 list" where "wakeup_causes = [0x00, 0x01, 0x02, 0x03]"

definition reset_causes :: "u32 list" where "reset_causes = [0x0000, 0x0100, 0x0200]"

section \<open>Agreement\<close>

text \<open>
  Every named value fits the field it is for and reads back from it; the flags of a register are distinct
  bits; wake-up and reset causes lie in the two fields of the cause register.
\<close>

lemma field_values_fit:
  "list_all (\<lambda>(f, vs). list_all (\<lambda>v. EXTRACT_FIELD (put f v) (which f) = Some v) vs)
     (pll_values @ procmon_inputs # spi_fmt_values)
   \<and> list_all exclusive [spi_sckmode_bits, spi_ip_bits, uart_ip_bits]
   \<and> list_all (\<lambda>v. v AND 3 = v) spi_csmodes
   \<and> list_all (\<lambda>v. v AND pmucause_masks ! 0 = v) wakeup_causes \<and> list_all (\<lambda>v. v AND pmucause_masks ! 1 = v) reset_causes"
  by (intro conjI) code_simp+

text \<open>
  The interrupt numbers of \<open>clic.h\<close> are those of \<open>encoding.h\<close>, its timer registers those of
  \<open>clint.h\<close>, and the first local interrupt is the first local entry of the vector table. An interrupt
  controller identifier is a source or a target number within its mask.
\<close>

lemma clic_ids_agree:
  "list_all (\<lambda>(n, k). map_of irq_numbers n = Some k) clic_irq_ids
   \<and> map fst clic_timer_registers = clint_registers \<and> map snd clic_timer_registers = clint_sizes
   \<and> vtrap_entry ! LOCALINTIDBASE = Vlip_Handler 0 \<and> PLIC_MAX_SOURCE \<le> PLIC_SOURCE_MASK \<and> PLIC_MAX_TARGET \<le> PLIC_TARGET_MASK"
  by (intro conjI) code_simp+

text \<open>
  The registers of the interrupt controller do not collide. For all sources and harts up to the
  declared maxima, the driver's addresses do not wrap; priorities, pending bits, enable bytes and hart registers
  lie in this order, without overlap; sources have their own priority register, two sources share an
  enable byte only in groups of eight of the same hart, and each hart has its own threshold and claim register.
\<close>

theorem plic_registers_apart:
  assumes "base_addr p = PLIC_CTRL_ADDR" "h \<le> PLIC_MAX_TARGET" "i \<le> PLIC_MAX_SOURCE"
    "h' \<le> PLIC_MAX_TARGET" "i' \<le> PLIC_MAX_SOURCE"
  shows "uint (priority_ptr p i) + 4 \<le> uint (PLIC_CTRL_ADDR + PLIC_PENDING_OFFSET)
    \<and> uint (PLIC_CTRL_ADDR + PLIC_PENDING_OFFSET) + uint (push_bit PLIC_PENDING_SHIFT_PER_SOURCE i) div 8
        < uint (enable_base p h + drop_bit 3 i)
    \<and> uint (enable_base p h + drop_bit 3 i) < uint (threshold_ptr p h')
    \<and> (priority_ptr p i = priority_ptr p i' \<longleftrightarrow> i = i')
    \<and> (enable_base p h + drop_bit 3 i = enable_base p h' + drop_bit 3 i' \<longleftrightarrow> h = h' \<and> drop_bit 3 i = drop_bit 3 i')
    \<and> (threshold_ptr p h = threshold_ptr p h' \<longleftrightarrow> h = h') \<and> (claim_addr p h = claim_addr p h' \<longleftrightarrow> h = h')
    \<and> (\<bar>uint (threshold_ptr p h) - uint (claim_addr p h')\<bar> \<ge> 4)"
proof -
  note a = plic_addresses[OF assms(1-3)] and b = plic_addresses[OF assms(1,4,5)]
  have eq: "x = y \<longleftrightarrow> uint x = uint y" for x y :: u32 by (simp add: word_uint_eq_iff)
  have pend: "uint (PLIC_CTRL_ADDR + PLIC_PENDING_OFFSET) = 0xc001000"
    by (simp add: PLIC_CTRL_ADDR_def PLIC_PENDING_OFFSET_def)
  have bytes: "x * 128 + u = y * 128 + v \<longleftrightarrow> x = y \<and> u = v"
    if "0 \<le> u" "u \<le> 127" "0 \<le> v" "v \<le> 127" for x y u v :: int
  proof -
    have "(x * 128 + u) div 128 = x" "(y * 128 + v) div 128 = y" using that by simp_all
    then show ?thesis by (metis add_left_cancel)
  qed
  have slots: "4 \<le> \<bar>x * 4096 - y * 4096 - 4\<bar>" for x y :: int by (cases "x \<le> y") linarith+
  have group: "uint i div 8 \<le> 127" using a(2) by simp
  have pos: "0 \<le> uint h" "0 \<le> uint h'" "0 \<le> uint (drop_bit 3 i)" "0 \<le> uint (drop_bit 3 i')" by simp_all
  show ?thesis
  proof (intro conjI)
    show "uint (PLIC_CTRL_ADDR + PLIC_PENDING_OFFSET) + uint (push_bit PLIC_PENDING_SHIFT_PER_SOURCE i) div 8
        < uint (enable_base p h + drop_bit 3 i)"
      unfolding pend a(5) PLIC_PENDING_SHIFT_PER_SOURCE_def push_bit_0_id id_apply using group pos(1,3) by linarith
    show "enable_base p h + drop_bit 3 i = enable_base p h' + drop_bit 3 i' \<longleftrightarrow> h = h' \<and> drop_bit 3 i = drop_bit 3 i'"
      unfolding eq a(5) b(5) add.assoc add_left_cancel using a(3) b(3) pos by (intro bytes)
    show "uint (enable_base p h + drop_bit 3 i) < uint (threshold_ptr p h')"
      unfolding a(5) b(6) using a(1,3) pos by linarith
    show "4 \<le> \<bar>uint (threshold_ptr p h) - uint (claim_addr p h')\<bar>"
      unfolding a(6) b(7) using slots[of "uint h" "uint h'"] by simp
  qed (use a b in \<open>auto simp: eq pend\<close>)
qed

definition plic_at_base :: plic_instance where
  "plic_at_base = \<lparr>base_addr = PLIC_CTRL_ADDR, num_sources = 52, num_priorities = 7\<rparr>"

theorem plic_registers_apart_witness:
  "priority_ptr plic_at_base 3 \<noteq> priority_ptr plic_at_base 4 \<and> threshold_ptr plic_at_base 0 \<noteq> threshold_ptr plic_at_base 1
   \<and> uint (enable_base plic_at_base 15871 + drop_bit 3 1023) < uint (threshold_ptr plic_at_base 0)"
  using plic_registers_apart[of plic_at_base 0 3 1 4] plic_registers_apart[of plic_at_base 15871 1023 0 4]
  by (simp add: plic_at_base_def PLIC_MAX_TARGET_def PLIC_MAX_SOURCE_def)

end
