(* ===== verification/Vectors.thy ===== *)
theory Vectors
  imports Entry
begin

unbundle bit_operations_syntax

text \<open>
  Dispatch through the vector table of \<open>env/ventry.S\<close>: which routine each handler calls, the default of a
  routine that the application does not define, and what a trap does from the jump in the table to
  \<open>mret\<close>. The application's routines are a parameter.
\<close>

section \<open>Definitions\<close>

datatype routine = Handle_sync_trap | Handle_m_time_interrupt | Handle_m_external_interrupt
  | Handle_local_interrupt nat | Unimplemented

text \<open>The call in each handler; an entry for a reserved cause jumps away without one.\<close>

fun called_by :: "vector \<Rightarrow> routine option" where
  "called_by Sync_trap = Some Handle_sync_trap"
| "called_by Vmsi_Handler = Some Unimplemented"
| "called_by Vmti_Handler = Some Handle_m_time_interrupt"
| "called_by Vmei_Handler = Some Handle_m_external_interrupt"
| "called_by (Vlip_Handler k) = Some (Handle_local_interrupt k)"
| "called_by Reserved = None"

text \<open>The routines with a weak definition, which is an endless loop; \<open>Unimplemented\<close> is the label \<open>reserved\<close>.\<close>

definition weak_routines :: "routine list" where
  "weak_routines = Unimplemented # map Handle_local_interrupt [0..<16]"

type_synonym app = "routine \<Rightarrow> (machine \<Rightarrow> machine option) option"

definition code_of :: "app \<Rightarrow> routine \<Rightarrow> machine \<Rightarrow> machine option" where
  "code_of app r = (case app r of Some f \<Rightarrow> f | None \<Rightarrow> (\<lambda>_. None))"

text \<open>A program links if the application defines the routines that have no weak definition.\<close>

definition complete :: "app \<Rightarrow> bool" where
  "complete app \<longleftrightarrow> list_all (\<lambda>v. case called_by v of Some r \<Rightarrow> r \<in> set weak_routines \<or> app r \<noteq> None | None \<Rightarrow> True) vtrap_entry"

text \<open>The core in vectored mode takes entry 0 for an exception and the entry of the cause for an interrupt.\<close>

definition entry_for :: "u32 \<Rightarrow> nat" where
  "entry_for mcause = (if mcause AND MCAUSE_INT = 0 then 0 else unat (mcause AND MCAUSE_CAUSE))"

text \<open>
  A handler ends with \<open>mret\<close>. A reserved entry is a jump to the label \<open>reserved\<close>: a function of the
  application in that place would return, with \<open>ret\<close>, to whatever address the interrupted program has in \<open>ra\<close>.
\<close>

datatype exit = Mret cpu | Ret cpu

definition enter_vector ::
  "app \<Rightarrow> (nat \<Rightarrow> u32) \<Rightarrow> (u32 \<Rightarrow> u8) \<Rightarrow> u32 \<Rightarrow> cpu \<Rightarrow> exit option" where
  "enter_vector app regs m ret c =
     (case called_by (vtrap_entry ! entry_for (csr_mcause c)) of
       Some r \<Rightarrow> map_option Mret (vector_handler (call_handler (code_of app r) regs m) ret c)
     | None \<Rightarrow> map_option Ret (call_handler (code_of app Unimplemented) regs m c))"

section \<open>Dispatch\<close>

text \<open>The routine for each cause, as the privileged architecture numbers them.\<close>

definition routine_for :: "nat \<Rightarrow> routine option" where
  "routine_for i =
     (if i = 0 then Some Handle_sync_trap else if i = 3 then Some Unimplemented
      else if i = 7 then Some Handle_m_time_interrupt else if i = 11 then Some Handle_m_external_interrupt
      else if 16 \<le> i then Some (Handle_local_interrupt (i - 16)) else None)"

lemma table_routines: "i < 32 \<Longrightarrow> called_by (vtrap_entry ! i) = routine_for i"
proof -
  have "list_all (\<lambda>i. called_by (vtrap_entry ! i) = routine_for i) [0..<32]" by code_simp
  then show "i < 32 \<Longrightarrow> called_by (vtrap_entry ! i) = routine_for i" by (simp only: list_all_iff) simp
qed

lemma length_table: "length vtrap_entry = 32"
  by (simp add: vtrap_entry_def)

lemma call_handler_None: "f (hw c) = None \<Longrightarrow> call_handler f regs m c = None"
  by (simp add: call_handler_def)

lemma vector_handler_hangs:
  assumes "f (hw c) = None"
  shows "vector_handler (call_handler f regs m) ret c = None"
proof -
  have "call_handler f regs m (li 1 ret (TRAP_ENTRY c)) = None"
    by (rule call_handler_None) (simp add: assms li_def TRAP_ENTRY_def addi_sp_def)
  then show ?thesis by (simp add: vector_handler_def)
qed

text \<open>
  C32. Vectored traps. A trap with any of the 32 causes of the table runs the routine of that cause and
  nothing else: exceptions \<open>handle_sync_trap\<close>, the timer, external and local interrupts their handler, the
  software interrupt the routine for unimplemented ones. If the routine returns, \<open>mret\<close> resumes the program with
  every register as it was and the hardware as the routine left it; if the application does not define it,
  or it does not return, the trap never ends. The reserved causes end in a loop, or in a function of the
  application that returns past \<open>mret\<close>.
\<close>

theorem vectored_dispatch:
  assumes "entry_for (csr_mcause c) < 32" "complete app"
  shows "case routine_for (entry_for (csr_mcause c)) of
      Some r \<Rightarrow> (r \<in> set weak_routines \<or> app r \<noteq> None) \<and>
        (case code_of app r (hw c) of
          None \<Rightarrow> enter_vector app regs m ret c = None
        | Some s \<Rightarrow> \<exists>d. enter_vector app regs m ret c = Some (Mret d) \<and> (\<forall>i\<in>{0..<32}. xreg d i = xreg c i)
            \<and> csr_mepc d = csr_mepc c \<and> hw d = s \<and> csr_mstatus d = csr_mstatus c OR MSTATUS_MPP)
    | None \<Rightarrow> (app Unimplemented = None \<longrightarrow> enter_vector app regs m ret c = None)
        \<and> (\<forall>d. enter_vector app regs m ret c \<noteq> Some (Mret d))"
proof (cases "routine_for (entry_for (csr_mcause c))")
  case None
  with table_routines[OF assms(1)] have "enter_vector app regs m ret c = map_option Ret (call_handler (code_of app Unimplemented) regs m c)"
    by (simp add: enter_vector_def)
  moreover have "call_handler (code_of app Unimplemented) regs m c = None" if "app Unimplemented = None"
    by (rule call_handler_None) (simp add: code_of_def that)
  ultimately show ?thesis using None by auto
next
  case (Some r)
  note t = table_routines[OF assms(1), unfolded Some]
  then have e: "enter_vector app regs m ret c = map_option Mret (vector_handler (call_handler (code_of app r) regs m) ret c)"
    by (simp add: enter_vector_def)
  have "vtrap_entry ! entry_for (csr_mcause c) \<in> set vtrap_entry"
    using assms(1) by (intro nth_mem) (simp only: length_table)
  with assms(2) t have w: "r \<in> set weak_routines \<or> app r \<noteq> None" by (force simp: complete_def list_all_iff)
  show ?thesis
  proof (cases "code_of app r (hw c)")
    case None
    then show ?thesis using w by (simp add: Some e vector_handler_hangs)
  next
    case (Some s)
    from vector_handler_transparent[of "code_of app r" c s regs m ret, OF Some] w
    show ?thesis using Some \<open>routine_for _ = Some r\<close> by (auto simp: e)
  qed
qed

definition sample_app :: app where
  "sample_app r = (if r \<in> {Handle_sync_trap, Handle_m_time_interrupt, Handle_m_external_interrupt, Handle_local_interrupt 2}
     then Some Some else None)"

theorem vectored_dispatch_witness:
  "(\<exists>d. enter_vector sample_app (\<lambda>i. 0) (\<lambda>a. 0) 0x20400200 (sample_cpu\<lparr>csr_mcause := 0x80000012\<rparr>) = Some (Mret d)
      \<and> xreg d 5 = 5)
   \<and> enter_vector sample_app (\<lambda>i. 0) (\<lambda>a. 0) 0x20400200 (sample_cpu\<lparr>csr_mcause := 0x80000003\<rparr>) = None"
proof -
  have e: "entry_for 0x80000012 = 18" "entry_for 0x80000003 = 3" by (simp_all add: entry_for_def reg_simps)
  have c: "complete sample_app" by (simp add: complete_def vtrap_entry_def weak_routines_def sample_app_def)
  show ?thesis
    using vectored_dispatch[of "sample_cpu\<lparr>csr_mcause := 0x80000012\<rparr>" sample_app "\<lambda>i. 0" "\<lambda>a. 0" "0x20400200", OF _ c]
      vectored_dispatch[of "sample_cpu\<lparr>csr_mcause := 0x80000003\<rparr>" sample_app "\<lambda>i. 0" "\<lambda>a. 0" "0x20400200", OF _ c]
    by (auto simp: e routine_for_def code_of_def sample_app_def sample_cpu_def)
qed

end
