(* ===== verification/Startup.thy ===== *)
theory Startup
  imports Entry
begin

unbundle bit_operations_syntax

text \<open>
  \<open>_start\<close> of \<open>env/start.S\<close> instruction by instruction: the registers it sets up, its two loops over
  the registers they use, and the calls it makes, up to the status that \<open>main\<close> leaves for \<open>exit\<close>. The
  addresses come from the linker; \<open>atexit\<close> and \<open>__libc_init_array\<close> are functions of the C library and
  parameters.
\<close>

section \<open>Instructions\<close>

definition lw :: "nat \<Rightarrow> nat \<Rightarrow> cpu \<Rightarrow> cpu" where
  "lw rd rs c = li rd (word_at (mem c) (xreg c rs)) c"

definition sw :: "u32 \<Rightarrow> nat \<Rightarrow> cpu \<Rightarrow> cpu" where
  "sw v rs c = c\<lparr>mem := store (WrW (xreg c rs) v) (mem c)\<rparr>"

definition addi :: "nat \<Rightarrow> u32 \<Rightarrow> cpu \<Rightarrow> cpu" where
  "addi r k c = li r (xreg c r + k) c"

definition csrw_mtvec :: "nat \<Rightarrow> cpu \<Rightarrow> cpu" where
  "csrw_mtvec r c = c\<lparr>hw := write_csr Mtvec (xreg c r) (hw c)\<rparr>"

text \<open>The symbols of the linker script.\<close>

record symbols =
  global_pointer :: u32
  stack_top :: u32
  trap_vector :: u32
  data_lma :: u32
  data_start :: u32
  data_end :: u32
  bss_start :: u32
  bss_end :: u32
  libc_fini_array :: u32

section \<open>The code\<close>

text \<open>The loops use \<open>t0\<close> (5), \<open>a0\<close>, \<open>a1\<close> and \<open>a2\<close> (10 to 12).\<close>

partial_function (option) copy_words :: "cpu \<Rightarrow> cpu option" where
  "copy_words c =
     (let c = lw 5 10 c; c = sw (xreg c 5) 11 c; c = addi 10 4 c; c = addi 11 4 c
      in if xreg c 11 < xreg c 12 then copy_words c else Some c)"

partial_function (option) clear_words :: "cpu \<Rightarrow> cpu option" where
  "clear_words c =
     (let c = sw 0 10 c; c = addi 10 4 c
      in if xreg c 10 < xreg c 11 then clear_words c else Some c)"

text \<open>Up to the first call, whose argument is in \<open>a0\<close>.\<close>

definition start_setup :: "symbols \<Rightarrow> cpu \<Rightarrow> cpu option" where
  "start_setup y c =
     do { let c = li 3 (global_pointer y) c;
          let c = li 2 (stack_top y) c;
          let c = li 15 (trap_vector y) c;
          let c = csrw_mtvec 15 c;
          let c = li 10 (data_lma y) c;
          let c = li 11 (data_start y) c;
          let c = li 12 (data_end y) c;
          c \<leftarrow> (if xreg c 12 \<le> xreg c 11 then Some c else copy_words c);
          let c = li 10 (bss_start y) c;
          let c = li 11 (bss_end y) c;
          c \<leftarrow> (if xreg c 11 \<le> xreg c 10 then Some c else clear_words c);
          Some (li 10 (libc_fini_array y) c) }"

text \<open>
  The calls; \<open>here\<close> is the address that \<open>auipc ra, 0\<close> yields. The result is the state in which
  \<open>exit\<close> is entered, with the status in \<open>a0\<close>.
\<close>

definition start_calls ::
  "u32 \<Rightarrow> (cpu \<Rightarrow> cpu option) \<Rightarrow> (cpu \<Rightarrow> cpu option) \<Rightarrow> (cpu \<Rightarrow> cpu option) \<Rightarrow> cpu \<Rightarrow> cpu option" where
  "start_calls here atexit libc_init_array main c =
     do { c \<leftarrow> atexit c;
          c \<leftarrow> libc_init_array c;
          let c = li 1 here c;
          let c = addi_sp (- 16) c;
          let c = STORE 1 8 c;
          let c = li 10 0 c;
          let c = li 11 0 c;
          main c }"

text \<open>
  The entry of a further hart, assembled with \<open>ENABLE_SMP\<close>, up to its call: one KiB of stack for each hart.
\<close>

definition secondary_setup :: "env \<Rightarrow> symbols \<Rightarrow> u32 \<Rightarrow> cpu \<Rightarrow> cpu" where
  "secondary_setup E y here c =
     (let c = li 5 (trap_vector y) c;
          c = csrw_mtvec 5 c;
          (hartid, s) = read_csr E Mhartid (hw c);
          c = li 10 hartid (c\<lparr>hw := s\<rparr>);
          c = li 6 (stack_top y) c;
          c = li 5 (push_bit 10 (xreg c 10)) c;
          c = li 2 (xreg c 6 - xreg c 5) c;
          c = li 1 here c;
          c = addi_sp (- 16) c
      in STORE 1 8 c)"

section \<open>The loops over registers\<close>

text \<open>
  The loops implement \<open>copy_loop\<close> and \<open>clear_loop\<close>: when those end, so do these, with the same
  memory, and only their registers have changed.
\<close>

definition only_changes :: "nat set \<Rightarrow> cpu \<Rightarrow> cpu \<Rightarrow> bool" where
  "only_changes rs c d \<longleftrightarrow> d = c\<lparr>xreg := xreg d, mem := mem d\<rparr> \<and> (\<forall>i. i \<notin> rs \<longrightarrow> xreg d i = xreg c i)"

lemma only_changes_trans: "only_changes rs c d \<Longrightarrow> only_changes rs d e \<Longrightarrow> only_changes rs c e"
  by (cases c; cases d; cases e) (auto simp: only_changes_def)

lemma only_changes_refl: "only_changes rs c c"
  by (simp add: only_changes_def)

lemma only_changes_hw: "only_changes rs c d \<Longrightarrow> hw d = hw c"
  by (cases c; cases d) (simp add: only_changes_def)

lemma only_changes_reg: "only_changes rs c d \<Longrightarrow> i \<notin> rs \<Longrightarrow> xreg d i = xreg c i"
  by (simp add: only_changes_def)

lemmas step_defs = lw_def sw_def addi_def li_def

lemma copy_words_refines:
  "copy_loop a0 a1 a2 m = Some m' \<Longrightarrow> xreg c 10 = a0 \<Longrightarrow> xreg c 11 = a1 \<Longrightarrow> xreg c 12 = a2 \<Longrightarrow> mem c = m
     \<Longrightarrow> \<exists>d. copy_words c = Some d \<and> mem d = m' \<and> only_changes {5, 10, 11} c d"
proof (induction a0 a1 a2 m m' arbitrary: c rule: copy_loop.raw_induct[rotated, consumes 1, case_names step])
  case (step loop a0 a1 a2 m m')
  let ?c = "addi 11 4 (addi 10 4 (sw (xreg (lw 5 10 c) 5) 11 (lw 5 10 c)))"
  have s: "xreg ?c 10 = a0 + 4" "xreg ?c 11 = a1 + 4" "xreg ?c 12 = a2"
    "mem ?c = store (WrW a1 (word_at m a0)) m"
    using step(3-6) by (simp_all add: step_defs del: store.simps)
  have o: "only_changes {5, 10, 11} c ?c" by (auto simp: only_changes_def step_defs)
  show ?case
  proof (cases "a1 + 4 < a2")
    case True
    with step(2) have "loop (a0 + 4) (a1 + 4) a2 (store (WrW a1 (word_at m a0)) m) = Some m'" by (simp add: Let_def)
    from step(1)[OF this s] o True show ?thesis
      by (subst copy_words.simps) (auto simp: Let_def s(2,3) intro: only_changes_trans)
  next
    case False
    with step(2) o s show ?thesis by (subst copy_words.simps) (auto simp: Let_def)
  qed
qed

lemma clear_words_refines:
  "clear_loop a0 a1 m = Some m' \<Longrightarrow> xreg c 10 = a0 \<Longrightarrow> xreg c 11 = a1 \<Longrightarrow> mem c = m
     \<Longrightarrow> \<exists>d. clear_words c = Some d \<and> mem d = m' \<and> only_changes {5, 10, 11} c d"
proof (induction a0 a1 m m' arbitrary: c rule: clear_loop.raw_induct[rotated, consumes 1, case_names step])
  case (step loop a0 a1 m m')
  let ?c = "addi 10 4 (sw 0 10 c)"
  have s: "xreg ?c 10 = a0 + 4" "xreg ?c 11 = a1" "mem ?c = store (WrW a0 0) m"
    using step(3-5) by (simp_all add: step_defs del: store.simps)
  have o: "only_changes {5, 10, 11} c ?c" by (auto simp: only_changes_def step_defs)
  show ?case
  proof (cases "a0 + 4 < a1")
    case True
    with step(2) have "loop (a0 + 4) a1 (store (WrW a0 0) m) = Some m'" by (simp add: Let_def)
    from step(1)[OF this s] o True show ?thesis
      by (subst clear_words.simps) (auto simp: Let_def s(1,2) intro: only_changes_trans)
  next
    case False
    with step(2) o s show ?thesis by (subst clear_words.simps) (auto simp: Let_def)
  qed
qed

section \<open>Set-up\<close>

text \<open>Word-aligned section sizes (\<open>n\<close> and \<open>k\<close> words), in order, and a load image outside \<open>.data\<close>.\<close>

definition linked :: "symbols \<Rightarrow> nat \<Rightarrow> nat \<Rightarrow> bool" where
  "linked y n k \<longleftrightarrow> data_end y = data_start y + of_nat (4 * n) \<and> bss_end y = bss_start y + of_nat (4 * k)
     \<and> unat (data_start y) + 4 * n \<le> unat (bss_start y) \<and> unat (bss_start y) + 4 * k < 2 ^ 32
     \<and> regions_apart (data_lma y) (data_start y) (4 * n)"

lemma setup_follows_memory:
  assumes "start_memory (data_lma y) (data_start y) (data_end y) (bss_start y) (bss_end y) (mem c) = Some m'"
  shows "\<exists>d. start_setup y c = Some d \<and> mem d = m' \<and> hw d = write_csr Mtvec (trap_vector y) (hw c)
    \<and> xreg d 2 = stack_top y \<and> xreg d 3 = global_pointer y \<and> xreg d 10 = libc_fini_array y"
proof -
  let ?rs = "{5, 10, 11} :: nat set"
  let ?c = "li 12 (data_end y) (li 11 (data_start y) (li 10 (data_lma y)
     (csrw_mtvec 15 (li 15 (trap_vector y) (li 2 (stack_top y) (li 3 (global_pointer y) c))))))"
  have c: "xreg ?c 10 = data_lma y" "xreg ?c 11 = data_start y" "xreg ?c 12 = data_end y" "mem ?c = mem c"
    "xreg ?c 2 = stack_top y" "xreg ?c 3 = global_pointer y" "hw ?c = write_csr Mtvec (trap_vector y) (hw c)"
    by (simp_all add: li_def csrw_mtvec_def)
  obtain m1 where
    m1: "(if data_end y \<le> data_start y then Some (mem c) else copy_loop (data_lma y) (data_start y) (data_end y) (mem c)) = Some m1"
    and m2: "(if bss_end y \<le> bss_start y then Some m1 else clear_loop (bss_start y) (bss_end y) m1) = Some m'"
    using assms by (auto simp: start_memory_def bind_eq_Some_conv)
  obtain d1 where d1: "(if xreg ?c 12 \<le> xreg ?c 11 then Some ?c else copy_words ?c) = Some d1" "mem d1 = m1"
    "only_changes ?rs ?c d1"
    using m1 c copy_words_refines[OF _ c(1-4), of m1] by (auto simp: only_changes_refl split: if_splits)
  let ?d = "li 11 (bss_end y) (li 10 (bss_start y) d1)"
  have d: "xreg ?d 10 = bss_start y" "xreg ?d 11 = bss_end y" "mem ?d = m1" "only_changes ?rs d1 ?d"
    using d1(2) by (simp_all add: li_def only_changes_def)
  obtain d2 where d2: "(if xreg ?d 11 \<le> xreg ?d 10 then Some ?d else clear_words ?d) = Some d2" "mem d2 = m'"
    "only_changes ?rs ?d d2"
    using m2 d clear_words_refines[OF _ d(1-3), of m'] by (auto simp: only_changes_refl split: if_splits)
  have o: "only_changes ?rs ?c d2" using d1(3) d(4) d2(3) by (blast intro: only_changes_trans)
  have "start_setup y c = Some (li 10 (libc_fini_array y) d2)"
    by (simp only: start_setup_def Let_def d1(1) d2(1) Option.bind.simps)
  then show ?thesis
    using d2(2) c(5-7) only_changes_hw[OF o] only_changes_reg[OF o, of 2] only_changes_reg[OF o, of 3]
    by (simp add: li_def)
qed

section \<open>Calls\<close>

text \<open>What \<open>_start\<close> relies on in a function it calls: stack pointer and global pointer come back.\<close>

locale c_routine =
  fixes call :: "cpu \<Rightarrow> cpu option"
  assumes keeps_preserved: "call c = Some d \<Longrightarrow> preserved i \<Longrightarrow> xreg d i = xreg c i"
begin

lemma keeps_pointers: "call c = Some d \<Longrightarrow> xreg d 2 = xreg c 2 \<and> xreg d 3 = xreg c 3"
  by (auto simp: preserved_def intro!: keeps_preserved)

end

sublocale c_function \<subseteq> c_routine
  by unfold_locales (rule keeps_registers)

text \<open>\<open>main\<close> as a C function: its result in \<open>a0\<close>, its frame of 16 bytes at the caller kept.\<close>

definition call_main :: "env \<Rightarrow> (nat \<Rightarrow> u32) \<Rightarrow> (u32 \<Rightarrow> u8) \<Rightarrow> cpu \<Rightarrow> cpu option" where
  "call_main E regs m c = map_option (\<lambda>(r, s). li 10 r ((c_return 16 regs m c)\<lparr>hw := s\<rparr>)) (main_c E (hw c))"

text \<open>\<open>_init\<close> as a C function.\<close>

definition call_init :: "env \<Rightarrow> u32 \<Rightarrow> (nat \<Rightarrow> u32) \<Rightarrow> (u32 \<Rightarrow> u8) \<Rightarrow> cpu \<Rightarrow> cpu option" where
  "call_init E tv regs m c = map_option (\<lambda>s. (c_return 0 regs m c)\<lparr>hw := s\<rparr>) (init_platform E tv (hw c))"

interpretation main_call: c_routine "call_main E regs m" for E regs m
  by unfold_locales (auto simp: call_main_def c_return_def li_def preserved_def)

interpretation init_call: c_routine "call_init E tv regs m" for E tv regs m
  by unfold_locales (auto simp: call_init_def c_return_def)

lemma boot_on_live_board:
  assumes "clocks_live E" "tx_drains E"
  obtains s t where "init_platform E tv u = Some s" "main_c E s = Some (0, t)"
proof -
  obtain s where s: "init_platform E tv u = Some s" using init_prints[OF assms] by blast
  obtain t where "main_c E s = Some (0, t)" using main_prints[OF assms(2)] by blast
  with s show thesis by (rule that)
qed

lemma stored_word: "word_at (mem (STORE i off c)) (xreg c 2 + off) = xreg c i"
  by (simp add: STORE_def del: store.simps)

text \<open>
  C33. From reset to \<open>exit\<close>. On a board that responds, for linked sections and library functions
  that keep the pointers, \<open>_start\<close> makes its first call with the stack and global pointers set, the trap
  vector written, every byte of \<open>.data\<close> loaded and every byte of \<open>.bss\<close> zero; it enters \<open>main\<close> with two
  zero arguments, on a frame of 16 bytes that holds the return address; and \<open>exit\<close> gets the status 0 after the
  hardware has seen the trap vector, then \<open>_init\<close>, then \<open>main\<close>. The assumption on \<open>main\<close> is only used at
  the state it is called in.
\<close>

theorem start_reaches_exit:
  assumes "linked y n k" "clocks_live E" "tx_drains E" "c_routine at_exit" "c_routine init_array"
    and at_exit: "\<And>c. map_option hw (at_exit c) = Some (hw c)"
    and init: "\<And>c. map_option hw (init_array c) = init_platform E (trap_vector y) (hw c)"
    and main: "\<And>c. xreg c 10 = 0 \<Longrightarrow> xreg c 11 = 0 \<Longrightarrow> xreg c 2 = stack_top y - 16 \<Longrightarrow> xreg c 3 = global_pointer y
      \<Longrightarrow> word_at (mem c) (xreg c 2 + 8) = here \<Longrightarrow> map_option (\<lambda>d. (xreg d 10, hw d)) (main c) = main_c E (hw c)"
  shows "\<exists>c1 d. start_setup y c = Some c1 \<and> start_calls here at_exit init_array main c1 = Some d
    \<and> hw c1 = write_csr Mtvec (trap_vector y) (hw c) \<and> xreg c1 10 = libc_fini_array y
    \<and> xreg c1 2 = stack_top y \<and> xreg c1 3 = global_pointer y
    \<and> (\<forall>i<4 * n. mem c1 (data_start y + of_nat i) = mem c (data_lma y + of_nat i))
    \<and> (\<forall>i<4 * k. mem c1 (bss_start y + of_nat i) = 0)
    \<and> boot E (trap_vector y) (hw c1) = Some (0, hw d) \<and> xreg d 10 = 0"
proof -
  obtain m' where m': "start_memory (data_lma y) (data_start y) (data_end y) (bss_start y) (bss_end y) (mem c) = Some m'"
    "\<forall>i<4 * n. m' (data_start y + of_nat i) = mem c (data_lma y + of_nat i)" "\<forall>i<4 * k. m' (bss_start y + of_nat i) = 0"
    using start_initialises_memory[of "data_start y" n "bss_start y" k "data_lma y" "mem c"] assms(1)
    by (auto simp: linked_def)
  obtain c1 where c1: "start_setup y c = Some c1" "mem c1 = m'" "hw c1 = write_csr Mtvec (trap_vector y) (hw c)"
    "xreg c1 2 = stack_top y" "xreg c1 3 = global_pointer y" "xreg c1 10 = libc_fini_array y"
    using setup_follows_memory[OF m'(1)] by blast
  obtain s t where st: "init_platform E (trap_vector y) (hw c1) = Some s" "main_c E s = Some (0, t)"
    using boot_on_live_board[OF assms(2,3)] by metis
  obtain c2 where c2: "at_exit c1 = Some c2" "hw c2 = hw c1" using at_exit[of c1] by auto
  obtain c3 where c3: "init_array c2 = Some c3" "hw c3 = s" using init[of c2] st(1) c2(2) by auto
  have p: "xreg c3 2 = stack_top y" "xreg c3 3 = global_pointer y"
    using c_routine.keeps_pointers[OF assms(4) c2(1)] c_routine.keeps_pointers[OF assms(5) c3(1)] c1(4,5) by simp_all
  let ?f = "addi_sp (- 16) (li 1 here c3)"
  let ?e = "li 11 0 (li 10 0 (STORE 1 8 ?f))"
  have e: "xreg ?e 10 = 0" "xreg ?e 11 = 0" "xreg ?e 2 = stack_top y - 16" "xreg ?e 3 = global_pointer y" "hw ?e = s"
    using p c3(2) by (simp_all add: li_def addi_sp_def STORE_def)
  have "word_at (mem ?e) (xreg ?e 2 + 8) = word_at (mem (STORE 1 8 ?f)) (xreg ?f 2 + 8)"
    by (simp add: li_def STORE_def)
  then have "word_at (mem ?e) (xreg ?e 2 + 8) = here"
    by (simp only: stored_word) (simp add: li_def addi_sp_def)
  from main[OF e(1-4) this] st(2) e(5) obtain d where d: "main ?e = Some d" "xreg d 10 = 0" "hw d = t" by auto
  have "start_calls here at_exit init_array main c1 = Some d"
    by (simp only: start_calls_def c2(1) c3(1) Option.bind.simps Let_def d(1))
  moreover have "boot E (trap_vector y) (hw c1) = Some (0, hw d)" using st d(3) by (simp add: boot_def)
  ultimately show ?thesis using c1 m'(2,3) d(2) by auto
qed

definition sample_symbols :: symbols where
  "sample_symbols = \<lparr>global_pointer = 0x80000800, stack_top = 0x80020000, trap_vector = 0x20400100,
     data_lma = 0x20402000, data_start = 0x80000000, data_end = 0x80000010,
     bss_start = 0x80000010, bss_end = 0x80000020, libc_fini_array = 0x20401000\<rparr>"

lemma sample_linked: "linked sample_symbols 4 4"
proof -
  have "4 * 4 \<le> unat (0x20402000 + of_nat k - 0x80000000 :: u32)" if "k < 4 * 4" for k :: nat
  proof -
    have "unat (0xA0402000 + of_nat k :: u32) = 0xA0402000 + k"
      using that by (subst unat_plus_no_wrap) (simp_all add: unat_of_nat)
    moreover have "0x20402000 + of_nat k - 0x80000000 = (0xA0402000 + of_nat k :: u32)"
      unfolding diff_add_eq[symmetric] by simp
    ultimately have "unat (0x20402000 + of_nat k - 0x80000000 :: u32) = 0xA0402000 + k" by (simp only:)
    then show ?thesis by linarith
  qed
  then have "regions_apart 0x20402000 0x80000000 (4 * 4)" unfolding regions_apart_def by blast
  then show ?thesis by (simp add: linked_def sample_symbols_def)
qed

theorem start_reaches_exit_witness:
  "\<exists>c1 d. start_setup sample_symbols sample_cpu = Some c1 \<and> mem c1 0x80000012 = 0
    \<and> start_calls 0x20400080 Some (call_init board_env 0x20400100 (\<lambda>_. 7) (\<lambda>_. 9)) (call_main board_env (\<lambda>_. 7) (\<lambda>_. 9)) c1 = Some d
    \<and> xreg d 10 = 0"
proof -
  let ?init = "call_init board_env 0x20400100 (\<lambda>_. 7) (\<lambda>_. 9)"
  let ?main = "call_main board_env (\<lambda>_. 7) (\<lambda>_. 9)"
  have keep: "c_routine Some" by unfold_locales simp
  have tv: "trap_vector sample_symbols = 0x20400100" by (simp add: sample_symbols_def)
  have init: "map_option hw (?init c) = init_platform board_env (trap_vector sample_symbols) (hw c)" for c
    by (cases "init_platform board_env 0x20400100 (hw c)") (simp_all add: call_init_def tv)
  have main: "map_option (\<lambda>d. (xreg d 10, hw d)) (?main c) = main_c board_env (hw c)" for c
    by (cases "main_c board_env (hw c)") (simp_all add: call_main_def li_def case_prod_beta)
  obtain c1 d where *: "start_setup sample_symbols sample_cpu = Some c1"
    "start_calls 0x20400080 Some ?init ?main c1 = Some d" "xreg d 10 = 0"
    "\<forall>i<4 * 4. mem c1 (bss_start sample_symbols + of_nat i) = 0"
    using start_reaches_exit[OF sample_linked board_live board_drains keep init_call.c_routine_axioms _ init main,
        where here = "0x20400080" and c = sample_cpu] by auto
  moreover have "mem c1 0x80000012 = 0" using *(4)[rule_format, of 2] by (simp add: sample_symbols_def)
  ultimately show ?thesis by blast
qed

section \<open>Stacks of the further harts\<close>

lemma secondary_pointer:
  "xreg (secondary_setup E y here c) 2 = stack_top y - push_bit 10 (E (hist (hw c) @ [WrCsr Mtvec (trap_vector y)]) (LdCsr Mhartid)) - 16"
  "word_at (mem (secondary_setup E y here c)) (xreg (secondary_setup E y here c) 2 + 8) = here"
  by (simp_all add: secondary_setup_def li_def csrw_mtvec_def addi_sp_def STORE_def read_csr_def write_csr_def
      Let_def del: store.simps)

text \<open>The stacks of two harts, one KiB each below the pointer of the lower hart, do not overlap.\<close>

lemma secondary_stacks_apart:
  assumes "h < h'" "1024 * (unat h' + 1) \<le> unat (sp0 :: u32)"
  shows "1024 \<le> unat (sp0 - push_bit 10 h')" "unat (sp0 - push_bit 10 h') + 1024 \<le> unat (sp0 - push_bit 10 h)"
proof -
  have shift: "unat (push_bit 10 x) = 1024 * unat x" if "1024 * unat x < 2 ^ 32" for x :: u32
    using that by (simp add: push_bit_eq_mult unat_word_ariths)
  have b: "unat sp0 < 2 ^ 32" using unsigned_less[of sp0] by simp
  have h: "unat h < unat h'" using assms(1) by (simp add: word_less_nat_alt)
  have u: "unat (push_bit 10 h) = 1024 * unat h" "unat (push_bit 10 h') = 1024 * unat h'"
    using shift h assms(2) b by auto
  moreover have "push_bit 10 h \<le> sp0" "push_bit 10 h' \<le> sp0"
    using u h assms(2) by (auto simp: word_le_nat_alt)
  ultimately show "1024 \<le> unat (sp0 - push_bit 10 h')" "unat (sp0 - push_bit 10 h') + 1024 \<le> unat (sp0 - push_bit 10 h)"
    using h assms(2) by (auto simp: unat_sub)
qed

end
