(* ===== verification/Heap.thy ===== *)
theory Heap
  imports Bus
begin

text \<open>
  The heap of \<open>libwrap/sys/sbrk.c\<close> and \<open>libwrap/stdlib/malloc.c\<close>: one break, moved up
  by every allocation. \<open>lo\<close> and \<open>hi\<close> stand for the linker symbols \<open>_end\<close> and
  \<open>_heap_end\<close>; the static variable \<open>curbrk\<close> starts at \<open>_end\<close>. Pointers wrap at
  32 bits, as the compiled code does.
\<close>

section \<open>Definitions\<close>

definition wrap_sbrk :: "u32 \<Rightarrow> u32 \<Rightarrow> u32 \<Rightarrow> machine \<Rightarrow> u32 \<times> machine" where
  "wrap_sbrk lo hi incr s =
     (if curbrk s + incr < lo \<or> hi < curbrk s + incr then (0 - 1, s)
      else let s = s\<lparr>curbrk := curbrk s + incr\<rparr> in (curbrk s - incr, s))"

definition wrap_malloc :: "u32 \<Rightarrow> u32 \<Rightarrow> u32 \<Rightarrow> machine \<Rightarrow> u32 \<times> machine" where
  "wrap_malloc lo hi sz s =
     (let (res, s) = wrap_sbrk lo hi sz s in if sint res = -1 then (0, s) else (res, s))"

definition wrap_free :: "u32 \<Rightarrow> machine \<Rightarrow> machine" where
  "wrap_free ptr s = s"

text \<open>A sequence of allocations and the pointers they return.\<close>

fun malloc_all :: "u32 \<Rightarrow> u32 \<Rightarrow> u32 list \<Rightarrow> machine \<Rightarrow> u32 list \<times> machine" where
  "malloc_all lo hi [] s = ([], s)"
| "malloc_all lo hi (sz # szs) s =
     (let (p, s) = wrap_malloc lo hi sz s; (ps, s) = malloc_all lo hi szs s in (p # ps, s))"

section \<open>The invariant of the break\<close>

definition heap_ok :: "u32 \<Rightarrow> u32 \<Rightarrow> machine \<Rightarrow> bool" where
  "heap_ok lo hi s \<longleftrightarrow> lo \<le> curbrk s \<and> curbrk s \<le> hi"

text \<open>A heap of the memory map: above address 0, below the top, smaller than half the address space.\<close>

definition heap_region :: "u32 \<Rightarrow> u32 \<Rightarrow> bool" where
  "heap_region lo hi \<longleftrightarrow> 0 < lo \<and> lo \<le> hi \<and> hi < 0xFFFFFFFF \<and> unat hi - unat lo < 2 ^ 31"

lemma sbrk_heap_ok: "heap_ok lo hi s \<Longrightarrow> heap_ok lo hi (snd (wrap_sbrk lo hi incr s))"
  by (auto simp: heap_ok_def wrap_sbrk_def Let_def)

lemma sbrk_hist [simp]: "hist (snd (wrap_sbrk lo hi incr s)) = hist s"
  by (simp add: wrap_sbrk_def Let_def)

lemma malloc_heap_ok: "heap_ok lo hi s \<Longrightarrow> heap_ok lo hi (snd (wrap_malloc lo hi sz s))"
  using sbrk_heap_ok[of lo hi s sz] by (auto simp: wrap_malloc_def split: prod.splits)

section \<open>Allocation\<close>

lemma sint_minus_one_iff: "sint (p :: u32) = -1 \<longleftrightarrow> p = 0xFFFFFFFF"
proof
  assume "sint p = -1"
  then have "sint p = sint (- 1 :: u32)" by simp
  then show "p = 0xFFFFFFFF" by (simp add: signed_word_eqI)
qed simp

lemma malloc_accepts:
  assumes "lo \<le> curbrk s + n" "curbrk s + n \<le> hi" "curbrk s \<noteq> 0xFFFFFFFF"
  shows "wrap_malloc lo hi n s = (curbrk s, s\<lparr>curbrk := curbrk s + n\<rparr>)"
proof -
  have "wrap_sbrk lo hi n s = (curbrk s, s\<lparr>curbrk := curbrk s + n\<rparr>)"
    using assms(1,2) by (simp add: wrap_sbrk_def not_less[symmetric])
  with assms(3) show ?thesis by (simp add: wrap_malloc_def sint_minus_one_iff)
qed

text \<open>The specification of an allocation of less than 2 GB: refused exactly when the block does not fit.\<close>

definition malloc_spec :: "u32 \<Rightarrow> u32 \<Rightarrow> machine \<Rightarrow> u32 \<times> machine" where
  "malloc_spec hi sz s =
     (if unat (curbrk s) + unat sz \<le> unat hi
      then (curbrk s, s\<lparr>curbrk := curbrk s + sz\<rparr>) else (0, s))"

lemma malloc_eq_spec:
  assumes "heap_region lo hi" "heap_ok lo hi s" "unat sz < 2 ^ 31"
  shows "wrap_malloc lo hi sz s = malloc_spec hi sz s"
proof -
  have r: "unat lo \<le> unat (curbrk s)" "unat (curbrk s) \<le> unat hi" "unat hi < 4294967295"
    "unat hi - unat lo < 2 ^ 31"
    using assms(1,2) by (auto simp: heap_region_def heap_ok_def word_le_nat_alt word_less_nat_alt)
  have ne: "curbrk s \<noteq> 0xFFFFFFFF" using r by auto
  show ?thesis
  proof (cases "unat (curbrk s) + unat sz < 2 ^ 32")
    case True
    then have "unat (curbrk s + sz) = unat (curbrk s) + unat sz"
      by (simp add: unat_plus_no_wrap)
    with r ne show ?thesis
      by (auto simp: wrap_malloc_def wrap_sbrk_def malloc_spec_def Let_def sint_minus_one_iff
          word_less_nat_alt)
  next
    case False
    then have "unat (curbrk s + sz) = unat (curbrk s) + unat sz - 2 ^ 32"
      using unat_plus_if'[of "curbrk s" sz] by simp
    with False r assms(3) have "unat (curbrk s + sz) < unat lo" by simp
    with False r show ?thesis
      by (auto simp: wrap_malloc_def wrap_sbrk_def malloc_spec_def word_less_nat_alt)
  qed
qed

lemma malloc_all_blocks:
  assumes "heap_region lo hi" "\<forall>sz\<in>set szs. unat sz < 2 ^ 31"
  shows "heap_ok lo hi s \<Longrightarrow> malloc_all lo hi szs s = (ps, t) \<Longrightarrow>
    length ps = length szs \<and> heap_ok lo hi t \<and> hist t = hist s
    \<and> (\<forall>i<length ps. ps ! i \<noteq> 0 \<longrightarrow>
         unat (curbrk s) \<le> unat (ps ! i) \<and> unat (ps ! i) + unat (szs ! i) \<le> unat hi
         \<and> (\<forall>j<length ps. i < j \<longrightarrow> ps ! j \<noteq> 0 \<longrightarrow> unat (ps ! i) + unat (szs ! i) \<le> unat (ps ! j)))"
  using assms(2)
proof (induction szs arbitrary: s ps)
  case Nil
  then show ?case by simp
next
  case (Cons sz szs)
  obtain p s1 where m: "wrap_malloc lo hi sz s = (p, s1)" by fastforce
  with Cons.prems obtain qs where qs: "malloc_all lo hi szs s1 = (qs, t)" and ps: "ps = p # qs"
    by (auto split: prod.splits)
  have ok1: "heap_ok lo hi s1" using malloc_heap_ok[OF Cons.prems(1), of sz] m by simp
  have spec: "(p, s1) = malloc_spec hi sz s"
    using malloc_eq_spec[OF assms(1) Cons.prems(1), of sz] m Cons.prems(3) by simp
  have "unat (curbrk s + sz) = unat (curbrk s) + unat sz" if "unat (curbrk s) + unat sz \<le> unat hi"
    using that unat_u32_less[of hi] by (intro unat_plus_no_wrap) simp
  then have low: "unat (curbrk s) \<le> unat (curbrk s1)"
    and first: "p \<noteq> 0 \<Longrightarrow> p = curbrk s \<and> unat p + unat sz = unat (curbrk s1) \<and> unat (curbrk s1) \<le> unat hi"
    and h: "hist s1 = hist s"
    using spec by (auto simp: malloc_spec_def split: if_splits)
  have IH: "length qs = length szs" "heap_ok lo hi t" "hist t = hist s1"
    "\<And>i. i < length qs \<Longrightarrow> qs ! i \<noteq> 0 \<Longrightarrow> unat (curbrk s1) \<le> unat (qs ! i) \<and> unat (qs ! i) + unat (szs ! i) \<le> unat hi
         \<and> (\<forall>j<length qs. i < j \<longrightarrow> qs ! j \<noteq> 0 \<longrightarrow> unat (qs ! i) + unat (szs ! i) \<le> unat (qs ! j))"
    using Cons.IH[OF ok1 qs] Cons.prems(3) by auto
  show ?case
    unfolding ps using IH low first h
    by (auto simp: nth_Cons split: nat.splits) (fastforce dest: IH(4))+
qed

section \<open>Properties\<close>

text \<open>The break never leaves the heap: every \<open>sbrk\<close>, with any increment, keeps it between
  the linker's bounds, and a refused call changes nothing.\<close>

theorem sbrk_keeps_bounds:
  assumes "heap_ok lo hi s"
  shows "heap_ok lo hi (snd (wrap_sbrk lo hi incr s))
    \<and> (fst (wrap_sbrk lo hi incr s) = curbrk s \<or> wrap_sbrk lo hi incr s = (minus_one, s))"
  using sbrk_heap_ok[OF assms] by (auto simp: wrap_sbrk_def minus_one_def)

theorem sbrk_keeps_bounds_witness:
  "heap_ok 0x80001000 0x80003800 (snd (wrap_sbrk 0x80001000 0x80003800 0x100 sample_machine))"
  using sbrk_keeps_bounds[of "0x80001000" "0x80003800" sample_machine "0x100"]
  by (simp add: heap_ok_def sample_machine_def)

text \<open>C21. For requests below 2 GB \<open>malloc\<close> is the reference allocator: the block at the break
  when it fits below the end of the heap, and otherwise a null pointer and no change.\<close>

theorem malloc_is_bump_allocator:
  assumes "heap_region lo hi" "heap_ok lo hi s" "unat sz < 2 ^ 31"
  shows "wrap_malloc lo hi sz s = malloc_spec hi sz s"
  using assms by (rule malloc_eq_spec)

theorem malloc_is_bump_allocator_witness:
  "wrap_malloc 0x80001000 0x80003800 64 sample_machine = malloc_spec 0x80003800 64 sample_machine"
  by (rule malloc_is_bump_allocator)
    (simp_all add: heap_region_def heap_ok_def sample_machine_def word_le_nat_alt word_less_nat_alt)

text \<open>C20. The blocks of any sequence of requests below 2 GB lie inside the heap and do not overlap: a later
  block starts at or above the end of every earlier one.\<close>

theorem malloc_blocks_disjoint:
  assumes "heap_region lo hi" "heap_ok lo hi s" "\<forall>sz\<in>set szs. unat sz < 2 ^ 31"
    and "malloc_all lo hi szs s = (ps, t)" "i < j" "j < length szs" "ps ! i \<noteq> 0" "ps ! j \<noteq> 0"
  shows "unat lo \<le> unat (ps ! i) \<and> unat (ps ! i) + unat (szs ! i) \<le> unat (ps ! j)
    \<and> unat (ps ! j) + unat (szs ! j) \<le> unat hi"
  using malloc_all_blocks[OF assms(1,3,2,4)] assms(2,5-8)
  by (auto simp: heap_ok_def word_le_nat_alt intro: order.trans)

theorem malloc_blocks_disjoint_witness:
  "\<exists>t. heap_region 0x80001000 0x80003800 \<and> heap_ok 0x80001000 0x80003800 sample_machine
    \<and> malloc_all 0x80001000 0x80003800 [16, 8] sample_machine = ([0x80001000, 0x80001010], t)
    \<and> curbrk t = 0x80001018
    \<and> unat (0x80001000 :: u32) \<le> unat ([0x80001000, 0x80001010] ! 0 :: u32)
    \<and> unat ([0x80001000, 0x80001010] ! 0 :: u32) + unat ([16, 8] ! 0 :: u32) \<le> unat ([0x80001000, 0x80001010] ! 1 :: u32)
    \<and> unat ([0x80001000, 0x80001010] ! 1 :: u32) + unat ([16, 8] ! 1 :: u32) \<le> unat (0x80003800 :: u32)"
proof -
  have m: "malloc_all 0x80001000 0x80003800 [16, 8] sample_machine =
      ([0x80001000, 0x80001010], sample_machine\<lparr>curbrk := 0x80001018\<rparr>)"
    by (simp add: wrap_malloc_def wrap_sbrk_def sample_machine_def)
  have r: "heap_region 0x80001000 0x80003800" "heap_ok 0x80001000 0x80003800 sample_machine"
    by (simp_all add: heap_region_def heap_ok_def sample_machine_def word_le_nat_alt word_less_nat_alt)
  have sizes: "\<forall>sz\<in>set [16, 8 :: u32]. unat sz < 2 ^ 31" by simp
  have ij: "(0 :: nat) < 1" "1 < length [16, 8 :: u32]"
    "[0x80001000, 0x80001010 :: u32] ! 0 \<noteq> 0" "[0x80001000, 0x80001010 :: u32] ! 1 \<noteq> 0" by simp_all
  have brk: "curbrk (sample_machine\<lparr>curbrk := 0x80001018\<rparr>) = 0x80001018" by simp
  from malloc_blocks_disjoint[OF r sizes m ij] m r brk show ?thesis by blast
qed

text \<open>A request of 2 GB or more is a negative increment: where the break is far enough up,
  \<open>malloc\<close> accepts it, moves the break down, and hands the same memory out again.\<close>

theorem malloc_huge_reuses_memory:
  assumes "heap_region lo hi" "heap_ok lo hi s" "unat (curbrk s) + unat n \<le> unat hi" "0 < n"
    and "(p, s1) = wrap_malloc lo hi n s"
    and "(q, s2) = wrap_malloc lo hi (- n) s1"
    and "(r, s3) = wrap_malloc lo hi n s2"
  shows "q \<noteq> 0 \<and> r = p \<and> p \<noteq> 0"
proof -
  have lt: "unat (curbrk s + n) = unat (curbrk s) + unat n"
    using assms(3) unat_u32_less[of hi] by (intro unat_plus_no_wrap) simp
  have r: "0 < unat lo" "unat lo \<le> unat (curbrk s)" "unat hi < 4294967295"
    using assms(1,2) by (auto simp: heap_region_def heap_ok_def word_le_nat_alt word_less_nat_alt)
  have neq: "x \<noteq> y" if "unat x \<noteq> unat y" for x y :: u32
    using that by auto
  have ne: "curbrk s \<noteq> 0xFFFFFFFF" "curbrk s \<noteq> 0"
    using r assms(3) by (auto intro!: neq)
  have ne': "curbrk s + n \<noteq> 0xFFFFFFFF" "curbrk s + n \<noteq> 0"
    using lt r assms(3) by (auto intro!: neq simp del: unat_eq_0)
  have up: "lo \<le> curbrk s + n" "curbrk s + n \<le> hi" "lo \<le> curbrk s" "curbrk s \<le> hi"
    using lt r assms(3) by (auto simp: word_le_nat_alt)
  have 1: "p = curbrk s" "s1 = s\<lparr>curbrk := curbrk s + n\<rparr>"
    using assms(5) malloc_accepts[OF up(1,2) ne(1)] by simp_all
  have 2: "q = curbrk s + n" "s2 = s"
    using assms(6) malloc_accepts[of lo s1 "- n" hi] up ne' unfolding 1 by simp_all
  have "r = curbrk s"
    using assms(7) malloc_accepts[OF up(1,2) ne(1)] unfolding 2 by simp
  with 1 2 ne ne' show ?thesis by simp
qed

theorem malloc_huge_reuses_memory_witness:
  "let (p, s1) = wrap_malloc 0x80001000 0x80003800 16 sample_machine;
       (q, s2) = wrap_malloc 0x80001000 0x80003800 (- 16) s1;
       (r, s3) = wrap_malloc 0x80001000 0x80003800 16 s2
   in q \<noteq> 0 \<and> r = p \<and> p \<noteq> 0"
proof -
  let ?s = sample_machine and ?t = "sample_machine\<lparr>curbrk := 0x80001010\<rparr>"
  have 1: "wrap_malloc 0x80001000 0x80003800 16 ?s = (0x80001000, ?t)"
    by (simp add: wrap_malloc_def wrap_sbrk_def sample_machine_def)
  have 2: "wrap_malloc 0x80001000 0x80003800 (- 16) ?t = (0x80001010, ?s)"
    by (simp add: wrap_malloc_def wrap_sbrk_def sample_machine_def)
  have "heap_region 0x80001000 0x80003800" "heap_ok 0x80001000 0x80003800 ?s"
    "unat (curbrk ?s) + unat (16 :: u32) \<le> unat (0x80003800 :: u32)" "0 < (16 :: u32)"
    by (simp_all add: heap_region_def heap_ok_def sample_machine_def)
  from malloc_huge_reuses_memory[OF this 1[symmetric] 2[symmetric] 1[symmetric]]
  show ?thesis by (simp only: 1 2 Let_def prod.case) simp
qed

end
