(* ===== verification/Linker.thy ===== *)
theory Linker
  imports Startup Heap Board
begin

text \<open>
  The memory layout of a firmware image. The linker scripts \<open>flash.lds\<close> and \<open>dhrystone.lds\<close> are lists
  of commands, translated line by line, and the part of the linker language they use is an interpreter, with
  the behaviour the GNU linker documents.
  What the compiler produces is a parameter, \<open>inputs\<close>: for every pattern of input sections the sizes
  and alignments of the sections it collects. The image gives the addresses that \<open>_start\<close>, the heap and the
  stacks of the harts work with.
\<close>

section \<open>The linker language\<close>

datatype region = Flash | Ram

datatype symbol = Uu_etext | U_etext | Etext
  | Preinit_array_start | Preinit_array_end | Init_array_start | Init_array_end | Fini_array_start | Fini_array_end
  | U_data_lma | U_data | Global_pointer | U_edata | Edata | U_fbss | Uu_bss_start | U_end | End
  | U_heap_end | U_sp

datatype sect = S_init | S_text | S_fini | S_rodata | S_preinit_array | S_init_array | S_fini_array
  | S_ctors | S_dtors | S_lalign | S_dalign | S_data | S_bss | S_stack

text \<open>
  Inside a section: \<open>. = ALIGN(n)\<close>, \<open>. = n\<close> (counted from the start of the section),
  \<open>PROVIDE(s = . + n)\<close>, and a pattern of input sections. \<open>KEEP\<close> and the sorting functions select and order the
  input sections, which is part of the parameter.
\<close>

datatype stmt = Dot_align nat | Dot_to nat | Provide symbol nat | Input string

text \<open>
  At the top level: \<open>. = ALIGN(n)\<close>, \<open>PROVIDE(s = .)\<close>, and an output section with an optional address, its
  region, the region of its load address, and its statements.
\<close>

datatype command = Align nat | Define symbol | Place sect "nat option" region region "stmt list"

text \<open>The \<open>MEMORY\<close> block, the same in both scripts.\<close>

fun origin :: "region \<Rightarrow> nat" where
  "origin Flash = 0x20400000"
| "origin Ram = 0x80000000"

fun extent :: "region \<Rightarrow> nat" where
  "extent Flash = 512 * 1024 * 1024"
| "extent Ram = 16 * 1024"

type_synonym inputs = "string \<Rightarrow> (nat \<times> nat) list"

record placement =
  sect :: sect
  vma :: nat
  lma :: nat
  bytes :: nat

record image =
  dot :: nat
  free :: "region \<Rightarrow> nat"
  symtab :: "symbol \<Rightarrow> nat option"
  placed :: "placement list"

definition align_up :: "nat \<Rightarrow> nat \<Rightarrow> nat" where
  "align_up n a = (a + n - 1) div n * n"

text \<open>Each input section is aligned and follows the one before it.\<close>

fun append_inputs :: "(nat \<times> nat) list \<Rightarrow> nat \<Rightarrow> nat" where
  "append_inputs [] d = d"
| "append_inputs ((n, a) # xs) d = append_inputs xs (align_up a d + n)"

fun run_stmt :: "inputs \<Rightarrow> nat \<Rightarrow> stmt \<Rightarrow> nat \<times> (symbol \<Rightarrow> nat option) \<Rightarrow> nat \<times> (symbol \<Rightarrow> nat option)" where
  "run_stmt inp start (Dot_align n) (d, t) = (align_up n d, t)"
| "run_stmt inp start (Dot_to n) (d, t) = (start + n, t)"
| "run_stmt inp start (Provide s n) (d, t) = (d, t(s \<mapsto> d + n))"
| "run_stmt inp start (Input p) (d, t) = (append_inputs (inp p) d, t)"

text \<open>An output section is aligned as the strictest of its input sections.\<close>

fun alignments :: "inputs \<Rightarrow> stmt \<Rightarrow> nat list" where
  "alignments inp (Input p) = map snd (inp p)"
| "alignments inp _ = []"

definition section_align :: "inputs \<Rightarrow> stmt list \<Rightarrow> nat" where
  "section_align inp ss = fold max (concat (map (alignments inp) ss)) 1"

text \<open>
  A command. Without an address a section starts at the next free address of its region, aligned;
  assignments to \<open>.\<close> between sections do not move that address. Its load address is the next free one of the
  load region, or its address if the two regions are the same. A section that does not fit its regions is an
  error.
\<close>

fun run_command :: "inputs \<Rightarrow> command \<Rightarrow> image \<Rightarrow> image option" where
  "run_command inp (Align n) m = Some (m\<lparr>dot := align_up n (dot m)\<rparr>)"
| "run_command inp (Define s) m = Some (m\<lparr>symtab := (symtab m)(s \<mapsto> dot m)\<rparr>)"
| "run_command inp (Place s addr r l ss) m =
    (let start = (case addr of None \<Rightarrow> align_up (section_align inp ss) (free m r) | Some a \<Rightarrow> a);
         (d, t) = fold (run_stmt inp start) ss (start, symtab m);
         n = d - start;
         load = (if l = r then start else free m l);
         m' = m\<lparr>dot := d, free := (free m)(r := d), symtab := t,
                placed := placed m @ [\<lparr>sect = s, vma = start, lma = load, bytes = n\<rparr>]\<rparr>
     in if start < origin r \<or> origin r + extent r < d then None
        else if l = r then Some m'
        else if origin l + extent l < load + n then None
        else Some (m'\<lparr>free := (free m')(l := load + n)\<rparr>))"

fun run_commands :: "inputs \<Rightarrow> command list \<Rightarrow> image \<Rightarrow> image option" where
  "run_commands inp [] m = Some m"
| "run_commands inp (c # cs) m = do { m \<leftarrow> run_command inp c m; run_commands inp cs m }"

definition overlap_free :: "placement list \<Rightarrow> bool" where
  "overlap_free = sorted_wrt (\<lambda>p q. bytes p = 0 \<or> bytes q = 0 \<or> vma p + bytes p \<le> vma q \<or> vma q + bytes q \<le> vma p)"

definition link_image :: "inputs \<Rightarrow> command list \<Rightarrow> image option" where
  "link_image inp script =
     do { m \<leftarrow> run_commands inp script \<lparr>dot = 0, free = origin, symtab = (\<lambda>_. None), placed = []\<rparr>;
          if overlap_free (placed m) then Some m else None }"

section \<open>The scripts\<close>

definition stack_size :: "nat option \<Rightarrow> nat" where
  "stack_size defined = (case defined of Some n \<Rightarrow> n | None \<Rightarrow> 2 * 1024)"

definition code_sections :: "command list" where
  "code_sections =
    [Place S_init None Flash Flash [Input ''.init''],
     Place S_text None Flash Flash
       [Input ''.text.unlikely .text.unlikely.*'', Input ''.text.startup .text.startup.*'',
        Input ''.text .text.*'', Input ''.gnu.linkonce.t.*''],
     Place S_fini None Flash Flash [Input ''.fini''],
     Define Uu_etext, Define U_etext, Define Etext]"

definition rodata_section :: "command list" where
  "rodata_section =
    [Place S_rodata None Flash Flash [Input ''.rdata'', Input ''.rodata .rodata.*'', Input ''.gnu.linkonce.r.*'']]"

definition array_sections :: "command list" where
  "array_sections =
    [Align 4,
     Place S_preinit_array None Flash Flash
       [Provide Preinit_array_start 0, Input ''.preinit_array'', Provide Preinit_array_end 0],
     Place S_init_array None Flash Flash
       [Provide Init_array_start 0, Input ''.init_array.* .ctors.*'', Input ''.init_array .ctors'',
        Provide Init_array_end 0],
     Place S_fini_array None Flash Flash
       [Provide Fini_array_start 0, Input ''.fini_array.* .dtors.*'', Input ''.fini_array .dtors'',
        Provide Fini_array_end 0],
     Place S_ctors None Flash Flash
       [Input ''*crtbegin.o(.ctors)'', Input ''*crtbegin?.o(.ctors)'',
        Input ''*(EXCLUDE_FILE (*crtend.o *crtend?.o ) .ctors)'', Input ''*(SORT(.ctors.*))'', Input ''*(.ctors)''],
     Place S_dtors None Flash Flash
       [Input ''*crtbegin.o(.dtors)'', Input ''*crtbegin?.o(.dtors)'',
        Input ''*(EXCLUDE_FILE (*crtend.o *crtend?.o ) .dtors)'', Input ''*(SORT(.dtors.*))'', Input ''*(.dtors)'']]"

definition data_inputs :: "stmt list" where
  "data_inputs =
    [Input ''.data .data.*'', Input ''.gnu.linkonce.d.*'',
     Dot_align 8, Provide Global_pointer 0x800,
     Input ''.sdata .sdata.*'', Input ''.gnu.linkonce.s.*'',
     Dot_align 8,
     Input ''.srodata.cst16'', Input ''.srodata.cst8'', Input ''.srodata.cst4'', Input ''.srodata.cst2'',
     Input ''.srodata .srodata.*'']"

definition bss_inputs :: "stmt list" where
  "bss_inputs =
    [Input ''.sbss*'', Input ''.gnu.linkonce.sb.*'', Input ''.bss .bss.*'', Input ''.gnu.linkonce.b.*'',
     Input ''COMMON'', Dot_align 4]"

text \<open>From \<open>.lalign\<close> to \<open>.stack\<close>; \<open>data\<close> is the body of \<open>.data\<close>.\<close>

definition memory_sections :: "nat \<Rightarrow> stmt list \<Rightarrow> command list" where
  "memory_sections stack data =
    [Place S_lalign None Flash Flash [Dot_align 4, Provide U_data_lma 0],
     Place S_dalign None Ram Flash [Dot_align 4, Provide U_data 0],
     Place S_data None Ram Flash data,
     Align 4,
     Define U_edata, Define Edata,
     Define U_fbss, Define Uu_bss_start,
     Place S_bss None Ram Ram bss_inputs,
     Align 8,
     Define U_end, Define End,
     Place S_stack (Some (origin Ram + extent Ram - stack)) Ram Ram
       [Provide U_heap_end 0, Dot_to stack, Provide U_sp 0]]"

definition flash_lds :: "nat \<Rightarrow> command list" where
  "flash_lds stack = code_sections @ rodata_section @ array_sections @ memory_sections stack data_inputs"

definition dhrystone_lds :: "nat \<Rightarrow> command list" where
  "dhrystone_lds stack = code_sections @ array_sections @ memory_sections stack
     ([Input ''.rdata'', Input ''.rodata .rodata.*'', Input ''.gnu.linkonce.r.*''] @ data_inputs)"

section \<open>Alignment\<close>

lemma align_up_bounds: "0 < n \<Longrightarrow> a \<le> align_up n a" "0 < n \<Longrightarrow> align_up n a < a + n" "n dvd align_up n a"
proof -
  show "n dvd align_up n a" by (simp add: align_up_def)
  assume n: "0 < n"
  have "align_up n a + (a + n - 1) mod n = a + n - 1" by (simp add: align_up_def)
  moreover have "(a + n - 1) mod n < n" using n by simp
  ultimately show "a \<le> align_up n a" "align_up n a < a + n" using n by linarith+
qed

lemma align_up_dvd: "0 < n \<Longrightarrow> n dvd a \<Longrightarrow> align_up n a = a"
proof (elim dvdE)
  fix k assume n: "0 < n" and a: "a = n * k"
  have "(n * k + r) div n = k" if "r < n" for r using that by simp
  from this[of "n - 1"] have "(n * k + (n - 1)) div n = k" using n by simp
  moreover have "n * k + n - 1 = n * k + (n - 1)" using n by simp
  ultimately show "align_up n a = a" by (simp add: align_up_def a mult.commute)
qed

section \<open>Sections grow\<close>

lemma append_inputs_le: "\<forall>(n, a) \<in> set xs. 0 < a \<Longrightarrow> d \<le> append_inputs xs d"
proof (induction xs d rule: append_inputs.induct)
  case (2 n a xs d)
  then have "0 < a" "align_up a d + n \<le> append_inputs xs (align_up a d + n)" by auto
  with align_up_bounds(1)[of a d] show ?case by simp
qed simp

definition aligned_inputs :: "inputs \<Rightarrow> bool" where
  "aligned_inputs inp \<longleftrightarrow> (\<forall>p. \<forall>(n, a) \<in> set (inp p). \<exists>k\<le>31. a = 2 ^ k)"

text \<open>Statements that do not move the location counter backwards.\<close>

fun forward :: "stmt \<Rightarrow> bool" where
  "forward (Dot_align n) = (0 < n)"
| "forward (Dot_to n) = False"
| "forward _ = True"

lemma run_stmt_le:
  assumes "aligned_inputs inp" "forward c"
  shows "d \<le> fst (run_stmt inp start c (d, t))"
proof (cases c)
  case (Input p)
  then show ?thesis using assms(1) append_inputs_le[of "inp p" d] by (force simp: aligned_inputs_def)
qed (use assms(2) align_up_bounds(1) in auto)

lemma run_stmts_le:
  assumes "aligned_inputs inp"
  shows "list_all forward ss \<Longrightarrow> d \<le> fst (fold (run_stmt inp start) ss (d, t))"
proof (induction ss arbitrary: d t)
  case (Cons c ss)
  obtain d' t' where r: "run_stmt inp start c (d, t) = (d', t')" by fastforce
  with run_stmt_le[OF assms, of c d start t] Cons.prems have "d \<le> d'" by simp
  with Cons.IH[of d' t'] Cons.prems r show ?case by (auto intro: order.trans)
qed simp

text \<open>The alignment of a section is a power of two.\<close>

lemma fold_max_power:
  "\<forall>a \<in> set as. a \<in> powers \<Longrightarrow> x \<in> powers \<Longrightarrow> fold max as x \<in> powers"
  by (induction as arbitrary: x) (simp_all add: max_def)

lemma section_align_power:
  assumes "aligned_inputs inp"
  obtains k where "k \<le> 31" "section_align inp ss = 2 ^ k"
proof -
  have "a \<in> {2 ^ k |k. k \<le> 31}" if "a \<in> set (concat (map (alignments inp) ss))" for a
  proof -
    from that obtain c where "a \<in> set (alignments inp c)" by auto
    then show ?thesis using assms by (cases c) (fastforce simp: aligned_inputs_def)+
  qed
  then have "section_align inp ss \<in> {2 ^ k |k. k \<le> 31}"
    unfolding section_align_def by (intro fold_max_power) (auto intro: exI[of _ 0])
  with that show ?thesis by auto
qed

section \<open>The sections of the flash\<close>

text \<open>Before \<open>.lalign\<close> everything is in the flash and runs where it is loaded.\<close>

fun in_flash :: "command \<Rightarrow> bool" where
  "in_flash (Place s addr r l ss) \<longleftrightarrow> addr = None \<and> r = Flash \<and> l = Flash \<and> list_all forward ss
     \<and> s \<notin> {S_data, S_bss, S_stack}"
| "in_flash _ = True"

definition flash_only :: "image \<Rightarrow> bool" where
  "flash_only m \<longleftrightarrow> free m Ram = origin Ram \<and> origin Flash \<le> free m Flash \<and> free m Flash \<le> origin Flash + extent Flash
     \<and> (\<forall>p \<in> set (placed m). sect p \<notin> {S_data, S_bss, S_stack} \<and> lma p = vma p \<and> origin Flash \<le> vma p \<and> vma p + bytes p \<le> free m Flash)"

text \<open>A placed section in one equation.\<close>

definition start_of :: "inputs \<Rightarrow> nat option \<Rightarrow> region \<Rightarrow> stmt list \<Rightarrow> image \<Rightarrow> nat" where
  "start_of inp addr r ss m = (case addr of None \<Rightarrow> align_up (section_align inp ss) (free m r) | Some a \<Rightarrow> a)"

definition put_section :: "sect \<Rightarrow> region \<Rightarrow> region \<Rightarrow> nat \<Rightarrow> nat \<Rightarrow> (symbol \<Rightarrow> nat option) \<Rightarrow> image \<Rightarrow> image" where
  "put_section s r l b d t m = m\<lparr>dot := d,
     free := (if l = r then (free m)(r := d) else (free m)(r := d, l := free m l + (d - b))), symtab := t,
     placed := placed m @ [\<lparr>sect = s, vma = b, lma = (if l = r then b else free m l), bytes = d - b\<rparr>]\<rparr>"

lemma run_place:
  assumes "start_of inp addr r ss m = b" "fold (run_stmt inp b) ss (b, symtab m) = (d, t)"
  shows "run_command inp (Place s addr r l ss) m = Some m' \<longleftrightarrow>
    origin r \<le> b \<and> d \<le> origin r + extent r \<and> (l \<noteq> r \<longrightarrow> free m l + (d - b) \<le> origin l + extent l)
    \<and> m' = put_section s r l b d t m"
  using assms by (auto simp: start_of_def put_section_def Let_def not_less)

lemma flash_only_step:
  assumes "aligned_inputs inp" "in_flash c" "run_command inp c m = Some m'" "flash_only m"
  shows "flash_only m'"
proof (cases c)
  case (Place s addr r l ss)
  with assms(2) have c: "c = Place s None Flash Flash ss" "list_all forward ss" "s \<notin> {S_data, S_bss, S_stack}" by auto
  obtain k where k: "section_align inp ss = 2 ^ k" using section_align_power[OF assms(1)] by blast
  define b where "b = align_up (2 ^ k) (free m Flash)"
  obtain d t where f: "fold (run_stmt inp b) ss (b, symtab m) = (d, t)" by fastforce
  have b: "free m Flash \<le> b" "b \<le> d"
    using align_up_bounds(1)[of "2 ^ k"] run_stmts_le[OF assms(1) c(2), of b b "symtab m"] f by (simp_all add: b_def)
  have "d \<le> origin Flash + extent Flash" "m' = put_section s Flash Flash b d t m"
    using run_place[OF _ f, of None Flash, THEN iffD1] assms(3) by (simp_all only: c start_of_def k option.case b_def)
  then show ?thesis
    using assms(4) b c(3) by (auto simp: put_section_def flash_only_def)
qed (use assms in \<open>auto simp: flash_only_def\<close>)

lemma flash_only_run:
  "aligned_inputs inp \<Longrightarrow> list_all in_flash cs \<Longrightarrow> run_commands inp cs m = Some m' \<Longrightarrow> flash_only m \<Longrightarrow> flash_only m'"
  by (induction cs arbitrary: m) (auto simp: bind_eq_Some_conv intro: flash_only_step)

lemma run_commands_append:
  "run_commands inp (cs @ ds) m = do { m \<leftarrow> run_commands inp cs m; run_commands inp ds m }"
  by (induction cs arbitrary: m) (auto split: bind_splits)

section \<open>The sections of the RAM\<close>

fun provided :: "stmt \<Rightarrow> symbol set" where
  "provided (Provide s _) = {s}"
| "provided _ = {}"

lemma run_stmts_symtab:
  "\<forall>c \<in> set ss. s \<notin> provided c \<Longrightarrow> snd (fold (run_stmt inp b) ss (d, t)) s = t s"
proof (induction ss arbitrary: d t)
  case (Cons c ss)
  then show ?case by (cases c) auto
qed simp

lemma run_stmts_provides:
  "t s \<noteq> None \<or> (\<exists>c \<in> set ss. s \<in> provided c) \<Longrightarrow> snd (fold (run_stmt inp b) ss (d, t)) s \<noteq> None"
proof (induction ss arbitrary: d t)
  case (Cons c ss)
  obtain d' t' where r: "run_stmt inp b c (d, t) = (d', t')" by fastforce
  with Cons.prems have "t' s \<noteq> None \<or> (\<exists>c \<in> set ss. s \<in> provided c)" by (cases c) auto
  then have "snd (fold (run_stmt inp b) ss (d', t')) s \<noteq> None" by (rule Cons.IH)
  with r show ?case by simp
qed simp

lemma align_up_1 [simp]: "align_up (Suc 0) a = a"
  by (simp add: align_up_def)

lemma ram_aligned: "k \<le> 31 \<Longrightarrow> align_up (2 ^ k) 0x80000000 = 0x80000000"
proof (rule align_up_dvd)
  assume "k \<le> 31"
  then have "(2 :: nat) ^ k dvd 2 ^ 31" by (rule le_imp_power_dvd)
  then show "2 ^ k dvd (0x80000000 :: nat)" by simp
qed simp

text \<open>
  What \<open>.lalign\<close> to \<open>.stack\<close> do, from an image that has used the flash alone: \<open>e\<close> is the end of \<open>.data\<close>,
  \<open>b\<close> and \<open>z\<close> are the bounds of \<open>.bss\<close>.
\<close>

definition memory_layout :: "inputs \<Rightarrow> nat \<Rightarrow> image \<Rightarrow> image \<Rightarrow> nat \<Rightarrow> nat \<Rightarrow> nat \<Rightarrow> bool" where
  "memory_layout inp stack m m' e b z \<longleftrightarrow>
     (let l = align_up 4 (free m Flash); sp = origin Ram + extent Ram in
      placed m' = placed m @
       [\<lparr>sect = S_lalign, vma = free m Flash, lma = free m Flash, bytes = l - free m Flash\<rparr>,
        \<lparr>sect = S_dalign, vma = origin Ram, lma = l, bytes = 0\<rparr>,
        \<lparr>sect = S_data, vma = origin Ram, lma = l, bytes = e - origin Ram\<rparr>,
        \<lparr>sect = S_bss, vma = b, lma = b, bytes = z - b\<rparr>,
        \<lparr>sect = S_stack, vma = sp - stack, lma = sp - stack, bytes = stack\<rparr>]
      \<and> symtab m' U_data_lma = Some l \<and> symtab m' U_data = Some (origin Ram)
      \<and> symtab m' U_edata = Some (align_up 4 e) \<and> symtab m' Uu_bss_start = Some (align_up 4 e)
      \<and> symtab m' U_end = Some (align_up 8 z) \<and> symtab m' U_heap_end = Some (sp - stack) \<and> symtab m' U_sp = Some sp
      \<and> origin Ram \<le> e \<and> e \<le> b \<and> b \<le> z \<and> z \<le> sp \<and> 4 dvd z \<and> stack \<le> extent Ram
      \<and> l + (e - origin Ram) \<le> origin Flash + extent Flash \<and> symtab m' Global_pointer \<noteq> None
      \<and> b = align_up (section_align inp bss_inputs) e)"

lemma run_then:
  "run_commands inp (c # cs) m = Some m' \<Longrightarrow> (\<And>n. run_command inp c m = Some n \<longleftrightarrow> P \<and> n = m1)
     \<Longrightarrow> P \<and> run_commands inp cs m1 = Some m'"
  by (auto simp only: run_commands.simps bind_eq_Some_conv)

lemma memory_sections_layout:
  assumes inp: "aligned_inputs inp" and data: "list_all forward data" "\<forall>c \<in> set data. provided c \<subseteq> {Global_pointer}"
    and gp: "Provide Global_pointer 0x800 \<in> set data"
    and run: "run_commands inp (memory_sections stack data) m = Some m'" and m: "flash_only m"
  shows "\<exists>e b z. memory_layout inp stack m m' e b z \<and> (\<exists>k\<le>31. section_align inp data = 2 ^ k)"
proof -
  let ?l = "align_up 4 (free m Flash)" and ?sp = "origin Ram + extent Ram"
  let ?t1 = "(symtab m)(U_data_lma \<mapsto> ?l)"
  define m1 where "m1 = put_section S_lalign Flash Flash (free m Flash) ?l ?t1 m"
  define m2 where "m2 = put_section S_dalign Ram Flash (origin Ram) (origin Ram) (?t1(U_data \<mapsto> origin Ram)) m1"
  have fm: "free m Ram = origin Ram" using m by (simp add: flash_only_def)
  have f1: "free m1 Ram = origin Ram" "free m1 Flash = ?l" "symtab m1 = ?t1"
    using fm by (simp_all add: m1_def put_section_def)
  have f2: "free m2 Ram = origin Ram" "free m2 Flash = ?l" "symtab m2 = ?t1(U_data \<mapsto> origin Ram)"
    using f1 by (simp_all add: m2_def put_section_def)
  have r2: "align_up 4 (origin Ram) = origin Ram" using ram_aligned[of 2] by simp
  have p1: "run_command inp (Place S_lalign None Flash Flash [Dot_align 4, Provide U_data_lma 0]) m = Some n
      \<longleftrightarrow> (origin Flash \<le> free m Flash \<and> ?l \<le> origin Flash + extent Flash) \<and> n = m1" for n
    unfolding m1_def by (subst run_place[where b = "free m Flash" and d = ?l and t = ?t1])
      (simp_all add: start_of_def section_align_def)
  have p2: "run_command inp (Place S_dalign None Ram Flash [Dot_align 4, Provide U_data 0]) m1 = Some n
      \<longleftrightarrow> ?l \<le> origin Flash + extent Flash \<and> n = m2" for n
    unfolding m2_def by (subst run_place[where b = "origin Ram" and d = "origin Ram" and t = "?t1(U_data \<mapsto> origin Ram)"])
      (simp_all add: start_of_def section_align_def f1 r2 del: origin.simps extent.simps)
  obtain k where k: "k \<le> 31" "section_align inp data = 2 ^ k" using section_align_power[OF inp] by blast
  obtain e t3 where d3: "fold (run_stmt inp (origin Ram)) data (origin Ram, symtab m2) = (e, t3)" by fastforce
  define m3 where "m3 = put_section S_data Ram Flash (origin Ram) e t3 m2"
  have e: "origin Ram \<le> e" using run_stmts_le[OF inp data(1), of "origin Ram" "origin Ram" "symtab m2"] d3 by simp
  have b3: "start_of inp None Ram data m2 = origin Ram"
    using ram_aligned[OF k(1)] by (simp add: start_of_def f2 k(2))
  have p3: "run_command inp (Place S_data None Ram Flash data) m2 = Some n
      \<longleftrightarrow> (e \<le> ?sp \<and> ?l + (e - origin Ram) \<le> origin Flash + extent Flash) \<and> n = m3" for n
    unfolding m3_def run_place[OF b3 d3] by (simp add: f2)
  have t3: "t3 U_data_lma = Some ?l" "t3 U_data = Some (origin Ram)"
  proof -
    have "t3 s = symtab m2 s" if "s \<noteq> Global_pointer" for s
      using run_stmts_symtab[of data s inp "origin Ram" "origin Ram" "symtab m2"] data(2) that d3 by auto
    then show "t3 U_data_lma = Some ?l" "t3 U_data = Some (origin Ram)" by (simp_all add: f2)
  qed
  have gp3: "t3 Global_pointer \<noteq> None"
    using run_stmts_provides[of "symtab m2" Global_pointer data inp "origin Ram" "origin Ram"] gp d3 by force
  define m4 where "m4 = m3\<lparr>dot := align_up 4 e, symtab := t3(U_edata \<mapsto> align_up 4 e, Edata \<mapsto> align_up 4 e,
     U_fbss \<mapsto> align_up 4 e, Uu_bss_start \<mapsto> align_up 4 e)\<rparr>"
  have p4: "run_commands inp (Align 4 # Define U_edata # Define Edata # Define U_fbss # Define Uu_bss_start # cs) m3
      = run_commands inp cs m4" for cs
    by (simp add: m4_def m3_def put_section_def)
  have f4: "free m4 Ram = e" "symtab m4 = t3(U_edata \<mapsto> align_up 4 e, Edata \<mapsto> align_up 4 e,
     U_fbss \<mapsto> align_up 4 e, Uu_bss_start \<mapsto> align_up 4 e)"
    by (simp_all add: m4_def m3_def put_section_def)
  let ?bss = bss_inputs
  obtain j where j: "section_align inp ?bss = 2 ^ j" using section_align_power[OF inp] by blast
  define b where "b = align_up (2 ^ j) e"
  obtain z t5 where d5: "fold (run_stmt inp b) ?bss (b, symtab m4) = (z, t5)" by fastforce
  have b5: "start_of inp None Ram ?bss m4 = b" by (simp add: start_of_def j f4 b_def)
  have bz: "e \<le> b" "b \<le> z" "4 dvd z"
    using align_up_bounds(1)[of "2 ^ j" e] run_stmts_le[OF inp, of ?bss b b "symtab m4"] d5 align_up_bounds(3)[of 4]
    by (auto simp: b_def bss_inputs_def)
  define m5 where "m5 = put_section S_bss Ram Ram b z t5 m4"
  have p5: "run_command inp (Place S_bss None Ram Ram ?bss) m4 = Some n \<longleftrightarrow> (origin Ram \<le> b \<and> z \<le> ?sp) \<and> n = m5" for n
    unfolding m5_def run_place[OF b5 d5] by simp
  have t5: "t5 = symtab m4" using d5 by (auto simp: bss_inputs_def)
  define m6 where "m6 = m5\<lparr>dot := align_up 8 z, symtab := t5(U_end \<mapsto> align_up 8 z, End \<mapsto> align_up 8 z)\<rparr>"
  have p6: "run_commands inp (Align 8 # Define U_end # Define End # cs) m5 = run_commands inp cs m6" for cs
    by (simp add: m6_def m5_def put_section_def)
  let ?t7 = "(symtab m6)(U_heap_end \<mapsto> ?sp - stack, U_sp \<mapsto> ?sp - stack + stack)"
  have p7: "run_command inp (Place S_stack (Some (?sp - stack)) Ram Ram
        [Provide U_heap_end 0, Dot_to stack, Provide U_sp 0]) m6 = Some n
      \<longleftrightarrow> (origin Ram \<le> ?sp - stack \<and> ?sp - stack + stack \<le> ?sp)
        \<and> n = put_section S_stack Ram Ram (?sp - stack) (?sp - stack + stack) ?t7 m6" for n
    by (subst run_place[where b = "?sp - stack" and d = "?sp - stack + stack" and t = ?t7]) (simp_all add: start_of_def)
  note a1 = run_then[OF run[unfolded memory_sections_def] p1]
  note a2 = run_then[OF a1[THEN conjunct2] p2]
  note a3 = run_then[OF a2[THEN conjunct2] p3]
  note a5 = run_then[OF a3[THEN conjunct2, unfolded p4] p5]
  note a7 = run_then[OF a5[THEN conjunct2, unfolded p6] p7]
  have final: "?l + (e - origin Ram) \<le> origin Flash + extent Flash" "z \<le> ?sp" "stack \<le> extent Ram"
    "m' = put_section S_stack Ram Ram (?sp - stack) (?sp - stack + stack) ?t7 m6"
    using a3 a5 a7 by auto
  have "memory_layout inp stack m m' e b z"
    unfolding memory_layout_def Let_def
    using final bz e t3 gp3 by (auto simp: m6_def m5_def m4_def m3_def m2_def m1_def put_section_def t5 f4 f2 fm b_def j)
  with k show ?thesis by blast
qed

section \<open>Images\<close>

definition scripts :: "nat \<Rightarrow> command list list" where
  "scripts stack = [flash_lds stack, dhrystone_lds stack]"

text \<open>The stack size is a multiple of 8 and of the alignments of the inputs.\<close>

definition stack_aligned :: "nat \<Rightarrow> inputs \<Rightarrow> bool" where
  "stack_aligned stack inp \<longleftrightarrow> 8 dvd stack \<and> (\<forall>p. \<forall>(n, a) \<in> set (inp p). a dvd stack)"

definition address_of :: "image \<Rightarrow> symbol \<Rightarrow> nat" where
  "address_of im s = the (symtab im s)"

text \<open>The symbols that \<open>start.S\<close> uses; the trap vector and \<open>__libc_fini_array\<close> are functions.\<close>

definition image_symbols :: "u32 \<Rightarrow> u32 \<Rightarrow> image \<Rightarrow> symbols" where
  "image_symbols tv fini im = \<lparr>global_pointer = of_nat (address_of im Global_pointer), stack_top = of_nat (address_of im U_sp),
     trap_vector = tv, data_lma = of_nat (address_of im U_data_lma), data_start = of_nat (address_of im U_data),
     data_end = of_nat (address_of im U_edata), bss_start = of_nat (address_of im Uu_bss_start), bss_end = of_nat (address_of im U_end),
     libc_fini_array = fini\<rparr>"

lemma align_up_least: "0 < n \<Longrightarrow> n dvd x \<Longrightarrow> a \<le> x \<Longrightarrow> align_up n a \<le> x"
proof -
  assume n: "0 < n" "n dvd x" "a \<le> x"
  show "align_up n a \<le> x"
  proof (rule ccontr)
    assume "\<not> align_up n a \<le> x"
    then have "0 < align_up n a - x" "align_up n a - x < n" using align_up_bounds(2)[of n a] n by linarith+
    moreover have "n dvd align_up n a - x" using n(2) align_up_bounds(3) by (rule dvd_diff_nat[rotated])
    ultimately show False by (meson dvd_imp_le not_less)
  qed
qed

lemma section_align_dvd:
  assumes "stack_aligned stack inp"
  shows "section_align inp ss dvd stack"
proof -
  have "a \<in> {a. a dvd stack}" if "a \<in> set (concat (map (alignments inp) ss))" for a
  proof -
    from that obtain c where "a \<in> set (alignments inp c)" by auto
    then show ?thesis using assms by (cases c) (fastforce simp: stack_aligned_def)+
  qed
  then have "section_align inp ss \<in> {a. a dvd stack}" unfolding section_align_def by (intro fold_max_power) auto
  then show ?thesis by simp
qed

text \<open>Every image of the scripts consists of a flash part and the layout of the RAM.\<close>

lemma image_layout:
  assumes "aligned_inputs inp" "script \<in> set (scripts stack)" "link_image inp script = Some im"
  obtains m e b z where "flash_only m" "memory_layout inp stack m im e b z" "overlap_free (placed im)"
proof -
  obtain head data where s: "script = head @ memory_sections stack data" "list_all in_flash head"
    "list_all forward data" "\<forall>c \<in> set data. provided c \<subseteq> {Global_pointer}" "Provide Global_pointer 0x800 \<in> set data"
    using assms(2)
  proof (cases "script = flash_lds stack")
    case True
    then show ?thesis
      by (intro that[of "code_sections @ rodata_section @ array_sections" data_inputs])
        (simp_all add: flash_lds_def code_sections_def rodata_section_def array_sections_def data_inputs_def)
  next
    case False
    with assms(2) have "script = dhrystone_lds stack" by (simp add: scripts_def)
    then show ?thesis
      by (intro that[of "code_sections @ array_sections"
            "[Input ''.rdata'', Input ''.rodata .rodata.*'', Input ''.gnu.linkonce.r.*''] @ data_inputs"])
        (simp_all add: dhrystone_lds_def code_sections_def array_sections_def data_inputs_def)
  qed
  let ?m0 = "\<lparr>dot = 0, free = origin, symtab = (\<lambda>_. None), placed = []\<rparr>"
  from assms(3) obtain m where m: "run_commands inp head ?m0 = Some m"
    "run_commands inp (memory_sections stack data) m = Some im" and o: "overlap_free (placed im)"
    by (auto simp: link_image_def s(1) run_commands_append bind_eq_Some_conv split: if_splits)
  have "flash_only ?m0" by (simp add: flash_only_def)
  from flash_only_run[OF assms(1) s(2) m(1) this] have f: "flash_only m" .
  from memory_sections_layout[OF assms(1) s(3-5) m(2) f] that f o show ?thesis by blast
qed

lemma image_fits:
  assumes inp: "aligned_inputs inp" "stack_aligned stack inp" and m: "flash_only m"
    and lay: "memory_layout inp stack m im e b z" and o: "overlap_free (placed im)"
  shows "b \<le> origin Ram + extent Ram - stack" "z \<le> origin Ram + extent Ram - stack"
    "align_up 4 e \<le> z" "align_up 8 z \<le> origin Ram + extent Ram - stack"
proof -
  let ?top = "origin Ram + extent Ram" let ?heap = "?top - stack" let ?a = "section_align inp bss_inputs"
  have l: "origin Ram \<le> e" "e \<le> b" "b \<le> z" "z \<le> ?top" "4 dvd z" "stack \<le> extent Ram" "b = align_up ?a e"
    using lay by (simp_all add: memory_layout_def Let_def)
  have a: "0 < ?a" using section_align_power[OF inp(1), of bss_inputs] by (metis zero_less_power zero_less_numeral)
  have "e - origin Ram = 0 \<or> stack = 0 \<or> origin Ram + (e - origin Ram) \<le> ?heap \<or> ?heap + stack \<le> origin Ram"
    and bs: "z - b = 0 \<or> stack = 0 \<or> b + (z - b) \<le> ?heap \<or> ?heap + stack \<le> b"
    using o lay by (simp_all add: memory_layout_def Let_def overlap_free_def sorted_wrt_append del: origin.simps extent.simps)
  then have e: "e \<le> ?heap" using l by auto
  have d: "stack dvd stack" "8 dvd stack" using inp(2) by (simp_all add: stack_aligned_def)
  have da: "?a dvd stack" by (rule section_align_dvd[OF inp(2)])
  have "b \<le> ?heap" if st: "0 < stack"
  proof -
    have "?a dvd ?top"
    proof -
      obtain j where j: "?a = 2 ^ j" using section_align_power[OF inp(1)] by blast
      have "(2 :: nat) ^ j \<le> 2 ^ 14" using dvd_imp_le[OF da st] l(6) by (simp add: j)
      then have "j \<le> 14" by (rule power_le_imp_le_exp[rotated]) simp
      then have "(2 :: nat) ^ j dvd 2 ^ 14" by (rule le_imp_power_dvd)
      also have "(2 :: nat) ^ 14 dvd ?top" by simp
      finally show ?thesis by (simp only: j)
    qed
    then have "?a dvd ?heap" using da by (rule dvd_diff_nat)
    then show ?thesis using a e by (simp only: l(7) align_up_least)
  qed
  then show b: "b \<le> ?heap" using l by (cases "stack = 0") auto
  show z: "z \<le> ?heap" using bs b l by auto
  show "align_up 4 e \<le> z" using l by (intro align_up_least) auto
  show "align_up 8 z \<le> ?heap" using z l(6) d(2) by (intro align_up_least) (auto intro!: dvd_diff_nat)
qed

section \<open>Images and the start-up code\<close>

lemma regions_apart_below:
  assumes "l + n \<le> 2 ^ 31" "n \<le> 2 ^ 31"
  shows "regions_apart (of_nat l) 0x80000000 n"
  unfolding regions_apart_def
proof (intro allI impI)
  fix k assume k: "k < n"
  have "of_nat l + of_nat k - 0x80000000 = (of_nat l + of_nat k + 0x80000000 :: u32)" by simp
  also have "\<dots> = of_nat (l + k + 0x80000000)" by simp
  finally have "unat (of_nat l + of_nat k - 0x80000000 :: u32) = l + k + 0x80000000"
    using assms k by (simp only: unat_of_nat) simp
  then show "n \<le> unat (of_nat l + of_nat k - 0x80000000 :: u32)" using assms(2) by simp
qed

definition within :: "region \<Rightarrow> nat \<Rightarrow> nat \<Rightarrow> bool" where
  "within r a n \<longleftrightarrow> origin r \<le> a \<and> a + n \<le> origin r + extent r"

text \<open>
  The sections in order. The bytes of \<open>.data\<close> are copied from the place they are loaded at, after the code;
  \<open>.bss\<close> ends at or below the heap, and the stack is the end of the RAM.
\<close>

definition in_place :: "image \<Rightarrow> bool" where
  "in_place im \<longleftrightarrow> (case rev (placed im) of
     s # b # d # front \<Rightarrow>
       list_all (\<lambda>p. bytes p = 0 \<or> sect p \<notin> {S_data, S_bss, S_stack} \<and> lma p = vma p \<and> within Flash (vma p) (bytes p)
           \<and> vma p + bytes p \<le> lma d) front
       \<and> sect d = S_data \<and> vma d = address_of im U_data \<and> lma d = address_of im U_data_lma
       \<and> within Flash (lma d) (bytes d) \<and> within Ram (vma d) (bytes d)
       \<and> vma d + bytes d \<le> address_of im U_edata \<and> address_of im U_edata < vma d + bytes d + 4
       \<and> sect b = S_bss \<and> lma b = vma b \<and> vma d + bytes d \<le> vma b \<and> vma b + bytes b \<le> address_of im U_end
       \<and> sect s = S_stack \<and> lma s = vma s \<and> vma s = address_of im U_heap_end \<and> vma s + bytes s = address_of im U_sp
   | _ \<Rightarrow> False)"

lemma layout_in_place:
  assumes inp: "aligned_inputs inp" "stack_aligned stack inp" and m: "flash_only m"
    and lay: "memory_layout inp stack m im e b z" and o: "overlap_free (placed im)"
  shows "in_place im" "linked (image_symbols tv fini im) ((align_up 4 e - origin Ram) div 4) ((align_up 8 z - align_up 4 e) div 4)"
proof -
  let ?l = "align_up 4 (free m Flash)" and ?sp = "origin Ram + extent Ram" and ?A = "align_up 4 e" and ?Z = "align_up 8 z"
  note l = lay[unfolded memory_layout_def Let_def]
  note f = image_fits[OF inp m lay o]
  have a: "free m Flash \<le> ?l" "e \<le> ?A" "?A < e + 4" "z \<le> ?Z" using align_up_bounds by simp_all
  have s: "address_of im U_data = origin Ram" "address_of im U_data_lma = ?l" "address_of im U_edata = ?A" "address_of im Uu_bss_start = ?A"
    "address_of im U_end = ?Z" "address_of im U_heap_end = ?sp - stack" "address_of im U_sp = ?sp"
    using l by (simp_all add: address_of_def)
  have flash: "sect p \<notin> {S_data, S_bss, S_stack} \<and> lma p = vma p \<and> origin Flash \<le> vma p \<and> vma p + bytes p \<le> free m Flash" if "p \<in> set (placed m)" for p
    using m that by (simp add: flash_only_def)
  have fl: "origin Flash \<le> free m Flash" using m by (simp add: flash_only_def)
  show "in_place im"
    using l a fl f by (auto simp: in_place_def s within_def list_all_iff simp del: origin.simps extent.simps dest!: flash)
  have "4 dvd ?A - origin Ram" "8 dvd ?Z" "4 dvd ?A"
    by (auto simp: align_up_bounds(3) intro!: dvd_diff_nat)
  moreover from this have "4 dvd ?Z - ?A" by (intro dvd_diff_nat) (auto intro: dvd_trans[of 4 8])
  ultimately obtain n k where n: "?A - origin Ram = 4 * n" and k: "?Z - ?A = 4 * k" by (elim dvdE)
  have b: "?A = origin Ram + 4 * n" "?Z = ?A + 4 * k" "?Z \<le> ?sp" "?l + 4 * n \<le> 2 ^ 31"
  proof -
    show "?A = origin Ram + 4 * n" "?Z = ?A + 4 * k" "?Z \<le> ?sp" using n k a f l by linarith+
    then show "?l + 4 * n \<le> 2 ^ 31" using l by simp
  qed
  have "unat (of_nat ?A :: u32) = ?A" using b(1-3) by (simp only: unat_of_nat) simp
  then have "linked (image_symbols tv fini im) n k"
    using b regions_apart_below[of ?l "4 * n"] by (simp add: linked_def image_symbols_def s)
  with n k show "linked (image_symbols tv fini im) ((?A - origin Ram) div 4) ((?Z - ?A) div 4)" by simp
qed

lemma link_facts:
  assumes "aligned_inputs inp" "stack_aligned stack inp" "script \<in> set (scripts stack)" "link_image inp script = Some im"
  shows "in_place im" "address_of im U_sp = 0x80004000" "address_of im U_heap_end + stack = address_of im U_sp"
    "address_of im U_data = 0x80000000" "address_of im U_data \<le> address_of im U_edata" "address_of im U_edata \<le> address_of im U_end" "address_of im U_end \<le> address_of im U_heap_end"
    "\<exists>n k. linked (image_symbols tv fini im) n k"
proof -
  from image_layout[OF assms(1,3,4)] obtain m e b z
    where m: "flash_only m" "memory_layout inp stack m im e b z" "overlap_free (placed im)" .
  note l = layout_in_place[OF assms(1,2) m]
  note f = image_fits[OF assms(1,2) m]
  have a: "z \<le> align_up 8 z" "e \<le> align_up 4 e" by (auto intro: align_up_bounds)
  show "in_place im" by (rule l(1))
  show "\<exists>n k. linked (image_symbols tv fini im) n k" using l(2) by blast
  show "address_of im U_sp = 0x80004000" "address_of im U_heap_end + stack = address_of im U_sp"
    "address_of im U_data = 0x80000000" "address_of im U_data \<le> address_of im U_edata" "address_of im U_edata \<le> address_of im U_end" "address_of im U_end \<le> address_of im U_heap_end"
    using m(2) f a by (simp_all add: memory_layout_def Let_def address_of_def)
qed

text \<open>
  C35. Images. When the linker accepts the inputs under \<open>flash.lds\<close> or \<open>dhrystone.lds\<close>, for alignments that are
  powers of two and divide the stack size, then everything up to \<open>.dtors\<close> and the load image of
  \<open>.data\<close> lie in the flash, one after the other; \<open>.data\<close>, \<open>.bss\<close>, the heap and the stack follow one another in
  the RAM; the stack ends at its top; and the symbols satisfy what \<open>_start\<close> relies on.
\<close>

theorem link_layout:
  assumes "aligned_inputs inp" "stack_aligned stack inp" "script \<in> set (scripts stack)" "link_image inp script = Some im"
  shows "in_place im \<and> (\<exists>n k. linked (image_symbols tv fini im) n k)
    \<and> address_of im U_sp = 0x80004000 \<and> address_of im U_heap_end + stack = address_of im U_sp
    \<and> address_of im U_data = 0x80000000 \<and> address_of im U_edata \<le> address_of im U_end
    \<and> address_of im U_end \<le> address_of im U_heap_end"
  using link_facts[OF assms] by blast

definition sample_inputs :: inputs where
  "sample_inputs p =
    (if p = ''.init'' then [(88, 4)] else if p = ''.text .text.*'' then [(6001, 4), (30, 2)]
     else if p = ''.rodata .rodata.*'' then [(512, 8), (3, 1)] else if p = ''.data .data.*'' then [(12, 4)]
     else if p = ''.srodata .srodata.*'' then [(5, 4)] else if p = ''.sbss*'' then [(4, 4)]
     else if p = ''.bss .bss.*'' then [(100, 8), (3, 1)] else [])"

lemmas script_defs = flash_lds_def code_sections_def rodata_section_def array_sections_def memory_sections_def
  data_inputs_def bss_inputs_def

lemma sample_inputs_ok: "aligned_inputs sample_inputs" "stack_aligned 2048 sample_inputs"
proof -
  have "a \<in> {1, 2, 4, 8}" if "(n, a) \<in> set (sample_inputs p)" for p n a
    using that by (auto simp: sample_inputs_def split: if_splits)
  moreover have "\<exists>k\<le>31. a = 2 ^ k" "a dvd 2048" if "a \<in> {1, 2, 4, 8}" for a :: nat
    using that by (auto intro: exI[of _ 0] exI[of _ 1] exI[of _ 2] exI[of _ 3])
  ultimately show "aligned_inputs sample_inputs" "stack_aligned 2048 sample_inputs"
    unfolding aligned_inputs_def stack_aligned_def by auto
qed

lemma sample_image:
  "\<exists>im. link_image sample_inputs (flash_lds 2048) = Some im \<and> address_of im U_data = 0x80000000
    \<and> address_of im U_data_lma = 0x204019EC \<and> address_of im U_edata = 0x80000018 \<and> address_of im Uu_bss_start = 0x80000018
    \<and> address_of im U_end = 0x80000088 \<and> address_of im U_heap_end = 0x80003800
    \<and> \<lparr>sect = S_data, vma = 0x80000000, lma = 0x204019EC, bytes = 21\<rparr> \<in> set (placed im)
    \<and> \<lparr>sect = S_bss, vma = 0x80000018, lma = 0x80000018, bytes = 112\<rparr> \<in> set (placed im)"
  by (simp add: link_image_def script_defs align_up_def section_align_def Let_def sample_inputs_def overlap_free_def address_of_def)

theorem link_layout_witness:
  "\<exists>im. link_image sample_inputs (flash_lds 2048) = Some im \<and> in_place im \<and> address_of im U_sp = 0x80004000
     \<and> (\<exists>n k. linked (image_symbols 0x20400100 0x20401000 im) n k) \<and> address_of im U_end = 0x80000088"
proof -
  obtain im where im: "link_image sample_inputs (flash_lds 2048) = Some im" "address_of im U_end = 0x80000088"
    using sample_image by blast
  with link_layout[OF sample_inputs_ok _ im(1)] show ?thesis by (simp add: scripts_def)
qed

text \<open>What a section of an image is, from its place in the list.\<close>

lemma in_place_cases:
  assumes "in_place im" "p \<in> set (placed im)" "0 < bytes p"
  obtains "sect p \<notin> {S_data, S_bss, S_stack}" "lma p = vma p" "within Flash (vma p) (bytes p)"
  | "sect p = S_data" "vma p = address_of im U_data" "lma p = address_of im U_data_lma" "within Flash (lma p) (bytes p)"
    "within Ram (vma p) (bytes p)" "vma p + bytes p \<le> address_of im U_edata"
  | "sect p = S_bss" "lma p = vma p" "address_of im U_edata < vma p + 4" "address_of im U_data \<le> vma p" "vma p + bytes p \<le> address_of im U_end"
  | "sect p = S_stack" "lma p = vma p" "vma p = address_of im U_heap_end" "vma p + bytes p = address_of im U_sp"
proof -
  from assms(1) obtain s b d front where r: "rev (placed im) = s # b # d # front"
    by (auto simp: in_place_def split: list.splits)
  then have "set (placed im) = {s, b, d} \<union> set front" by (metis set_rev list.set(2) insert_is_Un Un_assoc Un_insert_left sup_bot.left_neutral)
  with assms(2) consider "p \<in> set front" | "p = d" | "p = b" | "p = s" by blast
  then show ?thesis
    using that assms(1,3) r by cases (auto simp: in_place_def list_all_iff)
qed

lemma of_nat_split: "a \<le> q \<Longrightarrow> (of_nat q :: u32) = of_nat a + of_nat (q - a)"
  by (simp flip: of_nat_add)

text \<open>
  C34. Start-up of an image. On every image of the two scripts, for alignments that are powers of two and divide the
  stack size, \<open>_start\<close> reaches its first call with the stack
  pointer at the top of the RAM and every byte of \<open>.data\<close> copied from the place it was loaded at. A byte
  of \<open>.bss\<close> is zero, except below \<open>__bss_start\<close>: there it is what the flash holds after the load image. \<open>.bss\<close>
  starts below that symbol by at most three bytes, and only if no input of it needs an alignment of four.
\<close>

theorem start_loads_image:
  assumes "aligned_inputs inp" "stack_aligned stack inp" "script \<in> set (scripts stack)" "link_image inp script = Some im"
  shows "\<exists>c1. start_setup (image_symbols tv fini im) c = Some c1 \<and> xreg c1 2 = 0x80004000
    \<and> (\<forall>p \<in> set (placed im). \<forall>i < bytes p.
        (sect p = S_data \<longrightarrow> mem c1 (of_nat (vma p + i)) = mem c (of_nat (lma p + i)))
      \<and> (sect p = S_bss \<longrightarrow> mem c1 (of_nat (vma p + i)) =
           (if vma p + i < address_of im Uu_bss_start then mem c (of_nat (address_of im U_data_lma + (vma p + i - address_of im U_data))) else 0)
         \<and> address_of im Uu_bss_start < vma p + 4 \<and> (4 dvd section_align inp bss_inputs \<longrightarrow> address_of im Uu_bss_start \<le> vma p)))"
proof -
  from image_layout[OF assms(1,3,4)] obtain m e b z
    where m: "flash_only m" "memory_layout inp stack m im e b z" "overlap_free (placed im)" .
  let ?y = "image_symbols tv fini im" and ?A = "align_up 4 e" and ?Z = "align_up 8 z"
  let ?n = "(?A - origin Ram) div 4" and ?k = "(?Z - ?A) div 4"
  note f = image_fits[OF assms(1,2) m]
  note l = layout_in_place(1)[OF assms(1,2) m] layout_in_place(2)[OF assms(1,2) m, of tv fini]
  have s: "address_of im U_data = 0x80000000" "address_of im U_edata = ?A" "address_of im Uu_bss_start = ?A" "address_of im U_end = ?Z"
    "address_of im U_sp = 0x80004000" and e: "origin Ram \<le> e" "b = align_up (section_align inp bss_inputs) e"
    using m(2) by (simp_all add: memory_layout_def Let_def address_of_def)
  have a: "e \<le> ?A" "?A < e + 4" "z \<le> ?Z" "4 dvd ?A" "4 dvd ?Z"
    using align_up_bounds by (auto intro: dvd_trans[of 4 8])
  have n: "?A = 0x80000000 + 4 * ?n" "?Z = ?A + 4 * ?k"
    using a f(3) e(1) by (auto intro!: dvd_diff_nat)
  have y: "stack_top ?y = 0x80004000" "data_start ?y = of_nat 0x80000000" "data_lma ?y = of_nat (address_of im U_data_lma)"
    "bss_start ?y = of_nat ?A"
    by (simp_all add: image_symbols_def s)
  obtain m' where m': "start_memory (data_lma ?y) (data_start ?y) (data_end ?y) (bss_start ?y) (bss_end ?y) (mem c) = Some m'"
    "\<forall>i<4 * ?n. m' (data_start ?y + of_nat i) = mem c (data_lma ?y + of_nat i)"
    "\<forall>i<4 * ?k. m' (bss_start ?y + of_nat i) = 0"
    using start_initialises_memory[of "data_start ?y" ?n "bss_start ?y" ?k "data_lma ?y" "mem c"] l(2)
    by (auto simp: linked_def)
  obtain c1 where c1: "start_setup ?y c = Some c1" "mem c1 = m'" "xreg c1 2 = 0x80004000"
    using setup_follows_memory[OF m'(1)] y(1) by auto
  have copied: "m' (of_nat q) = mem c (of_nat (address_of im U_data_lma + (q - 0x80000000)))" if "0x80000000 \<le> q" "q < ?A" for q
  proof -
    have "q - 0x80000000 < 4 * ?n" using that n(1) by linarith
    from m'(2)[rule_format, OF this] show ?thesis by (simp only: y of_nat_split[OF that(1)] of_nat_add)
  qed
  have zero: "m' (of_nat q) = 0" if "?A \<le> q" "q < ?Z" for q
  proof -
    have "q - ?A < 4 * ?k" using that n(2) by linarith
    from m'(3)[rule_format, OF this] show ?thesis by (simp only: y of_nat_split[OF that(1)])
  qed
  have "(sect p = S_data \<longrightarrow> mem c1 (of_nat (vma p + i)) = mem c (of_nat (lma p + i)))
      \<and> (sect p = S_bss \<longrightarrow> mem c1 (of_nat (vma p + i)) =
           (if vma p + i < address_of im Uu_bss_start then mem c (of_nat (address_of im U_data_lma + (vma p + i - address_of im U_data))) else 0)
         \<and> address_of im Uu_bss_start < vma p + 4 \<and> (4 dvd section_align inp bss_inputs \<longrightarrow> address_of im Uu_bss_start \<le> vma p))"
    if p: "p \<in> set (placed im)" "i < bytes p" for p i
  proof -
    from p(2) have "0 < bytes p" by simp
    with l(1) p(1) show ?thesis
    proof (cases rule: in_place_cases)
      case 2
      with copied[of "vma p + i"] p(2) show ?thesis by (simp add: s c1(2))
    next
      case 3
      have v: "vma p = b" using m(1,2) p(1) 3(1) by (auto simp: memory_layout_def Let_def flash_only_def)
      have "?A \<le> b" if d: "4 dvd section_align inp bss_inputs"
      proof -
        have "4 dvd b" unfolding e(2) using d align_up_bounds(3) by (rule dvd_trans)
        moreover have "e \<le> b" using m(2) by (simp add: memory_layout_def Let_def)
        ultimately show ?thesis by (intro align_up_least) simp_all
      qed
      with 3 v copied[of "vma p + i"] zero[of "vma p + i"] p(2) show ?thesis by (auto simp: s c1(2))
    qed auto
  qed
  with c1(1,3) show ?thesis by blast
qed

text \<open>An image whose \<open>.data\<close> has five bytes and whose \<open>.bss\<close> has three bytes without alignment.\<close>

definition odd_inputs :: inputs where
  "odd_inputs p = (if p = ''.srodata .srodata.*'' then [(5, 1)] else if p = ''.bss .bss.*'' then [(3, 1)] else [])"

theorem start_loads_image_witness:
  "\<exists>im c1. link_image odd_inputs (dhrystone_lds 2048) = Some im
    \<and> \<lparr>sect = S_bss, vma = 0x80000005, lma = 0x80000005, bytes = 3\<rparr> \<in> set (placed im)
    \<and> start_setup (image_symbols 0x20400100 0x20401000 im) (sample_cpu\<lparr>mem := \<lambda>_. 0xFF\<rparr>) = Some c1
    \<and> mem c1 0x80000006 = 0xFF"
proof -
  have ok: "aligned_inputs odd_inputs" "stack_aligned 2048 odd_inputs"
    by (auto simp: aligned_inputs_def stack_aligned_def odd_inputs_def split: if_splits intro!: exI[of _ 0])
  have "\<exists>im. link_image odd_inputs (dhrystone_lds 2048) = Some im \<and> address_of im Uu_bss_start = 0x80000008
      \<and> \<lparr>sect = S_bss, vma = 0x80000005, lma = 0x80000005, bytes = 3\<rparr> \<in> set (placed im)"
    by (simp add: link_image_def dhrystone_lds_def script_defs align_up_def section_align_def Let_def odd_inputs_def overlap_free_def address_of_def)
  then obtain im where im: "link_image odd_inputs (dhrystone_lds 2048) = Some im" "address_of im Uu_bss_start = 0x80000008"
      "\<lparr>sect = S_bss, vma = 0x80000005, lma = 0x80000005, bytes = 3\<rparr> \<in> set (placed im)"
    by blast
  have "dhrystone_lds 2048 \<in> set (scripts 2048)" by (simp add: scripts_def)
  from start_loads_image[OF ok this im(1), where tv = "0x20400100" and fini = "0x20401000" and c = "sample_cpu\<lparr>mem := \<lambda>_. 0xFF\<rparr>"]
  obtain c1 where c1: "start_setup (image_symbols 0x20400100 0x20401000 im) (sample_cpu\<lparr>mem := \<lambda>_. 0xFF\<rparr>) = Some c1"
      "\<forall>p \<in> set (placed im). \<forall>i < bytes p. sect p = S_bss
         \<longrightarrow> mem c1 (of_nat (vma p + i)) = (if vma p + i < address_of im Uu_bss_start then 0xFF else 0)"
    by auto
  with c1(2)[rule_format, OF im(3), of 1] im show ?thesis by auto
qed

text \<open>
  C36. The heap of an image, for the same alignments. Blocks of less than 2 GiB that \<open>malloc\<close> hands out between \<open>_end\<close> and \<open>_heap_end\<close> of an image of
  the two scripts overlap no section of it, the stack included.
\<close>

theorem blocks_miss_sections:
  assumes "aligned_inputs inp" "stack_aligned stack inp" "script \<in> set (scripts stack)" "link_image inp script = Some im"
    and "\<forall>sz\<in>set szs. unat sz < 2 ^ 31" "curbrk s = of_nat (address_of im U_end)"
    and "malloc_all (of_nat (address_of im U_end)) (of_nat (address_of im U_heap_end)) szs s = (ps, t)"
    and "i < length szs" "ps ! i \<noteq> 0" "p \<in> set (placed im)" "0 < bytes p"
  shows "unat (ps ! i) + unat (szs ! i) \<le> vma p \<or> vma p + bytes p \<le> unat (ps ! i)"
proof -
  note l = link_facts[OF assms(1-4)]
  let ?lo = "of_nat (address_of im U_end) :: u32" and ?hi = "of_nat (address_of im U_heap_end) :: u32"
  have b: "0x80000000 \<le> address_of im U_end" "address_of im U_heap_end \<le> 0x80004000" using l(2-7) by linarith+
  with l(7) have u: "unat ?lo = address_of im U_end" "unat ?hi = address_of im U_heap_end" by (simp_all add: unat_of_nat)
  with b l(7) have "heap_region ?lo ?hi" "heap_ok ?lo ?hi s"
    by (simp_all add: heap_region_def heap_ok_def word_le_nat_alt word_less_nat_alt assms(6))
  from malloc_all_blocks[OF this(1) assms(5) this(2) assms(7)] assms(6,8,9)
  have "address_of im U_end \<le> unat (ps ! i)" "unat (ps ! i) + unat (szs ! i) \<le> address_of im U_heap_end" by (auto simp: u)
  with l(1) assms(10,11) b l(4-7) show ?thesis
    by (elim in_place_cases) (auto simp: within_def)
qed

theorem blocks_miss_sections_witness:
  "\<exists>im. link_image sample_inputs (flash_lds 2048) = Some im
     \<and> \<lparr>sect = S_bss, vma = 0x80000018, lma = 0x80000018, bytes = 112\<rparr> \<in> set (placed im)
     \<and> fst (malloc_all (of_nat (address_of im U_end)) (of_nat (address_of im U_heap_end)) [16] (sample_machine\<lparr>curbrk := of_nat (address_of im U_end)\<rparr>)) = [0x80000088]
     \<and> (unat (0x80000088 :: u32) + unat (16 :: u32) \<le> 0x80000018 \<or> 0x80000018 + 112 \<le> unat (0x80000088 :: u32))"
proof -
  obtain im where im: "link_image sample_inputs (flash_lds 2048) = Some im" "address_of im U_end = 0x80000088"
      "address_of im U_heap_end = 0x80003800"
      "\<lparr>sect = S_bss, vma = 0x80000018, lma = 0x80000018, bytes = 112\<rparr> \<in> set (placed im)"
    using sample_image by blast
  let ?s = "sample_machine\<lparr>curbrk := of_nat (address_of im U_end)\<rparr>"
  have m: "malloc_all (of_nat (address_of im U_end)) (of_nat (address_of im U_heap_end)) [16] ?s = ([0x80000088], ?s\<lparr>curbrk := 0x80000098\<rparr>)"
    by (simp add: im wrap_malloc_def wrap_sbrk_def)
  with im show ?thesis
    using blocks_miss_sections[OF sample_inputs_ok _ im(1) _ _ m _ _ im(4), of 0] by (simp add: scripts_def)
qed

lemma region_targets:
  "within Ram a n \<Longrightarrow> i < n \<Longrightarrow> 0x80000000 \<le> a \<and> targets_at (int (a + i)) = [Mem_ram]"
  "within Flash a n \<Longrightarrow> i < n \<Longrightarrow> a < 0x80000000 \<and> targets_at (int (a + i)) = (if a + i < 0x40000000 then [Mem_qspi] else [])"
  by (auto simp: targets_at_def target_ranges_def platfrom_mmap_def in_range_def within_def)

text \<open>
  The memories of the platform. Every byte of a section in the RAM and every byte of one in the flash below
  address 0x40000000 is served by the memory of that name, where it runs and where it is loaded; the last 4 MiB of
  the flash region of the scripts are served by nothing.
\<close>

theorem image_served_by_board:
  assumes "aligned_inputs inp" "stack_aligned stack inp" "script \<in> set (scripts stack)" "link_image inp script = Some im"
    and "p \<in> set (placed im)" "i < bytes p"
  shows "targets_at (int (vma p + i)) = (if 0x80000000 \<le> vma p then [Mem_ram] else if vma p + i < 0x40000000 then [Mem_qspi] else [])
    \<and> targets_at (int (lma p + i)) = (if 0x80000000 \<le> lma p then [Mem_ram] else if lma p + i < 0x40000000 then [Mem_qspi] else [])"
proof -
  note l = link_facts[OF assms(1-4)]
  have "0 < bytes p" using assms(6) by simp
  with l(1) assms(5)
  have "(within Flash (vma p) (bytes p) \<or> within Ram (vma p) (bytes p)) \<and> (within Flash (lma p) (bytes p) \<or> within Ram (lma p) (bytes p))"
    using l(2-7) by (elim in_place_cases) (auto simp: within_def)
  then show ?thesis
    using region_targets[of "vma p" "bytes p" i] region_targets[of "lma p" "bytes p" i] assms(6) by auto
qed

theorem image_served_by_board_witness:
  "\<exists>im. link_image sample_inputs (flash_lds 2048) = Some im
     \<and> \<lparr>sect = S_data, vma = 0x80000000, lma = 0x204019EC, bytes = 21\<rparr> \<in> set (placed im)
     \<and> targets_at (int (0x80000000 + 20)) = [Mem_ram] \<and> targets_at (int (0x204019EC + 20)) = [Mem_qspi]"
proof -
  obtain im where im: "link_image sample_inputs (flash_lds 2048) = Some im"
      "\<lparr>sect = S_data, vma = 0x80000000, lma = 0x204019EC, bytes = 21\<rparr> \<in> set (placed im)"
    using sample_image by blast
  then show ?thesis
    using image_served_by_board[OF sample_inputs_ok _ im(1) im(2), of 20] by (simp add: scripts_def)
qed

text \<open>
  The stacks of further harts. On an image of the two scripts the frame of hart \<open>h\<close> is at the top of the
  \<open>h\<close>-th KiB below \<open>_sp\<close>, and that KiB lies in the stack section if and only if the section has
  \<open>h + 1\<close> KiB: the default of 2 KiB serves the harts 0 and 1, and the KiB of every further hart is in the heap.
\<close>

theorem secondary_stack_in_section:
  assumes "aligned_inputs inp" "stack_aligned stack inp" "script \<in> set (scripts stack)" "link_image inp script = Some im"
    and "h = E (hist (hw c) @ [WrCsr Mtvec tv]) (LdCsr Mhartid)" "unat h < 16"
  shows "unat (xreg (secondary_setup E (image_symbols tv fini im) here c) 2) + 16 = address_of im U_sp - 1024 * unat h
    \<and> (address_of im U_heap_end \<le> address_of im U_sp - 1024 * (unat h + 1) \<longleftrightarrow> 1024 * (unat h + 1) \<le> stack)"
proof -
  note l = link_facts[OF assms(1-4)]
  have shift: "unat (push_bit 10 h) = 1024 * unat h"
    using assms(6) by (simp add: push_bit_eq_mult unat_word_ariths)
  define v :: u32 where "v = 0x80004000 - push_bit 10 h"
  have x: "xreg (secondary_setup E (image_symbols tv fini im) here c) 2 = v - 16"
    by (simp add: secondary_pointer image_symbols_def l(2) assms(5) v_def)
  have v: "unat v = 0x80004000 - 1024 * unat h"
    unfolding v_def using assms(6) by (subst unat_sub) (simp_all add: word_le_nat_alt shift)
  then have "16 \<le> v" using assms(6) by (simp add: word_le_nat_alt)
  with v have "unat (xreg (secondary_setup E (image_symbols tv fini im) here c) 2) + 16 = 0x80004000 - 1024 * unat h"
    by (simp add: x unat_sub word_le_nat_alt)
  with l(2,3,7) assms(6) show ?thesis by auto
qed

theorem secondary_stack_in_section_witness:
  "\<exists>im. link_image sample_inputs (flash_lds 2048) = Some im
    \<and> unat (xreg (secondary_setup (\<lambda>_ _. 2) (image_symbols 0x20400100 0x20401000 im) 0x20400080 sample_cpu) 2) + 16 = 0x80003800
    \<and> \<not> address_of im U_heap_end \<le> 0x80003800 - 1024"
proof -
  obtain im where im: "link_image sample_inputs (flash_lds 2048) = Some im" "address_of im U_heap_end = 0x80003800"
    using sample_image by blast
  have sp: "address_of im U_sp = 0x80004000" using link_facts(2)[OF sample_inputs_ok _ im(1)] by (simp add: scripts_def)
  show ?thesis
    using secondary_stack_in_section[OF sample_inputs_ok _ im(1), where h = 2 and E = "\<lambda>_ _. 2" and c = sample_cpu and tv = "0x20400100" and fini = "0x20401000" and here = "0x20400080"] im sp
    by (simp add: scripts_def)
qed

lemma default_stack_harts: "1024 * (h + 1) \<le> stack_size None \<longleftrightarrow> h \<le> 1"
  by (simp add: stack_size_def)

end
