(* ===== verification/Wrap.thy ===== *)
theory Wrap
  imports Linker
begin

text \<open>
  How the references of the firmware find their definitions. \<open>libwrap.mk\<close> builds an archive and passes
  \<open>--wrap\<close> options to the linker: an undefined reference to a wrapped name \<open>s\<close> becomes one to
  \<open>__wrap_s\<close>. The objects of the program and of the archive are given by the functions they define and the
  ones they call; the C library is a parameter, a map from its functions to the functions they call.
\<close>

section \<open>The lists of libwrap.mk\<close>

definition LIBWRAP_SRCS :: "string list" where
  "LIBWRAP_SRCS =
    [''stdlib/malloc.c'', ''sys/open.c'', ''sys/lseek.c'', ''sys/read.c'', ''sys/write.c'', ''sys/fstat.c'',
     ''sys/stat.c'', ''sys/close.c'', ''sys/link.c'', ''sys/unlink.c'', ''sys/execve.c'', ''sys/fork.c'',
     ''sys/getpid.c'', ''sys/kill.c'', ''sys/wait.c'', ''sys/isatty.c'', ''sys/times.c'', ''sys/sbrk.c'',
     ''sys/_exit.c'', ''sys/puts.c'', ''misc/write_hex.c'', ''sys/printf.c'']"

definition LIBWRAP_SYMS :: "string list" where
  "LIBWRAP_SYMS =
    [''malloc'', ''free'', ''open'', ''lseek'', ''read'', ''write'', ''fstat'', ''stat'', ''close'', ''link'',
     ''unlink'', ''execve'', ''fork'', ''getpid'', ''kill'', ''wait'', ''isatty'', ''times'', ''sbrk'', ''_exit'',
     ''puts'', ''printf'']"

text \<open>The \<open>--wrap\<close> options: every name with and without an underscore in front.\<close>

definition wrapped_names :: "string list" where
  "wrapped_names = LIBWRAP_SYMS @ map (\<lambda>s. ''_'' @ s) LIBWRAP_SYMS"

definition wrap_ref :: "string \<Rightarrow> string" where
  "wrap_ref s = (if s \<in> set wrapped_names then ''__wrap_'' @ s else s)"

section \<open>Objects\<close>

text \<open>The functions an object defines, its weak definitions, and the names it uses: functions and symbols of the script.\<close>

record obj =
  globals :: "string list"
  weaks :: "string list"
  calls :: "string list"

text \<open>\<open>weak_under_alias(name)\<close>: an alias of \<open>__wrap_name\<close> with one more underscore.\<close>

definition weak_under_alias :: "string \<Rightarrow> string list" where
  "weak_under_alias name = [''__wrap__'' @ name]"

text \<open>A file that defines one wrapped function and its alias.\<close>

definition aliased :: "string \<Rightarrow> string list \<Rightarrow> obj" where
  "aliased name cs = \<lparr>globals = [''__wrap_'' @ name], weaks = weak_under_alias name, calls = cs\<rparr>"

definition malloc_o :: obj where
  "malloc_o = \<lparr>globals = [''__wrap_malloc'', ''__wrap_free''], weaks = [], calls = [''sbrk'']\<rparr>"

definition fork_o :: obj where
  "fork_o = \<lparr>globals = [''fork''], weaks = [], calls = []\<rparr>"

definition wait_o :: obj where
  "wait_o = \<lparr>globals = [''wait''], weaks = [], calls = []\<rparr>"

definition exit_o :: obj where
  "exit_o = aliased ''exit'' [''write'', ''write_hex'']"

definition write_hex_o :: obj where
  "write_hex_o = \<lparr>globals = [''write_hex''], weaks = [], calls = [''write'']\<rparr>"

definition printf_o :: obj where
  "printf_o = \<lparr>globals = [''putchar'', ''__wrap_printf'', ''__wrap_sprintf''], weaks = [], calls = [''write'', ''strnlen'']\<rparr>"

definition libwrap_objs :: "(string \<times> obj) list" where
  "libwrap_objs =
    [(''stdlib/malloc.c'', malloc_o), (''sys/open.c'', aliased ''open'' []), (''sys/lseek.c'', aliased ''lseek'' [''isatty'']),
     (''sys/read.c'', aliased ''read'' [''isatty'']), (''sys/write.c'', aliased ''write'' [''isatty'']),
     (''sys/fstat.c'', aliased ''fstat'' [''isatty'']), (''sys/stat.c'', aliased ''stat'' []),
     (''sys/close.c'', aliased ''close'' []), (''sys/link.c'', aliased ''link'' []), (''sys/unlink.c'', aliased ''unlink'' []),
     (''sys/execve.c'', aliased ''execve'' []), (''sys/fork.c'', fork_o), (''sys/getpid.c'', aliased ''getpid'' []),
     (''sys/kill.c'', aliased ''kill'' []), (''sys/wait.c'', wait_o), (''sys/isatty.c'', aliased ''isatty'' []),
     (''sys/times.c'', aliased ''times'' []), (''sys/sbrk.c'', aliased ''sbrk'' [''_end'', ''_heap_end'']),
     (''sys/_exit.c'', exit_o), (''sys/puts.c'', aliased ''puts'' []), (''misc/write_hex.c'', write_hex_o),
     (''sys/printf.c'', printf_o)]"

text \<open>The objects of the demonstration program.\<close>

definition start_o :: obj where
  "start_o = \<lparr>globals = [''_start''], weaks = [],
     calls = [''__global_pointer$'', ''_sp'', ''trap_entry'', ''_data_lma'', ''_data'', ''_edata'', ''__bss_start'', ''_end'',
       ''__libc_fini_array'', ''atexit'', ''__libc_init_array'', ''main'', ''exit'']\<rparr>"

definition entry_o :: obj where
  "entry_o = \<lparr>globals = [], weaks = [''trap_entry'', ''handle_trap''], calls = []\<rparr>"

definition init_o :: obj where
  "init_o = \<lparr>globals = [''get_timer_value'', ''get_timer_freq'', ''get_cpu_freq'', ''handle_trap'', ''_init'', ''_fini''],
     weaks = [], calls = [''write'', ''_exit'', ''printf'', ''trap_entry'']\<rparr>"

definition hello_o :: obj where
  "hello_o = \<lparr>globals = [''factorial'', ''main''], weaks = [], calls = [''printf'']\<rparr>"

definition hello_objs :: "obj list" where
  "hello_objs = [start_o, entry_o, init_o, hello_o]"

section \<open>Resolution\<close>

text \<open>The names of the linker scripts that the objects use.\<close>

fun symbol_name :: "symbol \<Rightarrow> string" where
  "symbol_name Uu_etext = ''__etext''"
| "symbol_name U_etext = ''_etext''"
| "symbol_name Etext = ''etext''"
| "symbol_name Preinit_array_start = ''__preinit_array_start''"
| "symbol_name Preinit_array_end = ''__preinit_array_end''"
| "symbol_name Init_array_start = ''__init_array_start''"
| "symbol_name Init_array_end = ''__init_array_end''"
| "symbol_name Fini_array_start = ''__fini_array_start''"
| "symbol_name Fini_array_end = ''__fini_array_end''"
| "symbol_name U_data_lma = ''_data_lma''"
| "symbol_name U_data = ''_data''"
| "symbol_name Global_pointer = ''__global_pointer$''"
| "symbol_name U_edata = ''_edata''"
| "symbol_name Edata = ''edata''"
| "symbol_name U_fbss = ''_fbss''"
| "symbol_name Uu_bss_start = ''__bss_start''"
| "symbol_name U_end = ''_end''"
| "symbol_name End = ''end''"
| "symbol_name U_heap_end = ''_heap_end''"
| "symbol_name U_sp = ''_sp''"

definition has_def :: "obj \<Rightarrow> string \<Rightarrow> bool" where
  "has_def b n \<longleftrightarrow> n \<in> set (globals b) \<union> set (weaks b)"

text \<open>Where a name is defined: in the program, in a file of the archive, in the C library, in the script.\<close>

type_synonym c_library = "string \<Rightarrow> string list option"

definition archive_file :: "string \<Rightarrow> (string \<times> obj) option" where
  "archive_file n = List.find (\<lambda>(_, b). has_def b n) libwrap_objs"

definition resolved :: "obj list \<Rightarrow> image \<Rightarrow> c_library \<Rightarrow> string \<Rightarrow> bool" where
  "resolved prog im libc n \<longleftrightarrow> list_ex (\<lambda>b. has_def b n) prog \<or> archive_file n \<noteq> None \<or> libc n \<noteq> None
     \<or> (\<exists>s. symbol_name s = n \<and> symtab im s \<noteq> None)"

text \<open>
  The names a link has to define: what the objects of the program call, and what the members of the archive and
  of the library call that the definition of a needed name brings in.
\<close>

inductive needed :: "obj list \<Rightarrow> c_library \<Rightarrow> string \<Rightarrow> bool" for prog libc where
  needed_prog: "b \<in> set prog \<Longrightarrow> n \<in> set (calls b) \<Longrightarrow> needed prog libc (wrap_ref n)"
| needed_wrap: "needed prog libc m \<Longrightarrow> archive_file m = Some (f, b) \<Longrightarrow> n \<in> set (calls b) \<Longrightarrow> needed prog libc (wrap_ref n)"
| needed_libc: "needed prog libc m \<Longrightarrow> libc m = Some ns \<Longrightarrow> n \<in> set ns \<Longrightarrow> needed prog libc (wrap_ref n)"

text \<open>The wrapped names that nothing in the archive defines.\<close>

definition dangling :: "string list" where
  "dangling = [''fork'', ''wait'', ''_malloc'', ''_free'', ''_fork'', ''_wait'', ''__exit'', ''_printf'']"

section \<open>Properties\<close>

lemma archive_files: "map fst libwrap_objs = LIBWRAP_SRCS"
  by code_simp

lemma wrapped_references:
  "list_all (\<lambda>s. archive_file (wrap_ref s) \<noteq> None \<longleftrightarrow> s \<notin> set dangling) wrapped_names"
  by code_simp

lemma underscore_aliases:
  "list_all (\<lambda>s. s \<in> {''malloc'', ''free'', ''fork'', ''wait'', ''_exit'', ''printf''}
     \<or> map_option fst (archive_file (wrap_ref (''_'' @ s))) = map_option fst (archive_file (wrap_ref s))) LIBWRAP_SYMS"
  by code_simp

lemma unwrapped_names: "map_option fst (archive_file (wrap_ref ''_exit'')) = Some ''sys/_exit.c''"
  "wrap_ref ''exit'' = ''exit''" "wrap_ref ''sprintf'' = ''sprintf''" "archive_file ''exit'' = None" "archive_file ''sprintf'' = None"
  "''sys/openat.c'' \<notin> set LIBWRAP_SRCS"
  by code_simp+

text \<open>The symbols that \<open>sections.h\<close> declares; the linker scripts define three of them.\<close>

definition sections_h :: "string list" where
  "sections_h = [''_rom'', ''_rom_end'', ''_ram'', ''_ram_end'', ''_ftext'', ''_etext'', ''_fbss'', ''_ebss'', ''_end'']"

lemma sections_h_undefined:
  assumes "n \<in> set sections_h"
  shows "(\<exists>s. symbol_name s = n) \<longleftrightarrow> n \<in> {''_etext'', ''_fbss'', ''_end''}"
proof
  assume "\<exists>s. symbol_name s = n"
  then obtain s where "symbol_name s = n" by blast
  with assms show "n \<in> {''_etext'', ''_fbss'', ''_end''}" by (cases s) (auto simp: sections_h_def)
next
  have "symbol_name U_etext = ''_etext''" "symbol_name U_fbss = ''_fbss''" "symbol_name U_end = ''_end''" by simp_all
  then show "n \<in> {''_etext'', ''_fbss'', ''_end''} \<Longrightarrow> \<exists>s. symbol_name s = n" by blast
qed

text \<open>A name that can be defined, given what the C library provides.\<close>

definition script_names :: "string list" where
  "script_names = map symbol_name [U_data_lma, U_data, U_edata, Uu_bss_start, U_end, U_heap_end, U_sp, Global_pointer]"

definition libc_names :: "string list" where
  "libc_names = [''atexit'', ''exit'', ''__libc_init_array'', ''__libc_fini_array'', ''strnlen'']"

definition settled :: "string \<Rightarrow> bool" where
  "settled n \<longleftrightarrow> list_ex (\<lambda>b. has_def b n) hello_objs \<or> archive_file n \<noteq> None \<or> n \<in> set script_names \<or> n \<in> set libc_names"

lemma calls_settled:
  "b \<in> set hello_objs \<Longrightarrow> n \<in> set (calls b) \<Longrightarrow> settled (wrap_ref n)"
  "archive_file m = Some (f, b) \<Longrightarrow> n \<in> set (calls b) \<Longrightarrow> settled (wrap_ref n)"
proof -
  have "list_all (\<lambda>b. list_all (\<lambda>n. settled (wrap_ref n)) (calls b)) (hello_objs @ map snd libwrap_objs)" by code_simp
  then have *: "settled (wrap_ref n)" if "b \<in> set hello_objs \<union> snd ` set libwrap_objs" "n \<in> set (calls b)" for b n
    using that by (auto simp: list_all_iff)
  show "b \<in> set hello_objs \<Longrightarrow> n \<in> set (calls b) \<Longrightarrow> settled (wrap_ref n)" by (rule *) auto
  assume "archive_file m = Some (f, b)"
  then have "b \<in> snd ` set libwrap_objs" by (force simp: archive_file_def find_Some_iff in_set_conv_nth)
  then show "n \<in> set (calls b) \<Longrightarrow> settled (wrap_ref n)" by (intro *) auto
qed

lemma settled_resolved:
  assumes "settled n" "\<forall>n\<in>set libc_names. libc n \<noteq> None" "\<forall>n\<in>set script_names. \<exists>s. symbol_name s = n \<and> symtab im s \<noteq> None"
  shows "resolved hello_objs im libc n"
  using assms unfolding settled_def resolved_def by blast

lemma script_symbols:
  assumes "aligned_inputs inp" "script \<in> set (scripts stack)" "link_image inp script = Some im"
  shows "\<forall>n\<in>set script_names. \<exists>s. symbol_name s = n \<and> symtab im s \<noteq> None"
proof -
  from image_layout[OF assms] obtain m e b z where "memory_layout inp stack m im e b z" .
  then have "symtab im s \<noteq> None"
    if "s \<in> {U_data_lma, U_data, U_edata, Uu_bss_start, U_end, U_heap_end, U_sp, Global_pointer}" for s
    using that by (auto simp: memory_layout_def Let_def)
  then show ?thesis by (auto simp: script_names_def simp del: symbol_name.simps)
qed

text \<open>
  C37. Wrapped references. A reference to a name of the list, with or without an underscore, finds a
  definition in the archive, whatever else is linked, except for eight names: \<open>fork.c\<close> and \<open>wait.c\<close> define the plain
  names, \<open>malloc.c\<close> and \<open>printf.c\<close> have no alias, and the alias of \<open>_exit.c\<close> is the one of \<open>exit\<close>. A link that
  uses one of these fails.
\<close>

theorem wrapped_reference_resolves:
  assumes "s \<in> set wrapped_names" "list_all (\<lambda>b. \<not> has_def b (''__wrap_'' @ s)) prog" "libc (''__wrap_'' @ s) = None"
  shows "resolved prog im libc (wrap_ref s) \<longleftrightarrow> s \<notin> set dangling"
proof -
  have "symbol_name x \<noteq> ''__wrap_'' @ s" for x by (cases x) simp_all
  moreover have "wrap_ref s = ''__wrap_'' @ s" using assms(1) by (simp add: wrap_ref_def)
  moreover have "archive_file (wrap_ref s) \<noteq> None \<longleftrightarrow> s \<notin> set dangling"
    using wrapped_references assms(1) by (simp only: list_all_iff)
  ultimately show ?thesis using assms(2,3) by (auto simp: resolved_def list_ex_iff list_all_iff)
qed

theorem wrapped_reference_resolves_witness:
  "\<exists>im. link_image sample_inputs (flash_lds 2048) = Some im \<and> resolved hello_objs im (\<lambda>_. None) (wrap_ref ''_exit'')
     \<and> \<not> resolved hello_objs im (\<lambda>_. None) (wrap_ref ''fork'')"
proof -
  obtain im where im: "link_image sample_inputs (flash_lds 2048) = Some im" using sample_image by blast
  have "''_exit'' \<in> set wrapped_names" "''fork'' \<in> set wrapped_names"
    "list_all (\<lambda>b. \<not> has_def b (''__wrap_'' @ ''_exit'')) hello_objs"
    "list_all (\<lambda>b. \<not> has_def b (''__wrap_'' @ ''fork'')) hello_objs"
    "''_exit'' \<notin> set dangling" "''fork'' \<in> set dangling"
    by code_simp+
  with im show ?thesis
    using wrapped_reference_resolves[of "''_exit''" hello_objs "\<lambda>_. None" im]
      wrapped_reference_resolves[of "''fork''" hello_objs "\<lambda>_. None" im]
    by blast
qed

text \<open>
  C38. The demonstration program links. With a C library that has \<open>atexit\<close>, \<open>exit\<close>, the two array functions and
  \<open>strnlen\<close>, and whose functions call one another, \<open>_init\<close>, \<open>_fini\<close> and system calls other than the eight
  above, every name the link needs is defined in the program, in the archive, in the library or by the linker
  script.
\<close>

theorem demo_links:
  assumes "aligned_inputs inp" "script \<in> set (scripts stack)" "link_image inp script = Some im"
    and "\<forall>n\<in>set libc_names. libc n \<noteq> None"
    and "\<forall>m ns. libc m = Some ns \<longrightarrow> (\<forall>n\<in>set ns. if n \<in> set wrapped_names then n \<notin> set dangling
           else libc n \<noteq> None \<or> n \<in> {''_init'', ''_fini''})"
    and "needed hello_objs libc n"
  shows "resolved hello_objs im libc n"
  using assms(6)
proof (induction rule: needed.induct)
  case (needed_prog b n)
  with calls_settled(1) script_symbols[OF assms(1-3)] assms(4) show ?case by (blast intro: settled_resolved)
next
  case (needed_wrap m f b n)
  with calls_settled(2) script_symbols[OF assms(1-3)] assms(4) show ?case by (blast intro: settled_resolved)
next
  case (needed_libc m ns n)
  have init: "settled ''_init''" "settled ''_fini''" by code_simp+
  show ?case
  proof (cases "n \<in> set wrapped_names")
    case True
    with needed_libc assms(5) have "archive_file (wrap_ref n) \<noteq> None"
      using wrapped_references by (auto simp only: list_all_iff if_True)
    then show ?thesis by (simp add: resolved_def)
  next
    case False
    with assms(5)[rule_format, OF needed_libc.hyps(2,3)] have "libc n \<noteq> None \<or> n \<in> {''_init'', ''_fini''}"
      by (simp only: if_False simp_thms)
    with init have "libc n \<noteq> None \<or> settled n" by blast
    moreover have "wrap_ref n = n" using False by (simp add: wrap_ref_def)
    ultimately show ?thesis
      using settled_resolved[OF _ assms(4) script_symbols[OF assms(1-3)]] by (auto simp: resolved_def)
  qed
qed

definition sample_libc :: c_library where
  "sample_libc = map_of [(''atexit'', []), (''exit'', [''_exit'']), (''__libc_init_array'', [''_init'']),
     (''__libc_fini_array'', [''_fini'']), (''strnlen'', [])]"

theorem demo_links_witness:
  "\<exists>im. link_image sample_inputs (flash_lds 2048) = Some im \<and> needed hello_objs sample_libc ''__wrap__exit''
     \<and> resolved hello_objs im sample_libc ''__wrap__exit''"
proof -
  obtain im where im: "link_image sample_inputs (flash_lds 2048) = Some im" using sample_image by blast
  have "list_all (\<lambda>n. sample_libc n \<noteq> None) libc_names" by code_simp
  then have lib: "\<forall>n\<in>set libc_names. sample_libc n \<noteq> None" by (simp only: list_all_iff)
  have "list_all (\<lambda>n. if n \<in> set wrapped_names then n \<notin> set dangling else sample_libc n \<noteq> None \<or> n \<in> {''_init'', ''_fini''})
      [''_exit'', ''_init'', ''_fini'']"
    by code_simp
  then have closed: "\<forall>m ns. sample_libc m = Some ns \<longrightarrow> (\<forall>n\<in>set ns. if n \<in> set wrapped_names then n \<notin> set dangling
      else sample_libc n \<noteq> None \<or> n \<in> {''_init'', ''_fini''})"
    by (auto simp: sample_libc_def split: if_splits)
  have "init_o \<in> set hello_objs" "''_exit'' \<in> set (calls init_o)" "wrap_ref ''_exit'' = ''__wrap__exit''"
    by (simp add: hello_objs_def) (simp add: init_o_def, code_simp)
  then have "needed hello_objs sample_libc ''__wrap__exit''" by (metis needed_prog)
  with im demo_links[OF sample_inputs_ok(1) _ im lib closed] show ?thesis by (auto simp: scripts_def)
qed

end
