(* ===== verification/Launcher.thy ===== *)
theory Launcher
  imports Prelude
begin

unbundle bit_operations_syntax

text \<open>
  The command line of the platform and the program that starts the simulation: \<open>CLIParser.cpp\<close> and
  \<open>sc_main.cpp\<close>. What the two files do with the libraries (boost, SystemC, SCC) is a sequence of calls,
  the events below; what the libraries answer is a parameter: the variables that
  \<open>boost::program_options\<close> parsed, the exception of \<open>notify\<close>, and how \<open>sc_start\<close> ended. Every
  function threads the events so far and may end with an exception or with \<open>exit\<close>.
\<close>

section \<open>Options and their values\<close>

text \<open>The types at which option values are stored and read; \<open>scc::log\<close> is read as its number.\<close>

datatype ctype = Log_t | String_t | Bool_t | Ushort_t | Unsigned_t | Strings_t

datatype cvalue = VLog nat | VString string | VBool bool | VUshort "16 word" | VUnsigned u32
  | VStrings "string list"

fun type_of :: "cvalue \<Rightarrow> ctype" where
  "type_of (VLog _) = Log_t"
| "type_of (VString _) = String_t"
| "type_of (VBool _) = Bool_t"
| "type_of (VUshort _) = Ushort_t"
| "type_of (VUnsigned _) = Unsigned_t"
| "type_of (VStrings _) = Strings_t"

text \<open>An option: names, type (none for a flag), default and implicit value.\<close>

record opt =
  long :: string
  short :: string
  vtype :: "ctype option"
  default_value :: "cvalue option"
  implicit_value :: "cvalue option"

definition flag :: "string \<Rightarrow> string \<Rightarrow> opt" where
  "flag l s = \<lparr>long = l, short = s, vtype = None, default_value = None, implicit_value = None\<rparr>"

definition value_opt :: "string \<Rightarrow> string \<Rightarrow> ctype \<Rightarrow> cvalue option \<Rightarrow> opt" where
  "value_opt l s t d = \<lparr>long = l, short = s, vtype = Some t, default_value = d, implicit_value = None\<rparr>"

text \<open>\<open>CLIParser::build\<close>. \<open>INFO\<close> is the fifth level; a \<open>bool_switch\<close> has the default \<open>false\<close>.\<close>

definition INFO :: nat where "INFO = 4"

definition build :: "opt list" where
  "build =
    [flag ''help'' ''h'',
     value_opt ''verbose'' ''v'' Log_t (Some (VLog INFO)),
     value_opt ''log-file'' ''l'' String_t (Some (VString '''')),
     value_opt ''log-filter'' '''' String_t (Some (VString '''')),
     value_opt ''log-sync'' '''' Bool_t (Some (VBool False)),
     (value_opt ''disass'' ''d'' String_t None)\<lparr>implicit_value := Some (VString '''')\<rparr>,
     value_opt ''elf'' ''f'' String_t None,
     value_opt ''gdb-port'' ''g'' Ushort_t (Some (VUshort 0)),
     value_opt ''backend'' '''' String_t (Some (VString ''interp'')),
     value_opt ''isa'' '''' String_t (Some (VString ''tgc5c'')),
     flag ''dump-ir'' '''',
     value_opt ''dump-structure'' '''' String_t None,
     value_opt ''quantum'' '''' Unsigned_t None,
     value_opt ''reset'' ''r'' String_t None,
     value_opt ''trace-level'' ''t'' Unsigned_t (Some (VUnsigned 0)),
     flag ''trace-default-on'' '''',
     value_opt ''trace-file'' '''' String_t (Some (VString ''system'')),
     value_opt ''max_time'' ''m'' String_t None,
     value_opt ''config-file'' ''c'' String_t (Some (VString '''')),
     value_opt ''plugin'' ''p'' Strings_t None,
     value_opt ''dump-config'' ''dc'' String_t (Some (VString ''''))]"

definition backend_opts :: "string list" where
  "backend_opts = [''interp'', ''tcc'', ''llvm'', ''asmjit'']"

type_synonym vm = "string \<Rightarrow> cvalue option"

text \<open>
  What \<open>boost::program_options\<close> documents of the variables it stores: an option of a type has a value of
  that type or none, and one with a default always has a value.
\<close>

fun fits :: "opt \<Rightarrow> cvalue option \<Rightarrow> bool" where
  "fits p None \<longleftrightarrow> vtype p = None \<or> default_value p = None"
| "fits p (Some v) \<longleftrightarrow> vtype p = None \<or> vtype p = Some (type_of v)"

definition well_typed :: "vm \<Rightarrow> bool" where
  "well_typed vm = list_all (\<lambda>p. fits p (vm (long p))) build"

section \<open>Calls and failures\<close>

datatype cfg_value = CBool bool | CString string | CUint u64 | CFile_type string

datatype logger = Default_log | Connection_log | Disass_log

datatype effect =
    Print_help
  | Print_error string
  | Reporting_level logger nat
  | Print_time logger bool
  | Print_severity logger bool
  | Log_to_cout logger
  | Init_logging string nat string bool
  | Report_actions string
  | Redirect_streams
  | Perf_estimator
  | Configurer string
  | Set_value string cfg_value
  | Tracer string u32 bool bool
  | Instantiate string
  | Add_control
  | Dump_configuration string
  | Configure
  | Dump_structure string
  | Set_quantum_ns u32
  | Log_file logger string
  | Start "string option"
  | Stop
  | Display_report

datatype failure = Bad_any_cast | Invalid_argument | Out_of_range | Exited int

type_synonym 'a io = "effect list \<Rightarrow> (failure + 'a) \<times> effect list"

definition ret :: "'a \<Rightarrow> 'a io" where "ret x es = (Inr x, es)"

definition throw :: "failure \<Rightarrow> 'a io" where "throw e es = (Inl e, es)"

definition emit :: "effect \<Rightarrow> unit io" where "emit e es = (Inr (), es @ [e])"

definition chain :: "'a io \<Rightarrow> ('a \<Rightarrow> 'b io) \<Rightarrow> 'b io" where
  "chain m f es = (case m es of (Inl e, es') \<Rightarrow> (Inl e, es') | (Inr x, es') \<Rightarrow> f x es')"

fun all_of :: "unit io list \<Rightarrow> unit io" where
  "all_of [] = ret ()"
| "all_of (m # ms) = chain m (\<lambda>_. all_of ms)"

definition only_if :: "bool \<Rightarrow> unit io \<Rightarrow> unit io" where
  "only_if c m = (if c then m else ret ())"

text \<open>\<open>is_set\<close> and, for each type, \<open>get\<close>: a missing value or another type is \<open>bad_any_cast\<close>.\<close>

definition is_set :: "vm \<Rightarrow> string \<Rightarrow> bool" where "is_set vm n \<longleftrightarrow> vm n \<noteq> None"

definition get_log :: "vm \<Rightarrow> string \<Rightarrow> nat io" where
  "get_log vm n = (case vm n of Some (VLog x) \<Rightarrow> ret x | _ \<Rightarrow> throw Bad_any_cast)"

definition get_string :: "vm \<Rightarrow> string \<Rightarrow> string io" where
  "get_string vm n = (case vm n of Some (VString x) \<Rightarrow> ret x | _ \<Rightarrow> throw Bad_any_cast)"

definition get_bool :: "vm \<Rightarrow> string \<Rightarrow> bool io" where
  "get_bool vm n = (case vm n of Some (VBool x) \<Rightarrow> ret x | _ \<Rightarrow> throw Bad_any_cast)"

definition get_ushort :: "vm \<Rightarrow> string \<Rightarrow> 16 word io" where
  "get_ushort vm n = (case vm n of Some (VUshort x) \<Rightarrow> ret x | _ \<Rightarrow> throw Bad_any_cast)"

definition get_unsigned :: "vm \<Rightarrow> string \<Rightarrow> u32 io" where
  "get_unsigned vm n = (case vm n of Some (VUnsigned x) \<Rightarrow> ret x | _ \<Rightarrow> throw Bad_any_cast)"

definition get_strings :: "vm \<Rightarrow> string \<Rightarrow> string list io" where
  "get_strings vm n = (case vm n of Some (VStrings x) \<Rightarrow> ret x | _ \<Rightarrow> throw Bad_any_cast)"


section \<open>The command line parser\<close>

text \<open>
  The constructor of \<open>CLIParser\<close>. \<open>parsed\<close> is the result of storing the parsed command line, an error
  text or the variables, and \<open>problem\<close> the error that \<open>notify\<close> reports, if any. The handler prints the
  error and the options, and leaves the program. The result is the member \<open>valid\<close> and the variables.
\<close>

definition report_error :: "string \<Rightarrow> 'a io" where
  "report_error what = chain (emit (Print_error what)) (\<lambda>_. throw (Exited (- 1)))"

definition init_logging :: "vm \<Rightarrow> unit io" where
  "init_logging vm =
     chain (get_log vm ''verbose'') (\<lambda>log_level_num. all_of [
       emit (Reporting_level Default_log (if log_level_num > 6 then 6 else log_level_num)),
       emit (Print_time Default_log False),
       emit (Log_to_cout Default_log),
       emit (Reporting_level Connection_log (if log_level_num > 4 then log_level_num - 1 else log_level_num)),
       emit (Print_time Connection_log False),
       emit (Log_to_cout Connection_log),
       chain (get_string vm ''log-file'') (\<lambda>file.
       chain (get_log vm ''verbose'') (\<lambda>level.
       chain (get_string vm ''log-filter'') (\<lambda>filter.
       chain (get_bool vm ''log-sync'') (\<lambda>sync.
         emit (Init_logging file level filter (\<not> sync)))))),
       emit Redirect_streams,
       emit (Report_actions ''/IEEE_Std_1666/deprecated''),
       emit (Report_actions ''SC_ID_MORE_THAN_ONE_SIGNAL_DRIVER_''),
       emit (Report_actions ''SC_ERROR'')])"

definition CLIParser :: "string + vm \<Rightarrow> string option \<Rightarrow> (bool \<times> vm) io" where
  "CLIParser parsed problem =
     (case parsed of
        Inl what \<Rightarrow> report_error what
      | Inr vm \<Rightarrow>
          chain (only_if (is_set vm ''help'') (emit Print_help)) (\<lambda>_.
            case problem of
              Some what \<Rightarrow> report_error what
            | None \<Rightarrow>
                let valid = True in
                chain (get_string vm ''backend'') (\<lambda>backend.
                  if backend \<notin> set backend_opts then report_error ''Illegal value for switch backend''
                  else chain (init_logging vm) (\<lambda>_. ret (valid, vm)))))"

section \<open>Numbers\<close>

text \<open>\<open>std::stoull\<close>: white space, a sign, for base 16 a prefix, then digits; the rest is ignored.\<close>

definition is_space :: "char \<Rightarrow> bool" where
  "is_space c \<longleftrightarrow> (let n = (of_char c :: int) in n = 32 \<or> 9 \<le> n \<and> n \<le> 13)"

definition numeral_digit :: "char \<Rightarrow> int" where
  "numeral_digit c = (let n = of_char c in
     if 48 \<le> n \<and> n \<le> 57 then n - 48 else if 97 \<le> n \<and> n \<le> 122 then n - 87
     else if 65 \<le> n \<and> n \<le> 90 then n - 55 else 36)"

definition numeral_value :: "int \<Rightarrow> string \<Rightarrow> int" where
  "numeral_value base ds = foldl (\<lambda>v c. v * base + numeral_digit c) 0 ds"

fun sign :: "string \<Rightarrow> bool \<times> string" where
  "sign (c # cs) = (if c = CHR ''-'' then (True, cs) else if c = CHR ''+'' then (False, cs) else (False, c # cs))"
| "sign [] = (False, [])"

definition drop_prefix :: "int \<Rightarrow> string \<Rightarrow> string" where
  "drop_prefix base s = (case s of
     z # x # d # _ \<Rightarrow> if base = 16 \<and> z = CHR ''0'' \<and> x \<in> {CHR ''x'', CHR ''X''} \<and> numeral_digit d < 16
                     then drop 2 s else s
   | _ \<Rightarrow> s)"

definition stoull :: "string \<Rightarrow> int \<Rightarrow> failure + u64" where
  "stoull s base =
     (let (neg, t) = sign (dropWhile is_space s);
          ds = takeWhile (\<lambda>c. numeral_digit c < base) (drop_prefix base t);
          v = numeral_value base ds
      in if ds = [] then Inl Invalid_argument
         else if 2 ^ 64 \<le> v then Inl Out_of_range
         else Inr (if neg then - of_int v else of_int v))"

text \<open>The reset address: hexadecimal after \<open>0x\<close>, decimal otherwise.\<close>

definition start_address :: "string \<Rightarrow> failure + u64" where
  "start_address str = (if take 2 str = ''0x'' then stoull (drop 2 str) 16 else stoull str 10)"

section \<open>The main program\<close>

definition ERRORR_IN_COMMAND_LINE :: int where "ERRORR_IN_COMMAND_LINE = 1"

definition core_path :: string where "core_path = ''tb.top.core_complex''"

definition from_sum :: "failure + 'a \<Rightarrow> 'a io" where
  "from_sum r = (case r of Inl e \<Rightarrow> throw e | Inr x \<Rightarrow> ret x)"

text \<open>Tracing: bit 0 of the level selects signal traces, the other bits the kind of transaction trace.\<close>

definition set_up_tracing :: "vm \<Rightarrow> bool io" where
  "set_up_tracing vm =
     chain (get_unsigned vm ''trace-level'') (\<lambda>trace_level.
       if trace_level = 0 then ret False
       else chain (get_string vm ''trace-file'') (\<lambda>file_name.
         chain (all_of [
           emit (Set_value ''$$$scc_tracer$$$.tx_trace_type'' (CFile_type ''FTR'')),
           emit (Set_value ''$$$scc_tracer$$$.sig_trace_type'' (CFile_type ''SC_VCD'')),
           emit (Tracer file_name (drop_bit 1 trace_level) (trace_level AND 1 \<noteq> 0) (is_set vm ''trace-default-on''))])
         (\<lambda>_. ret True)))"

text \<open>\<open>opens\<close> tells whether the file for the configuration dump can be opened.\<close>

definition dump_config :: "(string \<Rightarrow> bool) \<Rightarrow> vm \<Rightarrow> unit io" where
  "dump_config opens vm =
     chain (get_string vm ''dump-config'') (\<lambda>file.
       only_if (length file > 0) (
         chain (get_string vm ''dump-config'') (\<lambda>file.
           only_if (opens file) (emit (Dump_configuration file)))))"

definition dump_structure :: "vm \<Rightarrow> unit io" where
  "dump_structure vm = only_if (is_set vm ''dump-structure'')
     (chain (get_string vm ''dump-structure'') (\<lambda>file. emit (Dump_structure file)))"

definition set_core :: "string \<Rightarrow> cfg_value \<Rightarrow> unit io" where
  "set_core name v = emit (Set_value (core_path @ name) v)"

fun join :: "string list \<Rightarrow> string \<Rightarrow> string" where
  "join [] sep = ''''"
| "join [x] sep = x"
| "join (x # xs) sep = x @ sep @ join xs sep"

text \<open>The settings of the command line that replace those of the configuration.\<close>

definition overwrite_config :: "vm \<Rightarrow> unit io" where
  "overwrite_config vm = all_of [
     chain (get_ushort vm ''gdb-port'') (\<lambda>p. set_core ''.gdb_server_port'' (CUint (ucast p))),
     set_core ''.dump_ir'' (CBool (is_set vm ''dump-ir'')),
     chain (get_string vm ''backend'') (\<lambda>b. set_core ''.backend'' (CString b)),
     chain (get_string vm ''isa'') (\<lambda>i. set_core ''.core_type'' (CString i)),
     only_if (is_set vm ''plugin'')
       (chain (get_strings vm ''plugin'') (\<lambda>ps. set_core ''.plugins'' (CString (join ps '','')))),
     only_if (is_set vm ''elf'')
       (chain (get_string vm ''elf'') (\<lambda>f. set_core ''.elf_file'' (CString f))),
     only_if (is_set vm ''quantum'')
       (chain (get_unsigned vm ''quantum'') (\<lambda>q. emit (Set_quantum_ns q))),
     only_if (is_set vm ''reset'')
       (chain (get_string vm ''reset'') (\<lambda>str.
        chain (from_sum (start_address str)) (\<lambda>a. set_core ''.reset_address'' (CUint a)))),
     only_if (is_set vm ''disass'') (
       chain (set_core ''.enable_disass'' (CBool True)) (\<lambda>_.
       chain (emit (Reporting_level Disass_log INFO)) (\<lambda>_.
       chain (get_string vm ''disass'') (\<lambda>file_name.
         only_if (length file_name > 0) (all_of [
           emit (Log_file Disass_log file_name),
           emit (Print_time Disass_log False),
           emit (Print_severity Disass_log False)])))))]"

text \<open>How \<open>sc_start\<close> comes back: with a report as exception, or normally, with the end already invoked or not.\<close>

datatype ending = Reported | Ended bool

definition run_simulation :: "ending \<Rightarrow> vm \<Rightarrow> unit io" where
  "run_simulation ending vm = all_of [
     (if is_set vm ''max_time''
      then chain (get_string vm ''max_time'') (\<lambda>t. emit (Start (Some t)))
      else emit (Start None)),
     (case ending of
        Reported \<Rightarrow> emit Display_report
      | Ended invoked \<Rightarrow> only_if (\<not> invoked) (emit Stop))]"

text \<open>\<open>sc_main\<close>; its result is the exit status of the program.\<close>

definition sc_main :: "string + vm \<Rightarrow> string option \<Rightarrow> (string \<Rightarrow> bool) \<Rightarrow> ending \<Rightarrow> int io" where
  "sc_main parsed problem opens ending =
     chain (emit (Report_actions ''SC_ID_MORE_THAN_ONE_SIGNAL_DRIVER_'')) (\<lambda>_.
     chain (CLIParser parsed problem) (\<lambda>(valid, vm).
     if \<not> valid then ret ERRORR_IN_COMMAND_LINE
     else
       chain (all_of [emit Redirect_streams, emit Perf_estimator]) (\<lambda>_.
       chain (get_string vm ''config-file'') (\<lambda>file.
       chain (emit (Configurer file)) (\<lambda>_.
       chain (set_up_tracing vm) (\<lambda>tracer.
       chain (all_of [
         emit (Instantiate ''tb''),
         only_if tracer (emit Add_control),
         dump_config opens vm,
         emit Configure,
         dump_structure vm,
         overwrite_config vm,
         run_simulation ending vm]) (\<lambda>_.
       ret 0)))))))"


section \<open>Sequencing\<close>

lemma chain_simps [simp]:
  "chain (ret x) f = f x" "chain (throw e) g = throw e" "chain (emit v) h es = h () (es @ [v])"
  by (auto simp: chain_def ret_def throw_def emit_def)

lemma chain_assoc [simp]: "chain (chain m f) g = chain m (\<lambda>x. chain (f x) g)"
  by (rule ext) (auto simp: chain_def split: prod.splits sum.splits)

lemma only_if_simps [simp]: "only_if True m = m" "only_if False m = ret ()"
  by (simp_all add: only_if_def)

lemma chain_only_if: "chain (only_if c m) f es = (if c then chain m f es else f () es)"
  by (simp add: only_if_def)

lemma run_simps [simp]: "ret x es = (Inr x, es)" "throw e es = (Inl e, es)" "emit v es = (Inr (), es @ [v])"
  by (simp_all add: ret_def throw_def emit_def)

text \<open>Variables of the declared types.\<close>

lemma has_type_iff:
  "type_of v = Log_t \<longleftrightarrow> (\<exists>x. v = VLog x)" "type_of v = String_t \<longleftrightarrow> (\<exists>x. v = VString x)"
  "type_of v = Bool_t \<longleftrightarrow> (\<exists>x. v = VBool x)" "type_of v = Ushort_t \<longleftrightarrow> (\<exists>x. v = VUshort x)"
  "type_of v = Unsigned_t \<longleftrightarrow> (\<exists>x. v = VUnsigned x)" "type_of v = Strings_t \<longleftrightarrow> (\<exists>x. v = VStrings x)"
  by (cases v; simp)+

lemma fits_iff:
  "fits (flag l s) v"
  "fits (value_opt l s t None) v \<longleftrightarrow> v = None \<or> (\<exists>x. v = Some x \<and> type_of x = t)"
  "fits (value_opt l s t None\<lparr>implicit_value := i\<rparr>) v \<longleftrightarrow> v = None \<or> (\<exists>x. v = Some x \<and> type_of x = t)"
  "fits (value_opt l s t (Some d)) v \<longleftrightarrow> (\<exists>x. v = Some x \<and> type_of x = t)"
  by (cases v; auto simp: flag_def value_opt_def)+

lemma long_opts [simp]: "long (flag l s) = l" "long (value_opt l s t d) = l"
  by (simp_all add: flag_def value_opt_def)

lemma stored_type_iff:
  "(\<exists>x. v = Some x \<and> type_of x = Log_t) \<longleftrightarrow> (\<exists>x. v = Some (VLog x))"
  "(\<exists>x. v = Some x \<and> type_of x = String_t) \<longleftrightarrow> (\<exists>x. v = Some (VString x))"
  "(\<exists>x. v = Some x \<and> type_of x = Bool_t) \<longleftrightarrow> (\<exists>x. v = Some (VBool x))"
  "(\<exists>x. v = Some x \<and> type_of x = Ushort_t) \<longleftrightarrow> (\<exists>x. v = Some (VUshort x))"
  "(\<exists>x. v = Some x \<and> type_of x = Unsigned_t) \<longleftrightarrow> (\<exists>x. v = Some (VUnsigned x))"
  "(\<exists>x. v = Some x \<and> type_of x = Strings_t) \<longleftrightarrow> (\<exists>x. v = Some (VStrings x))"
  by (auto simp: has_type_iff)

lemma well_typed_iff: "well_typed vm \<longleftrightarrow>
    (\<exists>x. vm ''verbose'' = Some (VLog x))
    \<and> (\<exists>x. vm ''log-file'' = Some (VString x))
    \<and> (\<exists>x. vm ''log-filter'' = Some (VString x))
    \<and> (\<exists>x. vm ''log-sync'' = Some (VBool x))
    \<and> (vm ''disass'' = None \<or> (\<exists>x. vm ''disass'' = Some (VString x)))
    \<and> (vm ''elf'' = None \<or> (\<exists>x. vm ''elf'' = Some (VString x)))
    \<and> (\<exists>x. vm ''gdb-port'' = Some (VUshort x))
    \<and> (\<exists>x. vm ''backend'' = Some (VString x))
    \<and> (\<exists>x. vm ''isa'' = Some (VString x))
    \<and> (vm ''dump-structure'' = None \<or> (\<exists>x. vm ''dump-structure'' = Some (VString x)))
    \<and> (vm ''quantum'' = None \<or> (\<exists>x. vm ''quantum'' = Some (VUnsigned x)))
    \<and> (vm ''reset'' = None \<or> (\<exists>x. vm ''reset'' = Some (VString x)))
    \<and> (\<exists>x. vm ''trace-level'' = Some (VUnsigned x))
    \<and> (\<exists>x. vm ''trace-file'' = Some (VString x))
    \<and> (vm ''max_time'' = None \<or> (\<exists>x. vm ''max_time'' = Some (VString x)))
    \<and> (\<exists>x. vm ''config-file'' = Some (VString x))
    \<and> (vm ''plugin'' = None \<or> (\<exists>x. vm ''plugin'' = Some (VStrings x)))
    \<and> (\<exists>x. vm ''dump-config'' = Some (VString x))"
  unfolding well_typed_def build_def by (simp add: fits_iff stored_type_iff)

lemmas get_defs = get_log_def get_string_def get_bool_def get_ushort_def get_unsigned_def get_strings_def

section \<open>What a run does\<close>

text \<open>The values of the variables, for variables of the declared types.\<close>

definition text_of :: "vm \<Rightarrow> string \<Rightarrow> string" where
  "text_of vm n = (case vm n of Some (VString s) \<Rightarrow> s | _ \<Rightarrow> '''')"

definition number_of :: "vm \<Rightarrow> string \<Rightarrow> u32" where
  "number_of vm n = (case vm n of Some (VUnsigned x) \<Rightarrow> x | _ \<Rightarrow> 0)"

definition level_of :: "vm \<Rightarrow> nat" where
  "level_of vm = (case vm ''verbose'' of Some (VLog l) \<Rightarrow> l | _ \<Rightarrow> 0)"

text \<open>The number in \<open>gdb-port\<close> and the strings of \<open>plugin\<close>.\<close>

definition port_of :: "vm \<Rightarrow> 16 word" where
  "port_of vm = (case vm ''gdb-port'' of Some (VUshort p) \<Rightarrow> p | _ \<Rightarrow> 0)"

definition plugins_of :: "vm \<Rightarrow> string list" where
  "plugins_of vm = (case vm ''plugin'' of Some (VStrings ps) \<Rightarrow> ps | _ \<Rightarrow> [])"

definition sync_of :: "vm \<Rightarrow> bool" where
  "sync_of vm = (case vm ''log-sync'' of Some (VBool b) \<Rightarrow> b | _ \<Rightarrow> False)"

lemmas value_defs = text_of_def number_of_def level_of_def port_of_def plugins_of_def sync_of_def

lemma stored_get:
  "\<exists>x. vm n = Some (VString x) \<Longrightarrow> get_string vm n = ret (text_of vm n)"
  "is_set vm n \<Longrightarrow> vm n = None \<or> (\<exists>x. vm n = Some (VString x)) \<Longrightarrow> get_string vm n = ret (text_of vm n)"
  "\<exists>x. vm n = Some (VUnsigned x) \<Longrightarrow> get_unsigned vm n = ret (number_of vm n)"
  "is_set vm n \<Longrightarrow> vm n = None \<or> (\<exists>x. vm n = Some (VUnsigned x)) \<Longrightarrow> get_unsigned vm n = ret (number_of vm n)"
  by (auto simp: get_defs value_defs is_set_def)

text \<open>Every read of a stored value that the two files make has the declared type.\<close>

lemma typed_gets:
  assumes "well_typed vm"
  shows "get_string vm ''log-file'' = ret (text_of vm ''log-file'')"
    "get_string vm ''log-filter'' = ret (text_of vm ''log-filter'')"
    "get_string vm ''backend'' = ret (text_of vm ''backend'')"
    "get_string vm ''isa'' = ret (text_of vm ''isa'')"
    "get_string vm ''trace-file'' = ret (text_of vm ''trace-file'')"
    "get_string vm ''config-file'' = ret (text_of vm ''config-file'')"
    "get_string vm ''dump-config'' = ret (text_of vm ''dump-config'')"
    "is_set vm ''elf'' \<Longrightarrow> get_string vm ''elf'' = ret (text_of vm ''elf'')"
    "is_set vm ''dump-structure'' \<Longrightarrow> get_string vm ''dump-structure'' = ret (text_of vm ''dump-structure'')"
    "is_set vm ''reset'' \<Longrightarrow> get_string vm ''reset'' = ret (text_of vm ''reset'')"
    "is_set vm ''max_time'' \<Longrightarrow> get_string vm ''max_time'' = ret (text_of vm ''max_time'')"
    "is_set vm ''disass'' \<Longrightarrow> get_string vm ''disass'' = ret (text_of vm ''disass'')"
    "get_unsigned vm ''trace-level'' = ret (number_of vm ''trace-level'')"
    "is_set vm ''quantum'' \<Longrightarrow> get_unsigned vm ''quantum'' = ret (number_of vm ''quantum'')"
  using assms unfolding well_typed_iff by (simp_all add: stored_get)

lemma typed_other_gets:
  assumes "well_typed vm"
  shows "get_log vm ''verbose'' = ret (level_of vm)" "get_bool vm ''log-sync'' = ret (sync_of vm)"
    "get_ushort vm ''gdb-port'' = ret (port_of vm)"
    "is_set vm ''plugin'' \<Longrightarrow> get_strings vm ''plugin'' = ret (plugins_of vm)"
proof -
  have "\<exists>x. vm ''verbose'' = Some (VLog x)" "\<exists>x. vm ''log-sync'' = Some (VBool x)"
    "\<exists>x. vm ''gdb-port'' = Some (VUshort x)" "vm ''plugin'' = None \<or> (\<exists>x. vm ''plugin'' = Some (VStrings x))"
    using assms unfolding well_typed_iff by simp_all
  then show "get_log vm ''verbose'' = ret (level_of vm)" "get_bool vm ''log-sync'' = ret (sync_of vm)"
    "get_ushort vm ''gdb-port'' = ret (port_of vm)"
    "is_set vm ''plugin'' \<Longrightarrow> get_strings vm ''plugin'' = ret (plugins_of vm)"
    by (auto simp: get_defs value_defs is_set_def)
qed

text \<open>The calls before the configuration is applied.\<close>

definition parser_events :: "vm \<Rightarrow> effect list" where
  "parser_events vm = snd (init_logging vm [])"

definition tracing_events :: "vm \<Rightarrow> effect list" where
  "tracing_events vm = snd (set_up_tracing vm [])"

definition dump_events :: "(string \<Rightarrow> bool) \<Rightarrow> vm \<Rightarrow> effect list" where
  "dump_events opens vm = snd (dump_config opens vm [])"

definition structure_events :: "vm \<Rightarrow> effect list" where
  "structure_events vm = snd (dump_structure vm [])"

definition setup_events :: "(string \<Rightarrow> bool) \<Rightarrow> vm \<Rightarrow> effect list" where
  "setup_events opens vm =
     [Report_actions ''SC_ID_MORE_THAN_ONE_SIGNAL_DRIVER_''] @ (if is_set vm ''help'' then [Print_help] else [])
     @ parser_events vm @ [Redirect_streams, Perf_estimator, Configurer (text_of vm ''config-file'')]
     @ tracing_events vm @ [Instantiate ''tb''] @ (if number_of vm ''trace-level'' = 0 then [] else [Add_control])
     @ dump_events opens vm"

text \<open>The settings that the command line makes, as key and value, and the other calls among them.\<close>

definition core_settings :: "vm \<Rightarrow> (string \<times> cfg_value) list" where
  "core_settings vm =
     [(''.gdb_server_port'', CUint (ucast (port_of vm))),
      (''.dump_ir'', CBool (is_set vm ''dump-ir'')),
      (''.backend'', CString (text_of vm ''backend'')),
      (''.core_type'', CString (text_of vm ''isa''))]
     @ (if is_set vm ''plugin''
        then [(''.plugins'', CString (join (plugins_of vm) '',''))] else [])
     @ (if is_set vm ''elf'' then [(''.elf_file'', CString (text_of vm ''elf''))] else [])
     @ (if is_set vm ''reset'' then [(''.reset_address'',
          CUint (case start_address (text_of vm ''reset'') of Inr a \<Rightarrow> a | _ \<Rightarrow> 0))] else [])
     @ (if is_set vm ''disass'' then [(''.enable_disass'', CBool True)] else [])"

definition is_core_setting :: "effect \<Rightarrow> bool" where
  "is_core_setting e = (case e of Set_value k _ \<Rightarrow> take (length core_path) k = core_path | _ \<Rightarrow> False)"

text \<open>Calls that neither set a variable of the core nor belong to the phases that follow.\<close>

definition preparing :: "effect \<Rightarrow> bool" where
  "preparing e \<longleftrightarrow> \<not> is_core_setting e \<and> e \<noteq> Configure \<and> (case e of Start _ \<Rightarrow> False | _ \<Rightarrow> True)"

lemmas preparing_defs = preparing_def is_core_setting_def core_path_def

lemma init_logging_run:
  assumes "well_typed vm"
  shows "init_logging vm es = (Inr (), es @ parser_events vm)" "list_all preparing (parser_events vm)"
  using assms by (simp_all add: init_logging_def parser_events_def typed_gets typed_other_gets preparing_defs chain_def)

lemma set_up_tracing_run:
  assumes "well_typed vm"
  shows "set_up_tracing vm es = (Inr (number_of vm ''trace-level'' \<noteq> 0), es @ tracing_events vm)"
    "list_all preparing (tracing_events vm)"
  using assms by (simp_all add: set_up_tracing_def tracing_events_def typed_gets preparing_defs)

lemma dump_config_run:
  assumes "well_typed vm"
  shows "dump_config opens vm es = (Inr (), es @ dump_events opens vm)"
    "list_all preparing (dump_events opens vm)"
  using assms by (simp_all add: dump_config_def dump_events_def typed_gets preparing_defs only_if_def)

lemma dump_structure_run:
  assumes "well_typed vm"
  shows "dump_structure vm es = (Inr (), es @ structure_events vm)"
    "list_all preparing (structure_events vm)"
  using assms by (simp_all add: dump_structure_def structure_events_def typed_gets preparing_defs only_if_def)

definition reset_of :: "vm \<Rightarrow> failure + u64" where
  "reset_of vm = (if is_set vm ''reset'' then start_address (text_of vm ''reset'') else Inr 0)"

text \<open>The events of \<open>overwrite_config\<close>, one list per statement.\<close>

definition set_core_event :: "string \<Rightarrow> cfg_value \<Rightarrow> effect" where
  "set_core_event k v = Set_value (core_path @ k) v"

definition settings_before_reset :: "vm \<Rightarrow> effect list list" where
  "settings_before_reset vm =
    [[set_core_event ''.gdb_server_port'' (CUint (ucast (port_of vm)))],
     [set_core_event ''.dump_ir'' (CBool (is_set vm ''dump-ir''))],
     [set_core_event ''.backend'' (CString (text_of vm ''backend''))],
     [set_core_event ''.core_type'' (CString (text_of vm ''isa''))],
     if is_set vm ''plugin'' then [set_core_event ''.plugins'' (CString (join (plugins_of vm) '',''))] else [],
     if is_set vm ''elf'' then [set_core_event ''.elf_file'' (CString (text_of vm ''elf''))] else [],
     if is_set vm ''quantum'' then [Set_quantum_ns (number_of vm ''quantum'')] else []]"

definition settings_from_reset :: "vm \<Rightarrow> effect list list" where
  "settings_from_reset vm =
    [if is_set vm ''reset''
     then [set_core_event ''.reset_address'' (CUint (case start_address (text_of vm ''reset'') of Inr a \<Rightarrow> a | _ \<Rightarrow> 0))]
     else [],
     if is_set vm ''disass''
     then [set_core_event ''.enable_disass'' (CBool True), Reporting_level Disass_log INFO]
       @ (if text_of vm ''disass'' = [] then []
          else [Log_file Disass_log (text_of vm ''disass''), Print_time Disass_log False, Print_severity Disass_log False])
     else []]"

definition adds :: "unit io \<Rightarrow> effect list \<Rightarrow> bool" where
  "adds m evs \<longleftrightarrow> (\<forall>es. m es = (Inr (), es @ evs))"

lemma adds_all_of: "list_all2 adds ms evss \<Longrightarrow> adds (all_of ms) (concat evss)"
  by (induction rule: list_all2_induct) (auto simp: adds_def chain_def)

lemma all_of_append: "all_of (ms @ ms') es = chain (all_of ms) (\<lambda>_. all_of ms') es"
  by (induction ms arbitrary: es) (auto simp: chain_def split: prod.splits sum.splits)

lemma adds_chain: "adds m evs \<Longrightarrow> chain m f es = f () (es @ evs)"
  by (simp add: adds_def chain_def)

definition overwrite_before_reset :: "vm \<Rightarrow> unit io list" where
  "overwrite_before_reset vm =
    [chain (get_ushort vm ''gdb-port'') (\<lambda>p. set_core ''.gdb_server_port'' (CUint (ucast p))),
     set_core ''.dump_ir'' (CBool (is_set vm ''dump-ir'')),
     chain (get_string vm ''backend'') (\<lambda>b. set_core ''.backend'' (CString b)),
     chain (get_string vm ''isa'') (\<lambda>i. set_core ''.core_type'' (CString i)),
     only_if (is_set vm ''plugin'')
       (chain (get_strings vm ''plugin'') (\<lambda>ps. set_core ''.plugins'' (CString (join ps '','')))),
     only_if (is_set vm ''elf'')
       (chain (get_string vm ''elf'') (\<lambda>f. set_core ''.elf_file'' (CString f))),
     only_if (is_set vm ''quantum'')
       (chain (get_unsigned vm ''quantum'') (\<lambda>q. emit (Set_quantum_ns q)))]"

lemma before_reset_adds:
  assumes "well_typed vm"
  shows "adds (all_of (overwrite_before_reset vm)) (concat (settings_before_reset vm))"
  using assms
  by (intro adds_all_of) (simp add: overwrite_before_reset_def settings_before_reset_def adds_def
      typed_gets typed_other_gets set_core_def set_core_event_def only_if_def)

lemma overwrite_config_run:
  assumes "well_typed vm"
  shows "overwrite_config vm es =
    (case reset_of vm of Inl e \<Rightarrow> (Inl e, es @ concat (settings_before_reset vm))
     | Inr _ \<Rightarrow> (Inr (), es @ concat (settings_before_reset vm) @ concat (settings_from_reset vm)))"
proof -
  define rest where "rest = [
     only_if (is_set vm ''reset'')
       (chain (get_string vm ''reset'') (\<lambda>str.
        chain (from_sum (start_address str)) (\<lambda>a. set_core ''.reset_address'' (CUint a)))),
     only_if (is_set vm ''disass'') (
       chain (set_core ''.enable_disass'' (CBool True)) (\<lambda>_.
       chain (emit (Reporting_level Disass_log INFO)) (\<lambda>_.
       chain (get_string vm ''disass'') (\<lambda>file_name.
         only_if (length file_name > 0) (all_of [
           emit (Log_file Disass_log file_name),
           emit (Print_time Disass_log False),
           emit (Print_severity Disass_log False)])))))]"
  have "overwrite_config vm es = all_of (overwrite_before_reset vm @ rest) es"
    unfolding overwrite_config_def overwrite_before_reset_def rest_def by simp
  also have "\<dots> = all_of rest (es @ concat (settings_before_reset vm))"
    by (simp only: all_of_append adds_chain[OF before_reset_adds[OF assms]])
  also have "\<dots> = (case reset_of vm of Inl e \<Rightarrow> (Inl e, es @ concat (settings_before_reset vm))
     | Inr _ \<Rightarrow> (Inr (), es @ concat (settings_before_reset vm) @ concat (settings_from_reset vm)))"
    using assms by (auto simp: rest_def reset_of_def settings_from_reset_def typed_gets from_sum_def set_core_def
        set_core_event_def only_if_def chain_def split: sum.splits)
  finally show ?thesis .
qed

section \<open>Runs of the main program\<close>

text \<open>The values at which \<open>CLIParser\<close> accepts the variables.\<close>

definition accepted :: "vm \<Rightarrow> string option \<Rightarrow> bool" where
  "accepted vm problem \<longleftrightarrow> problem = None \<and> text_of vm ''backend'' \<in> set backend_opts"

lemma CLIParser_run:
  assumes "well_typed vm" "accepted vm problem"
  shows "CLIParser (Inr vm) problem es =
    (Inr (True, vm), es @ (if is_set vm ''help'' then [Print_help] else []) @ parser_events vm)"
  using assms by (simp add: CLIParser_def accepted_def typed_gets init_logging_run chain_def only_if_def Let_def)

lemma CLIParser_rejects:
  assumes "well_typed vm" "\<not> accepted vm problem"
  shows "\<exists>evs. CLIParser (Inr vm) problem es = (Inl (Exited (- 1)), es @ evs) \<and> list_all preparing evs"
  using assms
  by (cases problem) (auto simp: CLIParser_def accepted_def typed_gets report_error_def only_if_def preparing_defs)

definition ending_events :: "ending \<Rightarrow> effect list" where
  "ending_events ending = (case ending of Reported \<Rightarrow> [Display_report] | Ended invoked \<Rightarrow> if invoked then [] else [Stop])"

definition start_event :: "vm \<Rightarrow> effect" where
  "start_event vm = Start (if is_set vm ''max_time'' then Some (text_of vm ''max_time'') else None)"

lemma run_simulation_run:
  assumes "well_typed vm"
  shows "run_simulation ending vm es = (Inr (), es @ start_event vm # ending_events ending)"
  using assms by (cases ending)
    (auto simp: run_simulation_def typed_gets start_event_def ending_events_def only_if_def chain_def)

lemma chain_step: "m es = (Inr x, es') \<Longrightarrow> chain m f es = f x es'"
  by (simp add: chain_def)

lemma chain_fail: "m es = (Inl e, es') \<Longrightarrow> chain m f es = (Inl e, es')"
  by (simp add: chain_def)

lemma sc_main_run:
  assumes "well_typed vm" "accepted vm problem"
  shows "sc_main (Inr vm) problem opens ending es =
    (case reset_of vm of
       Inl e \<Rightarrow> (Inl e, es @ setup_events opens vm @ Configure # structure_events vm @ concat (settings_before_reset vm))
     | Inr _ \<Rightarrow> (Inr 0, es @ setup_events opens vm @ Configure # structure_events vm
         @ concat (settings_before_reset vm) @ concat (settings_from_reset vm) @ start_event vm # ending_events ending))"
  by (simp add: sc_main_def CLIParser_run[OF assms] set_up_tracing_run(1)[OF assms(1)] dump_config_run(1)[OF assms(1)]
      dump_structure_run(1)[OF assms(1)] overwrite_config_run[OF assms(1)] run_simulation_run[OF assms(1)]
      typed_gets(6)[OF assms(1)] setup_events_def chain_step chain_fail chain_only_if split: sum.splits)

lemma setup_preparing:
  assumes "well_typed vm"
  shows "list_all preparing (setup_events opens vm)"
  using init_logging_run(2)[OF assms] set_up_tracing_run(2)[OF assms] dump_config_run(2)[OF assms]
  by (simp add: setup_events_def preparing_defs)

lemma settings_are_core_settings:
  "filter is_core_setting (concat (settings_before_reset vm) @ concat (settings_from_reset vm))
     = map (\<lambda>(k, v). Set_value (core_path @ k) v) (core_settings vm)"
  by (simp add: settings_before_reset_def settings_from_reset_def core_settings_def set_core_event_def
      is_core_setting_def)

definition is_start :: "effect \<Rightarrow> bool" where
  "is_start e = (case e of Start _ \<Rightarrow> True | _ \<Rightarrow> False)"

lemma start_address_failure: "start_address s = Inl e \<Longrightarrow> e = Invalid_argument \<or> e = Out_of_range"
  by (auto simp: start_address_def stoull_def Let_def split: prod.splits if_splits)

lemma reset_of_failure: "reset_of vm = Inl e \<Longrightarrow> e \<in> {Invalid_argument, Out_of_range}"
  by (auto simp: reset_of_def dest: start_address_failure split: if_splits)

lemma preparing_no_start: "list_all preparing evs \<Longrightarrow> filter is_start evs = []"
  by (auto simp: list_all_iff filter_empty_conv preparing_def is_start_def split: effect.splits)

lemma settings_no_start:
  "filter is_start (concat (settings_before_reset vm)) = []" "filter is_start (concat (settings_from_reset vm)) = []"
  "Configure \<notin> set (concat (settings_before_reset vm))" "Configure \<notin> set (concat (settings_from_reset vm))"
  by (auto simp: settings_before_reset_def settings_from_reset_def set_core_event_def is_start_def)

lemma start_is_start: "is_start (start_event vm)" "filter is_start (ending_events ending) = []"
  "filter is_core_setting (start_event vm # ending_events ending) = []"
  by (auto simp: start_event_def ending_events_def is_start_def is_core_setting_def split: ending.split)

lemma sc_main_rejects:
  assumes "well_typed vm" "\<not> accepted vm problem"
  obtains evs where "sc_main (Inr vm) problem opens ending [] = (Inl (Exited (- 1)), evs)" "filter is_start evs = []"
proof -
  obtain evs where "CLIParser (Inr vm) problem [Report_actions ''SC_ID_MORE_THAN_ONE_SIGNAL_DRIVER_'']
      = (Inl (Exited (- 1)), [Report_actions ''SC_ID_MORE_THAN_ONE_SIGNAL_DRIVER_''] @ evs)" "list_all preparing evs"
    using CLIParser_rejects[OF assms] by blast
  with preparing_no_start[OF this(2)] that show thesis
    by (auto simp: sc_main_def chain_fail is_start_def)
qed

text \<open>
  C13. The command line is read at the types at which it is declared. For variables of the declared
  types no read throws \<open>bad_any_cast\<close>; the program leaves with status -1 if \<open>notify\<close> fails or the backend is
  unknown, an unreadable reset address escapes as exception, and otherwise the status is 0. The
  simulation starts exactly in the last case. The status \<open>ERRORR_IN_COMMAND_LINE\<close> is never returned.
\<close>

theorem launcher_type_safe:
  assumes "well_typed vm"
  shows "let r = sc_main (Inr vm) problem opens ending [] in
    fst r = (if accepted vm problem then case reset_of vm of Inl e \<Rightarrow> Inl e | Inr _ \<Rightarrow> Inr 0 else Inl (Exited (- 1)))
    \<and> fst r \<noteq> Inl Bad_any_cast \<and> fst r \<noteq> Inr ERRORR_IN_COMMAND_LINE
    \<and> (list_ex is_start (snd r) \<longleftrightarrow> fst r = Inr 0)"
proof (cases "accepted vm problem")
  case True
  have "filter is_start (setup_events opens vm) = []" "filter is_start (structure_events vm) = []"
    using setup_preparing[OF assms(1)] dump_structure_run(2)[OF assms(1)] by (simp_all add: preparing_no_start)
  then show ?thesis
    unfolding Let_def sc_main_run[OF assms(1) True]
    using True settings_no_start[of vm] start_is_start(1)[of vm] reset_of_failure[of vm]
    by (auto simp: list_ex_iff filter_empty_conv ERRORR_IN_COMMAND_LINE_def is_start_def[of Configure] split: sum.splits)
next
  case False
  then obtain evs where "sc_main (Inr vm) problem opens ending [] = (Inl (Exited (- 1)), evs)" "filter is_start evs = []"
    by (rule sc_main_rejects[OF assms])
  with False show ?thesis by (auto simp: list_ex_iff filter_empty_conv)
qed

text \<open>
  C14. The command line overrides the configuration file, for the core. In a run that starts the
  simulation, the test bench is instantiated and the configuration applied before any setting of the core
  is made; the settings made between then and the start are those of the command line, each once and in this
  order; none is made afterwards; and the backend among them is one of the four known ones.
\<close>

theorem settings_override_config:
  assumes "well_typed vm" "sc_main (Inr vm) problem opens ending [] = (Inr 0, evs)"
  shows "let applied = dropWhile (\<lambda>e. e \<noteq> Configure) evs in
    list_all (\<lambda>e. \<not> is_core_setting e) (takeWhile (\<lambda>e. e \<noteq> Configure) evs)
    \<and> Instantiate ''tb'' \<in> set (takeWhile (\<lambda>e. e \<noteq> Configure) evs)
    \<and> filter is_core_setting (takeWhile (\<lambda>e. \<not> is_start e) applied)
        = map (\<lambda>(k, v). Set_value (core_path @ k) v) (core_settings vm)
    \<and> filter is_core_setting (dropWhile (\<lambda>e. \<not> is_start e) applied) = []
    \<and> length (filter is_start evs) = 1
    \<and> (\<exists>b \<in> set backend_opts. (''.backend'', CString b) \<in> set (core_settings vm))"
proof -
  define applied where "applied = dropWhile (\<lambda>e. e \<noteq> Configure) evs"
  have acc: "accepted vm problem"
    using assms(2) sc_main_rejects[OF assms(1), of problem opens ending] by fastforce
  note run = sc_main_run[OF assms(1) acc, of opens ending "[]", unfolded assms(2)]
  let ?post = "structure_events vm @ concat (settings_before_reset vm) @ concat (settings_from_reset vm)"
  from run have evs: "evs = setup_events opens vm @ Configure # ?post @ start_event vm # ending_events ending"
    by (auto split: sum.splits)
  have pre: "list_all preparing (setup_events opens vm)" by (rule setup_preparing[OF assms(1)])
  then have 1: "takeWhile (\<lambda>e. e \<noteq> Configure) evs = setup_events opens vm"
    "applied = Configure # ?post @ start_event vm # ending_events ending"
    by (auto simp: applied_def evs takeWhile_append dropWhile_append list_all_iff preparing_def)
  have st: "list_all preparing (structure_events vm)" by (rule dump_structure_run(2)[OF assms(1)])
  have "filter is_start ?post = []" using preparing_no_start[OF st] settings_no_start by simp
  then have 2: "takeWhile (\<lambda>e. \<not> is_start e) applied = Configure # ?post"
    "dropWhile (\<lambda>e. \<not> is_start e) applied = start_event vm # ending_events ending"
    using start_is_start(1) unfolding 1
    by (auto simp: is_start_def[of Configure] filter_empty_conv takeWhile_append dropWhile_append)
  have "filter is_core_setting (structure_events vm) = []"
    using st by (auto simp: filter_empty_conv list_all_iff preparing_def)
  then have "filter is_core_setting (takeWhile (\<lambda>e. \<not> is_start e) applied)
      = map (\<lambda>(k, v). Set_value (core_path @ k) v) (core_settings vm)"
    unfolding 2(1) using settings_are_core_settings[of vm] by (simp add: is_core_setting_def[of Configure])
  moreover have "length (filter is_start evs) = 1"
    using \<open>filter is_start ?post = []\<close> preparing_no_start[OF pre] start_is_start(1,2)
    by (simp add: evs is_start_def[of Configure])
  moreover have "\<exists>b \<in> set backend_opts. (''.backend'', CString b) \<in> set (core_settings vm)"
    using acc by (auto simp: accepted_def core_settings_def)
  moreover have "Instantiate ''tb'' \<in> set (setup_events opens vm)" by (simp add: setup_events_def)
  moreover have "list_all (\<lambda>e. \<not> is_core_setting e) (setup_events opens vm)"
    using pre by (simp add: list_all_iff preparing_def)
  moreover have "filter is_core_setting (dropWhile (\<lambda>e. \<not> is_start e) applied) = []"
    unfolding 2 by (rule start_is_start(3))
  ultimately show ?thesis unfolding Let_def applied_def[symmetric] 1(1) by (intro conjI)
qed


section \<open>The reset address\<close>

lemma numeral_digit_range: "0 \<le> numeral_digit c" "numeral_digit c \<le> 36"
  by (auto simp: numeral_digit_def Let_def)

lemma digit_no_space_or_sign:
  assumes "numeral_digit c < 16"
  shows "\<not> is_space c" "c \<noteq> CHR ''-''" "c \<noteq> CHR ''+''" "c \<notin> {CHR ''x'', CHR ''X''}"
  using assms by (auto simp: numeral_digit_def is_space_def Let_def split: if_splits)

lemma stoull_digits:
  assumes "ds \<noteq> []" "list_all (\<lambda>c. numeral_digit c < base) ds" "base \<le> 16"
    and rest: "rest = [] \<or> base \<le> numeral_digit (hd rest) \<and> hd rest \<notin> {CHR ''x'', CHR ''X''}"
  shows "stoull (ds @ rest) base =
    (if 2 ^ 64 \<le> numeral_value base ds then Inl Out_of_range else Inr (of_int (numeral_value base ds)))"
proof -
  obtain d ds' where ds: "ds = d # ds'" using assms(1) by (cases ds) auto
  have small: "numeral_digit c < 16" if "c \<in> set ds" for c
    using assms(2,3) that by (auto simp: list_all_iff)
  note d = digit_no_space_or_sign[OF small, of d]
  have "dropWhile is_space (ds @ rest) = ds @ rest" using d by (simp add: ds)
  moreover have "sign (ds @ rest) = (False, ds @ rest)" using d by (simp add: ds)
  moreover have "drop_prefix base (ds @ rest) = ds @ rest"
  proof (cases "ds' @ rest")
    case (Cons x xs)
    have "x \<notin> {CHR ''x'', CHR ''X''}"
    proof (cases ds')
      case Nil
      with Cons rest show ?thesis by auto
    next
      case (Cons y ys)
      with \<open>ds' @ rest = x # xs\<close> show ?thesis using digit_no_space_or_sign(4)[OF small, of x] ds by auto
    qed
    then show ?thesis using Cons by (cases xs) (auto simp: drop_prefix_def ds)
  qed (simp add: drop_prefix_def ds)
  moreover have "takeWhile (\<lambda>c. numeral_digit c < base) (ds @ rest) = ds"
    using assms(2) rest by (cases rest) (auto simp: takeWhile_append list_all_iff)
  ultimately show ?thesis using assms(1) by (simp add: stoull_def Let_def)
qed

text \<open>
  C26. The reset address of the command line is the number its digits denote, in base 16 after \<open>0x\<close> and
  otherwise in base 10, up to the first character that is no digit; a number of more than 64 bits is
  reported as out of range. A text that goes on with the letter \<open>x\<close> after the digits, as in
  \<open>0x0x12\<close>, where the digits would be those of a second prefix, is left out.
\<close>

theorem reset_address_value:
  assumes "ds \<noteq> []" "(pre, base) \<in> {(''0x'', 16), ('''', 10)}" "list_all (\<lambda>c. numeral_digit c < base) ds"
    "rest = [] \<or> base \<le> numeral_digit (hd rest) \<and> hd rest \<notin> {CHR ''x'', CHR ''X''}"
  shows "start_address (pre @ ds @ rest) =
    (if 2 ^ 64 \<le> numeral_value base ds then Inl Out_of_range else Inr (of_int (numeral_value base ds)))"
proof (cases "base = 16")
  case True
  with assms(2) have "pre = ''0x''" by auto
  with stoull_digits[OF assms(1,3) _ assms(4)] True show ?thesis by (simp add: start_address_def)
next
  case False
  with assms(2) have b: "base = 10" "pre = []" by auto
  have "take 2 (ds @ rest) \<noteq> ''0x''"
  proof (cases ds)
    case (Cons d ds')
    have "hd (ds' @ rest) \<noteq> CHR ''x''" if "ds' @ rest \<noteq> []"
      using that assms(3,4) digit_no_space_or_sign(4) b by (cases ds') (fastforce simp: Cons)+
    then show ?thesis by (cases "ds' @ rest") (auto simp: Cons)
  qed (use assms(1) in simp)
  with stoull_digits[OF assms(1,3) _ assms(4)] b show ?thesis by (simp add: start_address_def)
qed

theorem reset_address_value_witness:
  "start_address ''0x20400000'' = Inr 0x20400000 \<and> start_address ''4096K'' = Inr 4096
   \<and> start_address ''18446744073709551616'' = Inl Out_of_range"
  using reset_address_value[of "''20400000''" "''0x''" 16 "[]"] reset_address_value[of "''4096''" "''''" 10 "''K''"]
    reset_address_value[of "''18446744073709551616''" "''''" 10 "[]"]
  by (simp add: numeral_digit_def numeral_value_def)

text \<open>
  Texts that are no number of either form. An upper-case prefix is not recognised: the address
  is then 0, without an error. A hexadecimal number without prefix is cut at its first letter. A text
  without a digit is rejected with \<open>invalid_argument\<close>, and a negative number wraps.
\<close>

theorem reset_address_pitfalls:
  "start_address (''0X'' @ s) = Inr 0
   \<and> start_address ''1A0000'' = Inr 1 \<and> start_address ''main'' = Inl Invalid_argument
   \<and> start_address '''' = Inl Invalid_argument \<and> start_address ''0x'' = Inl Invalid_argument
   \<and> start_address ''-1'' = Inr (- 1)"
proof -
  have "start_address (''0X'' @ s) = Inr 0"
    by (simp add: start_address_def stoull_def is_space_def drop_prefix_def numeral_digit_def numeral_value_def
        split: list.split)
  moreover have "start_address ''1A0000'' = Inr 1" "start_address ''main'' = Inl Invalid_argument"
    "start_address '''' = Inl Invalid_argument" "start_address ''0x'' = Inl Invalid_argument"
    "start_address ''-1'' = Inr (- 1)"
    by code_simp+
  ultimately show ?thesis by blast
qed

text \<open>The variables of the command line \<open>-f hello --reset 0x20400000\<close>.\<close>

definition example_vm :: vm where
  "example_vm = (map_of [(long p, d). p \<leftarrow> build, d \<leftarrow> (case default_value p of Some d \<Rightarrow> [d] | None \<Rightarrow> [])])
     (''elf'' \<mapsto> VString ''hello'', ''reset'' \<mapsto> VString ''0x20400000'')"

lemma example_typed: "well_typed example_vm"
  by code_simp

theorem launcher_type_safe_witness:
  "fst (sc_main (Inr example_vm) None (\<lambda>_. True) (Ended False) []) = Inr 0"
proof -
  have "accepted example_vm None" "reset_of example_vm = Inr 0x20400000" by code_simp+
  then show ?thesis using launcher_type_safe[OF example_typed, of None "\<lambda>_. True" "Ended False"] by (simp add: Let_def)
qed

theorem settings_override_config_witness:
  "\<exists>evs. sc_main (Inr example_vm) None (\<lambda>_. True) (Ended False) [] = (Inr 0, evs) \<and> length (filter is_start evs) = 1"
proof -
  have "accepted example_vm None" "reset_of example_vm = Inr 0x20400000" by code_simp+
  then obtain evs where "sc_main (Inr example_vm) None (\<lambda>_. True) (Ended False) [] = (Inr 0, evs)"
    using sc_main_run[OF example_typed] by auto
  with settings_override_config[OF example_typed this] show ?thesis by (simp add: Let_def)
qed

end
