(* ===== verification/Bench.thy ===== *)
theory Bench
  imports Board Launcher
begin

unbundle bit_operations_syntax

text \<open>
  The netlist of the platform and its test bench: the clock, reset and interrupt bindings of
  \<open>system.cpp\<close>, the members of \<open>system.h\<close> and \<open>tb.h\<close>, the pins and the terminal of \<open>tb.cpp\<close>, and the
  reset generator. A binding says which port of which instance is on which signal; how a port moves
  values is SystemC.
\<close>

section \<open>Instances and signals\<close>

text \<open>The instances of \<open>system.h\<close> with their names: the targets of the router and the core.\<close>

datatype component = Dev target | Core | Router

definition members :: "(component \<times> string) list" where
  "members =
    [(Core, ''core_complex''), (Router, ''router''),
     (Dev Uart0, ''uart0''), (Dev Uart1, ''uart1''),
     (Dev Qspi0, ''qspi0''), (Dev Qspi1, ''qspi1''), (Dev Qspi2, ''qspi2''),
     (Dev Pwm0, ''pwm0''), (Dev Pwm1, ''pwm1''), (Dev Pwm2, ''pwm2''),
     (Dev Gpio0, ''gpio0''), (Dev Plic_dev, ''plic''), (Dev Aon, ''aon''), (Dev Prci_dev, ''prci''),
     (Dev Clint, ''clint''), (Dev Mem_qspi, ''mem_qspi''), (Dev Mem_ram, ''mem_ram'')]"

text \<open>
  The signals of \<open>system.h\<close>, and the external reset port. The two vectors of interrupt signals are bound as
  a whole, the first one also element by element.
\<close>

datatype net = Tlclk_s | Lfclk_s | Rst_s | Mtime_int_s | Msie_int_s | Core_int_s | Erst_n
  | Global_int_s nat | Global_vector | Local_vector

text \<open>The sizes of the vectors: pins out, pins in, global and local interrupts.\<close>

definition pins_o_size :: nat where "pins_o_size = 32"

definition pins_i_size :: nat where "pins_i_size = 32"

definition global_int_size :: nat where "global_int_size = 256"

definition local_int_size :: nat where "local_int_size = 16"

text \<open>
  The sockets of the router: two targets, bound by the instruction and the data bus of the core, and one
  initiator per entry of the map and per memory.
\<close>

definition router_targets :: nat where "router_targets = 2"

definition router_initiators :: nat where "router_initiators = length platfrom_mmap + 2"

datatype bus = Ibus | Dbus

definition core_buses :: "(bus \<times> nat) list" where
  "core_buses = [(Ibus, 0), (Dbus, 1)]"

section \<open>Pins of platform.h\<close>

text \<open>The pin numbers that no wire of the platform uses, and the data lines of the SPI units.\<close>

definition SPI11_NUM_SS :: nat where "SPI11_NUM_SS = 4"

definition SPI2_NUM_SS :: nat where "SPI2_NUM_SS = 1"

definition iof_spi1_dq_pins :: "nat list" where
  "iof_spi1_dq_pins = [3, 4, 6, 7]"

definition iof_spi2_pins :: "(nat \<times> signal) list" where
  "iof_spi2_pins = [(26, Scs 0), (27, Mosi), (28, Miso), (29, Sck)]"

definition iof_spi2_dq_pins :: "nat list" where
  "iof_spi2_dq_pins = [27, 28, 30, 31]"

definition iof_uart1_pins :: "(nat \<times> signal) list" where
  "iof_uart1_pins = [(24, Rx), (25, Tx)]"

definition mask_of :: "nat list \<Rightarrow> u32" where
  "mask_of pins = foldr (\<lambda>pin m. push_bit pin 1 OR m) pins 0"

definition selects :: "(nat \<times> signal) list \<Rightarrow> nat" where
  "selects pins = length (filter (\<lambda>(_, sig). case sig of Scs _ \<Rightarrow> True | _ \<Rightarrow> False) pins)"

section \<open>Clock, reset and interrupt bindings\<close>

text \<open>Ports, by name; an output drives its signal.\<close>

datatype port = Clk_i | Lfclkc_o | Hfclk_o | Tlclk_i | Lfclk_i | Rst_i | Rst_o | Erst_n_i | Mtime_int_o
  | Msip_int_o | Global_interrupts_i | Core_interrupt_o | Sw_irq_i | Timer_irq_i | Ext_irq_i | Local_irq_i
  | Irq_o | Cmpip_o nat

fun is_output :: "port \<Rightarrow> bool" where
  "is_output Lfclkc_o = True"
| "is_output Hfclk_o = True"
| "is_output Rst_o = True"
| "is_output Mtime_int_o = True"
| "is_output Msip_int_o = True"
| "is_output Core_interrupt_o = True"
| "is_output Irq_o = True"
| "is_output (Cmpip_o _) = True"
| "is_output _ = False"

definition clock_bindings :: "(component \<times> port \<times> net) list" where
  "clock_bindings =
    [(Dev Uart1, Clk_i, Tlclk_s), (Dev Qspi0, Clk_i, Tlclk_s), (Dev Qspi1, Clk_i, Tlclk_s),
     (Dev Qspi2, Clk_i, Tlclk_s), (Dev Pwm0, Clk_i, Tlclk_s), (Dev Pwm1, Clk_i, Tlclk_s),
     (Dev Pwm2, Clk_i, Tlclk_s), (Dev Gpio0, Clk_i, Tlclk_s), (Dev Plic_dev, Clk_i, Tlclk_s),
     (Dev Aon, Clk_i, Tlclk_s), (Dev Aon, Lfclkc_o, Lfclk_s), (Dev Prci_dev, Hfclk_o, Tlclk_s),
     (Dev Clint, Tlclk_i, Tlclk_s), (Dev Clint, Lfclk_i, Lfclk_s), (Core, Clk_i, Tlclk_s),
     (Dev Mem_qspi, Clk_i, Tlclk_s), (Dev Mem_ram, Clk_i, Tlclk_s)]"

definition reset_bindings :: "(component \<times> port \<times> net) list" where
  "reset_bindings =
    [(Dev Uart0, Rst_i, Rst_s), (Dev Uart1, Rst_i, Rst_s), (Dev Qspi0, Rst_i, Rst_s),
     (Dev Qspi1, Rst_i, Rst_s), (Dev Qspi2, Rst_i, Rst_s), (Dev Pwm0, Rst_i, Rst_s),
     (Dev Pwm1, Rst_i, Rst_s), (Dev Pwm2, Rst_i, Rst_s), (Dev Gpio0, Rst_i, Rst_s),
     (Dev Plic_dev, Rst_i, Rst_s), (Dev Aon, Rst_o, Rst_s), (Dev Prci_dev, Rst_i, Rst_s),
     (Dev Clint, Rst_i, Rst_s), (Core, Rst_i, Rst_s), (Dev Aon, Erst_n_i, Erst_n)]"

definition interrupt_bindings :: "(component \<times> port \<times> net) list" where
  "interrupt_bindings =
    [(Dev Clint, Mtime_int_o, Mtime_int_s), (Dev Clint, Msip_int_o, Msie_int_s),
     (Dev Plic_dev, Global_interrupts_i, Global_vector), (Dev Plic_dev, Core_interrupt_o, Core_int_s),
     (Core, Sw_irq_i, Msie_int_s), (Core, Timer_irq_i, Mtime_int_s), (Core, Ext_irq_i, Core_int_s),
     (Core, Local_irq_i, Local_vector)]"

text \<open>The lines of the devices, from the wiring of theory \<open>Board\<close>; a PWM unit has four outputs.\<close>

definition device_irq_bindings :: "(component \<times> port \<times> net) list" where
  "device_irq_bindings = map (\<lambda>(t, k, i).
     (Dev t, if t \<in> {Pwm0, Pwm1, Pwm2} then Cmpip_o k else Irq_o, Global_int_s i)) irq_wiring"

definition system_bindings :: "(component \<times> port \<times> net) list" where
  "system_bindings = clock_bindings @ reset_bindings @ interrupt_bindings @ device_irq_bindings"

definition drivers :: "net \<Rightarrow> (component \<times> port) list" where
  "drivers n = map (\<lambda>(c, p, _). (c, p)) (filter (\<lambda>(_, p, n'). n' = n \<and> is_output p) system_bindings)"

definition bound :: "component \<Rightarrow> port \<Rightarrow> bool" where
  "bound c p \<longleftrightarrow> list_ex (\<lambda>(c', p', _). c' = c \<and> p' = p) system_bindings"

section \<open>The test bench\<close>

text \<open>Instance names on the way to the core: \<open>sc_main\<close>, \<open>tb.h\<close>, \<open>system.h\<close>.\<close>

definition tb_name :: string where "tb_name = ''tb''"

definition top_name :: string where "top_name = ''top''"

text \<open>
  The constructor of \<open>tb\<close>. Both ends of each pin signal are on the platform, and the terminal is on two
  of them, except under Windows.
\<close>

datatype bench_port = Pins_o nat | Pins_i nat | Terminal_tx_o | Terminal_rx_i

datatype bench_net = Gpio_in nat | Gpio_out nat

definition gpio_s_size :: nat where "gpio_s_size = 32"

definition tb_bindings :: "bool \<Rightarrow> (bench_port \<times> bench_net) list" where
  "tb_bindings win32 =
     concat (map (\<lambda>i. [(Pins_o i, Gpio_in i), (Pins_i i, Gpio_out i)]) [0..<gpio_s_size])
     @ (if win32 then [] else [(Terminal_tx_o, Gpio_in 16), (Terminal_rx_i, Gpio_out 17)])"

text \<open>
  A value written to the input end of a pin signal comes out of its output end. A bench port is heard
  by another one when they are on the two ends of one signal.
\<close>

definition heard_by :: "bool \<Rightarrow> bench_port \<Rightarrow> bench_port \<Rightarrow> bool" where
  "heard_by win32 p q \<longleftrightarrow> list_ex (\<lambda>i. (p, Gpio_in i) \<in> set (tb_bindings win32)
     \<and> (q, Gpio_out i) \<in> set (tb_bindings win32)) [0..<gpio_s_size]"

text \<open>
  A UART whose signals are on given pins, as pairs of pin and signal: what it sends reaches the terminal,
  and what the terminal sends reaches it.
\<close>

definition talks_to_terminal :: "bool \<Rightarrow> (nat \<times> signal) list \<Rightarrow> bool \<times> bool" where
  "talks_to_terminal win32 pins =
    (list_ex (\<lambda>(pin, sig). sig = Tx \<and> heard_by win32 (Pins_o pin) Terminal_rx_i) pins,
     list_ex (\<lambda>(pin, sig). sig = Rx \<and> heard_by win32 Terminal_tx_o (Pins_i pin)) pins)"

definition uart_wires :: "target \<Rightarrow> (nat \<times> signal) list" where
  "uart_wires t = map snd (filter (\<lambda>(t', _, _). t' = t) iof0_wiring)"

text \<open>The reset generator: the writes of its thread with their times in nanoseconds.\<close>

definition rst_gen_run :: "(nat \<times> bool) list" where
  "rst_gen_run = (let t = 0 in [(t, False), (t + 100, True)])"

definition rst_n_at :: "nat \<Rightarrow> bool" where
  "rst_n_at t = snd (last (filter (\<lambda>(t', _). t' \<le> t) rst_gen_run))"

section \<open>Properties of the netlist\<close>

text \<open>
  The masks with which the firmware hands pins to the peripherals contain exactly the pins of their
  numbers, the data lines included, and no two of one function share a pin; every initiator socket of the
  router has a range; and the pins declared for SPI 2 and UART 1 have no wire.
\<close>

lemma pin_masks_agree:
  "mask_of (map fst iof_spi1_pins @ iof_spi1_dq_pins) = IOF0_SPI1_MASK \<and> selects iof_spi1_pins = SPI11_NUM_SS
   \<and> mask_of (map fst iof_spi2_pins @ iof_spi2_dq_pins) = IOF0_SPI2_MASK \<and> selects iof_spi2_pins = SPI2_NUM_SS
   \<and> mask_of (map fst iof_uart0_pins) = IOF0_UART0_MASK \<and> mask_of (map fst iof_uart1_pins) = IOF0_UART1_MASK
   \<and> IOF0_SPI1_MASK + IOF0_SPI2_MASK + IOF0_UART0_MASK + IOF0_UART1_MASK
       = IOF0_SPI1_MASK OR IOF0_SPI2_MASK OR IOF0_UART0_MASK OR IOF0_UART1_MASK
   \<and> list_all (\<lambda>(_, pin, _). pin \<notin> fst ` set (iof_spi2_pins @ iof_uart1_pins)) iof0_wiring
   \<and> length target_ranges = router_initiators \<and> map snd core_buses = [0..<router_targets]"
  by (intro conjI) code_simp+

text \<open>
  Every clock, reset and interrupt signal of the platform has one driver: the clock controller
  drives the system clock, the always-on block the slow clock and the reset, the timer block and the
  interrupt controller the lines to the core; no two devices share an interrupt, every declared interrupt
  number fits the vector, and nothing drives the local interrupts of the core. All instances but UART 0, the
  source of the clock and the router get a clock, and all but the source of the reset, the memories and the
  router get the reset.
\<close>

theorem netlist_drivers:
  "drivers Tlclk_s = [(Dev Prci_dev, Hfclk_o)] \<and> drivers Lfclk_s = [(Dev Aon, Lfclkc_o)]
   \<and> drivers Rst_s = [(Dev Aon, Rst_o)] \<and> drivers Mtime_int_s = [(Dev Clint, Mtime_int_o)]
   \<and> drivers Msie_int_s = [(Dev Clint, Msip_int_o)] \<and> drivers Core_int_s = [(Dev Plic_dev, Core_interrupt_o)]
   \<and> drivers Local_vector = []
   \<and> distinct (map (snd \<circ> snd) device_irq_bindings)
   \<and> list_all (\<lambda>(c, p, n). is_output p \<and> (case n of Global_int_s i \<Rightarrow> i < global_int_size | _ \<Rightarrow> False)) device_irq_bindings
   \<and> PLIC_NUM_INTERRUPTS \<le> global_int_size
   \<and> map snd (filter (\<lambda>(c, _). \<not> bound c Clk_i \<and> \<not> bound c Tlclk_i) members) = [''router'', ''uart0'', ''prci'']
   \<and> map snd (filter (\<lambda>(c, _). \<not> bound c Rst_i) members) = [''router'', ''aon'', ''mem_qspi'', ''mem_ram'']"
  by (intro conjI) code_simp+

text \<open>
  The terminal of the test bench cannot talk to UART 1, the only UART on its pins: neither hears
  what the other one sends, since both send on pin 16 and both listen on pin 17. A UART on the pins that
  \<open>platform.h\<close> gives for UART 0 would talk to it in both directions. Under Windows there is no terminal.
\<close>

theorem terminal_not_connected:
  "talks_to_terminal False (uart_wires Uart1) = (False, False) \<and> uart_wires Uart0 = []
   \<and> talks_to_terminal False iof_uart0_pins = (True, True)
   \<and> talks_to_terminal True iof_uart0_pins = (False, False)"
  by code_simp

text \<open>
  The test bench holds the external reset for the first 100 nanoseconds and never again; it reaches
  the always-on block alone, which drives the reset of the platform. The path under which the main program
  configures the core is the path of the instance it creates.
\<close>

theorem bench_resets_and_names_core:
  "(rst_n_at t \<longleftrightarrow> 100 \<le> t)
   \<and> map (\<lambda>(c, p, _). (c, p)) (filter (\<lambda>(_, _, n). n = Erst_n) system_bindings) = [(Dev Aon, Erst_n_i)]
   \<and> drivers Rst_s = [(Dev Aon, Rst_o)]
   \<and> map_of members Core = Some ''core_complex''
   \<and> core_path = join [tb_name, top_name, the (map_of members Core)] ''.''"
proof -
  have "rst_n_at t \<longleftrightarrow> 100 \<le> t" by (simp add: rst_n_at_def rst_gen_run_def Let_def)
  moreover have "map (\<lambda>(c, p, _). (c, p)) (filter (\<lambda>(_, _, n). n = Erst_n) system_bindings) = [(Dev Aon, Erst_n_i)]"
    "drivers Rst_s = [(Dev Aon, Rst_o)]" "map_of members Core = Some ''core_complex''"
    "core_path = join [tb_name, top_name, the (map_of members Core)] ''.''"
    by code_simp+
  ultimately show ?thesis by blast
qed

end
