(* ===== verification/Pysysc.thy ===== *)
theory Pysysc
  imports Bench Linker
begin

text \<open>
  The platform a second time: \<open>pysysc/modules.py\<close> builds it from Python, with fewer units. Its ranges and its
  connections as data, compared with those of \<open>system.cpp\<close>, and what firmware linked by the scripts finds there.
\<close>

section \<open>TopModule\<close>

datatype py_unit = Py_rst_gen | Py_core | Py_router | Py target

definition py_members :: "(py_unit \<times> string) list" where
  "py_members =
    [(Py_rst_gen, ''rst_gen''), (Py Aon, ''aon''), (Py Clint, ''clint''), (Py Uart0, ''uart0''),
     (Py Mem_qspi, ''mem_qspi''), (Py Mem_ram, ''mem_ram''), (Py_core, ''core_complex''), (Py_router, ''router'')]"

definition py_router_ports :: nat where "py_router_ports = 5"

text \<open>Initiator socket, its unit, start and size of its range.\<close>

definition py_ranges :: "(nat \<times> target \<times> int \<times> int) list" where
  "py_ranges =
    [(0, Clint, 0x2000000, 0xc000), (1, Aon, 0x10000000, 0x150), (2, Mem_qspi, 0x20000000, 2 ^ 24),
     (3, Mem_ram, 0x80000000, 1024), (4, Uart0, 0x10013000, 0x1c)]"

definition py_targets_at :: "int \<Rightarrow> target list" where
  "py_targets_at a = map fst (filter (in_range a) (map snd py_ranges))"

text \<open>Signals, with the port that drives them and the ports they go to; the clock is a generator of its own.\<close>

datatype py_port = P port | Rst_n | Global_irq_i

record py_signal =
  source :: "(py_unit \<times> py_port) option"
  sinks :: "(py_unit \<times> py_port) list"

definition py_clock :: py_signal where
  "py_clock = \<lparr>source = None, sinks = [(Py Aon, P Clk_i), (Py Clint, P Tlclk_i), (Py_core, P Clk_i)]\<rparr>"

definition py_signals :: "py_signal list" where
  "py_signals =
    [\<lparr>source = Some (Py Aon, P Lfclkc_o), sinks = [(Py Clint, P Lfclk_i)]\<rparr>,
     \<lparr>source = Some (Py Aon, P Rst_o), sinks = [(Py Clint, P Rst_i), (Py Uart0, P Rst_i), (Py_core, P Rst_i)]\<rparr>,
     \<lparr>source = Some (Py_rst_gen, Rst_n), sinks = [(Py Aon, P Erst_n_i)]\<rparr>,
     \<lparr>source = Some (Py Clint, P Mtime_int_o), sinks = [(Py_core, P Timer_irq_i)]\<rparr>,
     \<lparr>source = Some (Py Clint, P Msip_int_o), sinks = [(Py_core, P Sw_irq_i)]\<rparr>,
     \<lparr>source = Some (Py Uart0, P Irq_o), sinks = [(Py_core, Global_irq_i)]\<rparr>]"

text \<open>One undriven signal for each local interrupt of the core.\<close>

definition py_local_irqs :: "nat \<Rightarrow> py_signal list" where
  "py_local_irqs n = map (\<lambda>_. \<lparr>source = None, sinks = [(Py_core, P Local_irq_i)]\<rparr>) [0..<n]"

section \<open>Comparison with system.cpp\<close>

definition cpp_unit :: "py_unit \<Rightarrow> component option" where
  "cpp_unit u = (case u of Py_core \<Rightarrow> Some Core | Py_router \<Rightarrow> Some Router | Py t \<Rightarrow> Some (Dev t) | Py_rst_gen \<Rightarrow> None)"

text \<open>A connection of the Python platform that is also one of the other: both ends are on one net there.\<close>

definition also_in_cpp :: "py_unit \<times> py_port \<Rightarrow> py_unit \<times> py_port \<Rightarrow> bool" where
  "also_in_cpp s d \<longleftrightarrow> (case (s, d) of ((us, P ps), (ud, P pd)) \<Rightarrow>
     list_ex (\<lambda>(c, p, n). Some c = cpp_unit us \<and> p = ps
       \<and> list_ex (\<lambda>(c', p', n'). Some c' = cpp_unit ud \<and> p' = pd \<and> n' = n) system_bindings) system_bindings
   | _ \<Rightarrow> False)"

definition py_connections :: "((py_unit \<times> py_port) \<times> (py_unit \<times> py_port)) list" where
  "py_connections = concat (map (\<lambda>s. case source s of None \<Rightarrow> [] | Some p \<Rightarrow> map (Pair p) (sinks s)) py_signals)"

text \<open>
  All connections are those of the other platform, except the interrupt of UART 0, which goes to the core
  directly, and the external reset, which comes from the test bench there.
\<close>

lemma connections_agree:
  "filter (\<lambda>(s, d). \<not> also_in_cpp s d) py_connections =
     [((Py_rst_gen, Rst_n), (Py Aon, P Erst_n_i)), ((Py Uart0, P Irq_o), (Py_core, Global_irq_i))]"
  by code_simp

lemma sockets_in_order: "map fst py_ranges = [0..<py_router_ports]"
  by code_simp

lemma members_agree:
  "list_all (\<lambda>(u, name). case cpp_unit u of None \<Rightarrow> True | Some c \<Rightarrow> map_of members c = Some name) py_members"
  by code_simp

text \<open>The Python platform serves an address by the same unit as the other one or not at all.\<close>

lemma py_targets: "py_targets_at a = [] \<or> py_targets_at a = targets_at a"
  by (auto simp: py_targets_at_def py_ranges_def targets_at_def target_ranges_def platfrom_mmap_def in_range_def)

text \<open>
  C39. The Python platform is a part of the other one, and too small for the firmware: every address is
  served by the same unit as there or by none; the registers of the clock controller and of the pins, which
  \<open>_init\<close> uses, are served by none; and no byte of a stack of up to 15 KiB, where the linker scripts put it, is in its
  RAM of 1 KiB.
\<close>

theorem pysysc_too_small:
  assumes "aligned_inputs inp" "stack_aligned stack inp" "script \<in> set (scripts stack)" "link_image inp script = Some im"
    and "stack \<le> 15 * 1024" "p \<in> set (placed im)" "sect p = S_stack" "i < bytes p"
  shows "py_targets_at (int (vma p + i)) = [] \<and> targets_at (int (vma p + i)) = [Mem_ram]
    \<and> (py_targets_at a = [] \<or> py_targets_at a = targets_at a)
    \<and> list_all (\<lambda>r. py_targets_at (uint (PRCI_CTRL_ADDR + r)) = []) prci_registers
    \<and> list_all (\<lambda>r. py_targets_at (uint (GPIO_CTRL_ADDR + r)) = []) gpio_registers"
proof -
  note l = link_facts[OF assms(1-4)]
  from assms(8) have "0 < bytes p" by simp
  with l(1) assms(6,7) have "vma p = address_of im U_heap_end" "vma p + bytes p = address_of im U_sp"
    by (elim in_place_cases; simp)+
  with l(2,3) assms(5,8) have v: "0x80000400 \<le> vma p + i" "vma p + i < 0x80004000" by linarith+
  then have "py_targets_at (int (vma p + i)) = []" "targets_at (int (vma p + i)) = [Mem_ram]"
    by (simp_all add: py_targets_at_def py_ranges_def targets_at_def target_ranges_def platfrom_mmap_def in_range_def)
  moreover have "list_all (\<lambda>r. py_targets_at (uint (PRCI_CTRL_ADDR + r)) = []) prci_registers"
    "list_all (\<lambda>r. py_targets_at (uint (GPIO_CTRL_ADDR + r)) = []) gpio_registers"
    by code_simp+
  ultimately show ?thesis using py_targets[of a] by blast
qed

theorem pysysc_too_small_witness:
  "\<exists>im p. link_image sample_inputs (flash_lds 2048) = Some im \<and> p \<in> set (placed im) \<and> sect p = S_stack \<and> bytes p = 2048
     \<and> py_targets_at (int (vma p + 2047)) = [] \<and> targets_at (int (vma p + 2047)) = [Mem_ram]"
proof -
  have "\<exists>im. link_image sample_inputs (flash_lds 2048) = Some im
      \<and> \<lparr>sect = S_stack, vma = 0x80003800, lma = 0x80003800, bytes = 2048\<rparr> \<in> set (placed im)"
    by (simp add: link_image_def script_defs align_up_def section_align_def Let_def sample_inputs_def overlap_free_def)
  then obtain im where im: "link_image sample_inputs (flash_lds 2048) = Some im"
      "\<lparr>sect = S_stack, vma = 0x80003800, lma = 0x80003800, bytes = 2048\<rparr> \<in> set (placed im)"
    by blast
  then show ?thesis
    using pysysc_too_small[OF sample_inputs_ok _ im(1) _ im(2), of 2047]
    by (intro exI[of _ im] exI[of _ "\<lparr>sect = S_stack, vma = 0x80003800, lma = 0x80003800, bytes = 2048\<rparr>"])
      (simp add: scripts_def)
qed

end
