(* ===== verification/Spec2Isabelle.thy ===== *)
theory Spec2Isabelle
  imports Access Register_Fields Clic Header_Values Vectors Wrap Pysysc
begin

text \<open>
  A verification library for the TGC virtual platform: its firmware (\<open>fw/\<close>), the structure of the
  platform and its test bench (\<open>src/tgc_vp\<close>), and the program that runs it (\<open>src/sc_main.cpp\<close>,
  \<open>src/CLIParser.cpp\<close>), the linker scripts of the firmware and the platform description in Python.

  \<^bold>\<open>The program.\<close> The board support package in \<open>fw/bsp\<close> runs on a 32-bit RISC-V core (RV32, ilp32
  ABI). \<open>env/start.S\<close> sets up memory and calls \<open>_init\<close> of \<open>env/tgfs-vp/init.c\<close>, which
  switches the clocks, measures the core frequency, starts UART 0 and prints a banner, and then
  \<open>main\<close>. \<open>libwrap\<close> replaces the system calls and \<open>printf\<close> of the C library. Three
  drivers serve the clock controller (PRCI) and the two interrupt controllers (PLIC, CLIC). Traps go
  through \<open>env/entry.S\<close> or \<open>env/ventry.S\<close> to C code; \<open>smp.h\<close> has macros for programs on several
  harts. The linker scripts \<open>flash.lds\<close> and \<open>dhrystone.lds\<close> place code, data, heap and stack, and define the
  symbols that \<open>start.S\<close> and \<open>sbrk.c\<close> use; \<open>libwrap.mk\<close> redirects the wrapped names to the archive. The
  platform routes bus addresses to device models and connects clocks, resets, interrupts and pins; the
  test bench adds a reset generator and a terminal. \<open>sc_main\<close> reads the command line, creates the
  bench, applies the configuration file and then the settings of the command line, and runs the simulation.
  \<open>pysysc/modules.py\<close> builds a smaller platform of the same units.

  \<^bold>\<open>Hardware.\<close> All C code touches hardware through loads, stores and CSR instructions. Theory \<open>Bus\<close>
  gives them a state, \<open>machine\<close>: the history of accesses so far, with the two static variables of the C
  files (\<open>curbrk\<close> of \<open>sbrk.c\<close>, \<open>cpu_freq\<close> of \<open>init.c\<close>). What a load returns is a
  function of the history and the access, the parameter \<open>E :: env\<close>; it stands for the hardware, which is
  not code of the repository. Statements hold for every \<open>E\<close>, or for every \<open>E\<close> that satisfies a
  named description of a device: \<open>responsive\<close> (a polled flag eventually changes), \<open>tx_drains\<close>
  (the UART FIFO makes room), \<open>timer_live\<close> (polled, the timer leaves every stretch of values),
  \<open>clocks_live\<close> (also, the oscillator becomes ready if the last store to its register enables it, and the
  PLL locks if it is set up, not bypassed, and its source runs), \<open>core_clocked\<close> (the core runs on the PLL or
  the oscillator is on), \<open>pll_hw\<close> (the PLL registers read as written, apart from the lock flag), \<open>cycle_hw\<close> and
  \<open>timer_hw\<close> (64-bit counters), \<open>backed\<close>, \<open>plic_hw\<close>, \<open>clic_hw\<close> (register banks that
  keep what is stored). A witness instantiates each of them.

  \<^bold>\<open>Conventions.\<close> Machine integers are words and wrap. An option result \<open>None\<close> means that the C program
  gives the call no result: an endless loop or undefined behaviour (shift count, division by zero,
  signed overflow, wrong \<open>va_arg\<close>, array bound). Error codes are ordinary values. Polling loops are
  \<open>partial_function (option)\<close>, so a device that never answers gives \<open>None\<close>; that they end is proved
  from the device descriptions. No fuel is used except where the code has a bound: the 32 digits of
  \<open>printnum\<close> (enough for every base from 2, \<open>digits_fit_buffer\<close>; the reference counts digits up to the same bound) and the eight digits of \<open>write_hex\<close>.

  \<^bold>\<open>Theories and sources.\<close>
  \<^item> \<open>Prelude\<close>: words, bytes, shifts, option and list lemmas, \<open>run_all\<close>.
  \<^item> \<open>Bus\<close>: accesses, histories, polling (\<open>poll\<close> and its relation \<open>polls\<close>), the memory that a
    history of stores leaves.
  \<^item> \<open>Platform\<close>: base addresses, register offsets and macros of \<open>platform.h\<close>, \<open>prci.h\<close>,
    \<open>plic.h\<close>, \<open>clic.h\<close>, \<open>uart.h\<close> and others, one definition per macro.
  \<^item> \<open>Register_Fields\<close>: \<open>bits.h\<close> and the field layouts of the device headers.
  \<^item> \<open>Sink\<close>, \<open>Uart\<close>: the locale of character sinks; \<open>write\<close>, \<open>puts\<close>, \<open>read\<close>, the
    stubs of \<open>libwrap/sys\<close>, \<open>write_hex\<close> and \<open>_exit\<close>.
  \<^item> \<open>Printf\<close>: \<open>printf.c\<close> statement by statement (\<open>reswitch\<close> is the loop through its label).
  \<^item> \<open>Format\<close>, \<open>PrintfSpec\<close>: what a format means, as a grammar of items, fields and positional numerals
    (\<open>format_chars\<close>), without any function of \<open>Printf\<close>; and the refinement of the formatter to it.
  \<^item> \<open>Heap\<close>: \<open>sbrk.c\<close> and \<open>malloc.c\<close>.
  \<^item> \<open>Irq\<close>, \<open>Plic\<close>, \<open>Clic\<close>: the locale \<open>irq_ctl\<close> of enable banks and the two drivers that
    implement it.
  \<^item> \<open>Counter\<close>, \<open>Prci\<close>: reading a 64-bit counter in halves; the clock driver and an automaton of the
    clock tree (\<open>clk_step\<close>) that says which register stores are safe.
  \<^item> \<open>Init\<close>, \<open>Hello\<close>: \<open>init.c\<close> and \<open>hello.c\<close>; \<open>boot\<close> is \<open>_init\<close> followed by \<open>main\<close>.
  \<^item> \<open>Entry\<close>, \<open>Startup\<close>: the trap entries and the memory loops over registers and byte memory;
    \<open>_start\<close> by instruction, up to \<open>exit\<close>.
  \<^item> \<open>Vectors\<close>: the handlers of \<open>ventry.S\<close>, their routines and defaults, from the jump in the table to \<open>mret\<close>.
  \<^item> \<open>Linker\<close>: the two linker scripts as lists of commands (\<open>flash_lds\<close>, \<open>dhrystone_lds\<close>), the interpreter
    \<open>link_image\<close> for the part of the language they use, as the GNU linker documents it, and the image it yields.
  \<^item> \<open>Wrap\<close>: the lists of \<open>libwrap.mk\<close>, the definitions and references of each object, and the names a link
    needs (\<open>needed\<close>).
  \<^item> \<open>Smp\<close>: the macros of \<open>smp.h\<close> as instruction lists, run by interleaved harts (\<open>runs\<close>).
  \<^item> \<open>Opcodes\<close>, \<open>Csrs\<close>: the tables of \<open>encoding.h\<close>: instructions, register and cause numbers,
    fields, page table entries, access macros.
  \<^item> \<open>Header_Values\<close>: the layout of the PLIC registers and the named values of register fields.
  \<^item> \<open>Board\<close>, \<open>Access\<close>: address ranges, interrupt and pin wiring of the platform; where the
    firmware reaches on it.
  \<^item> \<open>Launcher\<close>: the option table, \<open>CLIParser\<close>, \<open>sc_main\<close>, \<open>stoull\<close>. Calls into the libraries are
    the type \<open>effect\<close>; a function yields the effects so far and a result or a \<open>failure\<close>.
  \<^item> \<open>Bench\<close>: clock, reset and interrupt bindings of \<open>system.cpp\<close>, the pins, terminal and reset
    generator of the test bench.
  \<^item> \<open>Pysysc\<close>: the units, ranges and connections of \<open>modules.py\<close>.

  \<^bold>\<open>What the lemmas show.\<close>
  Clocks: neither \<open>PRCI_use_pll\<close> nor \<open>_init\<close> changes or stops the clock the core runs from, except for
  an even non-zero \<open>refsel\<close>, which does; the routines return on hardware that answers only what they have
  turned on; the measurements equal cycles over ticks; the trim search ends within 31 rounds, each of which
  sets its trim before it measures.
  Console: what \<open>write\<close>, \<open>write_hex\<close> and \<open>printf\<close> put into the FIFO, never when it is full and
  touching no other register; the formatter equals its reference for every callback; decimal and hexadecimal text reads back.
  Heap: blocks are disjoint and inside the heap for requests below 2 GiB, and not above.
  Interrupts: any sequence of driver calls acts on the registers as on a set of sources or a register
  record; initialisation clears what it should, except the vector table of the CLIC, whose loop never runs.
  Traps: both entries restore every register, and each of the 32 causes of the table runs its own routine. Start-up: \<open>_start\<close> initialises memory and pointers and
  enters \<open>main\<close> as the calling convention asks; the program prints its three lines, and every access lies
  on the address map.
  Images: every image the scripts yield has its sections in order and apart, gives \<open>_start\<close> the symbols it
  relies on, and keeps the heap off all sections; start-up loads \<open>.data\<close> and clears \<open>.bss\<close> from
  \<open>__bss_start\<close>, which can lie up to three bytes behind its start; the KiB of stack of a hart is in the stack
  section only if that is large enough. All wrapped names but eight are defined, and the demonstration program links.
  Harts: the pause and resume macros are a barrier, for every number of harts and every interleaving; it opens
  exactly if the interrupt registers without a hart read back zero.
  Tables: no word decodes to two instructions, apart from the listed compressed ones; register numbers carry
  the rights of their group; the registers of the PLIC do not collide.
  Board: ranges are disjoint, and the headers agree with them up to the listed exceptions; every signal has
  one driver; the terminal and UART 1 do not hear each other. The Python platform serves a part of the same map
  and lacks the RAM and the registers that the firmware uses.
  Command line: options are read at the types they are declared with, the settings of the core override the
  configuration file, and the reset address is the number its digits denote.

  \<^bold>\<open>Interfaces.\<close> \<open>char_sink\<close> and \<open>plain_sink\<close> are interpreted for the console and for the
  \<open>sprintf\<close> buffer, \<open>irq_ctl\<close> for both interrupt drivers, \<open>wide_counter\<close> and
  \<open>slow_counter\<close> for the cycle counter and the timer, \<open>c_function\<close> (the calling convention) for
  the call of \<open>handle_trap\<close> and of an application handler, and its weaker form \<open>c_routine\<close> for the calls
  that \<open>_start\<close> makes.

  \<^bold>\<open>Parameters.\<close> \<open>RTC_FREQ\<close>, which the clock driver uses and no file defines; \<open>S_IFCHR\<close>; the sizes and
  alignments of the input sections of an image (powers of two that divide the stack size); what the C library
  defines and calls; the linker symbols in \<open>Heap\<close> and \<open>Startup\<close>, which \<open>Linker\<close> instantiates; the
  application's interrupt handlers and vector routines; the build switches
  \<open>USE_PLIC\<close>, \<open>USE_M_TIME\<close> and \<open>__riscv32\<close>; what compiled C code leaves in scratch registers;
  \<open>atexit\<close> and \<open>__libc_init_array\<close>; how an MSIP register reads back (\<open>keep\<close>, with \<open>msip_hw\<close>); the
  variables that \<open>boost::program_options\<close> parses (\<open>well_typed\<close>), the error of \<open>notify\<close> and how
  \<open>sc_start\<close> ends.

  \<^bold>\<open>Not modelled.\<close> The device models behind the ports, the router, the core and the SystemC kernel,
  which are libraries outside the repository; compiler options and the rules of make and cmake; input sections
  that no pattern of the scripts names, program headers and the order of inputs within a pattern; the script that
  loads PySysC; declarations without behaviour (assembler aliases and branch hints of \<open>bits.h\<close>); the
  commented-out \<open>print_double\<close>; the timing of the hardware beyond the device descriptions.
\<close>

end
